(* ===== verification/Prelude.thy ===== *)
theory Prelude
  imports Main "HOL-Library.Word" "HOL-Library.Multiset"
begin

text \<open>
  The vocabulary the components share.

  \<^item> Machine types: the fixed-width integers of the C sources and the flat byte memory that
    the NIC reads and writes.
  \<^item> Programs: a C function with effects is a state transformer \<open>('w, 'a) prog\<close>.  A run either
    does not return (\<open>None\<close>), returns a value (\<open>Ret\<close>) or ends the process (\<open>Stop\<close>), and the
    world it leaves behind is kept in both of the last two cases.
  \<^item> Reasoning: weakest preconditions as rewrite rules (collection \<open>wp_simps\<close>), a rule for
    counted loops, and the loop \<open>while ((rv = f()) == 0);\<close> that the sources write in six places,
    together with the interface (locale \<open>completion\<close>) under which it runs its body once.
  \<^item> Byte strings: little-endian encoding of naturals with its round trip, and loads and stores
    of byte strings.
\<close>

unbundle bit_operations_syntax

named_theorems wp_simps "equations that compute weakest preconditions"

section \<open>Machine types and memory\<close>

type_synonym u8 = "8 word"
type_synonym u16 = "16 word"
type_synonym u32 = "32 word"
type_synonym u64 = "64 word"
type_synonym mem = "u64 \<Rightarrow> u8"

datatype endian = Little_endian | Big_endian

section \<open>Programs\<close>

text \<open>What ends a process before the modelled function returns.\<close>

datatype fault = Null_deref | Div_by_zero | Assert_failed | Out_of_bounds | Zero_length_array | Bad_conversion |
  Int_overflow

datatype stop = Exit int | Fault fault

datatype 'a res = Ret 'a | Stop stop

type_synonym ('w, 'a) prog = "'w \<Rightarrow> ('a res \<times> 'w) option"

definition ret :: "'a \<Rightarrow> ('w, 'a) prog" where
  "ret a = (\<lambda>w. Some (Ret a, w))"

definition halt :: "stop \<Rightarrow> ('w, 'a) prog" where
  "halt s = (\<lambda>w. Some (Stop s, w))"

definition bindP :: "('w, 'a) prog \<Rightarrow> ('a \<Rightarrow> ('w, 'b) prog) \<Rightarrow> ('w, 'b) prog" where
  "bindP m f = (\<lambda>w. case m w of
      None \<Rightarrow> None
    | Some (r, w') \<Rightarrow> (case r of Ret a \<Rightarrow> f a w' | Stop s \<Rightarrow> Some (Stop s, w')))"

definition thenP :: "('w, 'a) prog \<Rightarrow> ('w, 'b) prog \<Rightarrow> ('w, 'b) prog" where
  "thenP m n = bindP m (\<lambda>_. n)"

definition whenP :: "bool \<Rightarrow> ('w, unit) prog \<Rightarrow> ('w, unit) prog" where
  "whenP b m = (if b then m else ret ())"

definition getP :: "('w \<Rightarrow> 'a) \<Rightarrow> ('w, 'a) prog" where
  "getP f = (\<lambda>w. Some (Ret (f w), w))"

definition modifyP :: "('w \<Rightarrow> 'w) \<Rightarrow> ('w, unit) prog" where
  "modifyP f = (\<lambda>w. Some (Ret (), f w))"

text \<open>A counted loop: the body runs once per element, in order, and threads its locals.\<close>

primrec forP :: "'i list \<Rightarrow> ('i \<Rightarrow> 's \<Rightarrow> ('w, 's) prog) \<Rightarrow> 's \<Rightarrow> ('w, 's) prog" where
  "forP [] body s = ret s"
| "forP (i # is) body s = bindP (body i s) (forP is body)"

text \<open>
  A loop that need not end.  One round either leaves the loop with a result (\<open>Inl\<close>) or goes on
  with new locals (\<open>Inr\<close>).
\<close>

partial_function (option) loopP ::
  "('s \<Rightarrow> ('w, 'r + 's) prog) \<Rightarrow> 's \<Rightarrow> 'w \<Rightarrow> ('r res \<times> 'w) option" where
  "loopP body s w = (case body s w of
      None \<Rightarrow> None
    | Some (r, w') \<Rightarrow> (case r of
          Stop st \<Rightarrow> Some (Stop st, w')
        | Ret x \<Rightarrow> (case x of Inl a \<Rightarrow> Some (Ret a, w') | Inr s' \<Rightarrow> loopP body s' w')))"

declare loopP.simps [code]

text \<open>The loop \<open>while ((rv = m()) == 0);\<close> and its variant \<open>do { rv = m(); } while (rv == 0);\<close>.\<close>

definition retry_zero :: "('w, int \<times> 'x) prog \<Rightarrow> ('w, int \<times> 'x) prog" where
  "retry_zero m = loopP (\<lambda>_. bindP m (\<lambda>x. ret (if fst x = 0 then Inr () else Inl x))) ()"

section \<open>Weakest preconditions\<close>

definition wp :: "('w, 'a) prog \<Rightarrow> ('a \<Rightarrow> 'w \<Rightarrow> bool) \<Rightarrow> (stop \<Rightarrow> 'w \<Rightarrow> bool) \<Rightarrow> 'w \<Rightarrow> bool" where
  "wp m Q E w = (case m w of
      None \<Rightarrow> True
    | Some (r, w') \<Rightarrow> (case r of Ret a \<Rightarrow> Q a w' | Stop s \<Rightarrow> E s w'))"

text \<open>Total: the program returns, and what it returns satisfies the postcondition.\<close>

definition returns :: "('w, 'a) prog \<Rightarrow> ('a \<Rightarrow> 'w \<Rightarrow> bool) \<Rightarrow> 'w \<Rightarrow> bool" where
  "returns m Q w = (case m w of
      None \<Rightarrow> False
    | Some (r, w') \<Rightarrow> (case r of Ret a \<Rightarrow> Q a w' | Stop s \<Rightarrow> False))"

lemma wp_ret [wp_simps]: "wp (ret a) Q E w = Q a w"
  by (simp add: wp_def ret_def)

lemma wp_ret_fun: "wp (ret a) Q E = Q a"
  by (rule ext) (simp add: wp_ret)

lemma wp_halt [wp_simps]: "wp (halt s) Q E w = E s w"
  by (simp add: wp_def halt_def)

lemma wp_bindP [wp_simps]: "wp (bindP m f) Q E w = wp m (\<lambda>a. wp (f a) Q E) E w"
  by (simp add: wp_def bindP_def split: option.split res.split prod.split)

lemma wp_thenP [wp_simps]: "wp (thenP m n) Q E w = wp m (\<lambda>_. wp n Q E) E w"
  by (simp add: thenP_def wp_bindP)

lemma wp_if [wp_simps]: "wp (if b then m else n) Q E w = (if b then wp m Q E w else wp n Q E w)"
  by simp

lemma wp_whenP [wp_simps]: "wp (whenP b m) Q E w = (if b then wp m Q E w else Q () w)"
  by (simp add: whenP_def wp_ret)

lemma wp_getP [wp_simps]: "wp (getP f) Q E w = Q (f w) w"
  by (simp add: wp_def getP_def)

lemma wp_modifyP [wp_simps]: "wp (modifyP f) Q E w = Q () (f w)"
  by (simp add: wp_def modifyP_def)

lemma wp_case_option [wp_simps]:
  "wp (case x of None \<Rightarrow> m | Some a \<Rightarrow> n a) Q E w =
     (case x of None \<Rightarrow> wp m Q E w | Some a \<Rightarrow> wp (n a) Q E w)"
  by (simp split: option.split)

lemma wp_case_prod [wp_simps]:
  "wp (case x of (a, b) \<Rightarrow> n a b) Q E w = (case x of (a, b) \<Rightarrow> wp (n a b) Q E w)"
  by (simp split: prod.split)

lemma wp_mono:
  assumes "wp m Q E w" and "\<And>a w'. Q a w' \<Longrightarrow> Q' a w'" and "\<And>s w'. E s w' \<Longrightarrow> E' s w'"
  shows "wp m Q' E' w"
  using assms by (auto simp: wp_def split: option.splits res.splits)

lemma wp_conj:
  "wp m Q E w \<Longrightarrow> wp m Q' E' w \<Longrightarrow> wp m (\<lambda>a w. Q a w \<and> Q' a w) (\<lambda>s w. E s w \<and> E' s w) w"
  by (auto simp: wp_def split: option.splits res.splits)

lemma wp_no_stop: "wp m Q E w \<Longrightarrow> wp m R (\<lambda>_ _. False) w \<Longrightarrow> wp m Q (\<lambda>_ _. False) w"
  by (auto simp: wp_def split: option.splits res.splits)

lemma wpD: "wp m Q E w \<Longrightarrow> m w = Some (Ret a, w') \<Longrightarrow> Q a w'"
  by (simp add: wp_def)

lemma returns_iff: "returns m Q w \<longleftrightarrow> (\<exists>a w'. m w = Some (Ret a, w') \<and> Q a w')"
  by (auto simp: returns_def split: option.splits res.splits)

lemma returns_ret [wp_simps]: "returns (ret a) Q w = Q a w"
  by (simp add: returns_def ret_def)

lemma returns_halt [wp_simps]: "returns (halt s) Q w = False"
  by (simp add: returns_def halt_def)

lemma returns_bindP [wp_simps]:
  "returns (bindP m f) Q w = returns m (\<lambda>a. returns (f a) Q) w"
  by (simp add: returns_def bindP_def split: option.split res.split prod.split)

lemma returns_thenP [wp_simps]: "returns (thenP m n) Q w = returns m (\<lambda>_. returns n Q) w"
  by (simp add: thenP_def returns_bindP)

lemma returns_whenP [wp_simps]: "returns (whenP b m) Q w = (if b then returns m Q w else Q () w)"
  by (simp add: whenP_def returns_ret)

lemma returns_if [wp_simps]:
  "returns (if b then m else n) Q w = (if b then returns m Q w else returns n Q w)"
  by simp

lemma returns_getP [wp_simps]: "returns (getP f) Q w = Q (f w) w"
  by (simp add: returns_def getP_def)

lemma returns_modifyP [wp_simps]: "returns (modifyP f) Q w = Q () (f w)"
  by (simp add: returns_def modifyP_def)

lemma returns_mono:
  "returns m Q w \<Longrightarrow> (\<And>a w'. Q a w' \<Longrightarrow> Q' a w') \<Longrightarrow> returns m Q' w"
  by (auto simp: returns_def split: option.splits res.splits)

lemma returns_conj:
  "returns m Q w \<Longrightarrow> returns m R w \<Longrightarrow> returns m (\<lambda>a w. Q a w \<and> R a w) w"
  by (auto simp: returns_def split: option.splits res.splits)

lemma returns_wp_conj:
  "returns m Q w \<Longrightarrow> wp m R E w \<Longrightarrow> returns m (\<lambda>a w. Q a w \<and> R a w) w"
  by (auto simp: returns_def wp_def split: option.splits res.splits)

subsection \<open>Counted loops\<close>

text \<open>
  A loop over the indices \<open>0 ..< n\<close> keeps an invariant that speaks of the number of rounds done.
\<close>

lemma wp_forP_from:
  assumes step: "\<And>i s w. k \<le> i \<Longrightarrow> i < n \<Longrightarrow> I i s w \<Longrightarrow> wp (body i s) (I (Suc i)) E w"
    and "k \<le> n" and "I k s w"
  shows "wp (forP [k..<n] body s) (I n) E w"
  using assms
proof (induction "n - k" arbitrary: k s w)
  case 0
  then show ?case by (simp add: wp_ret)
next
  case (Suc d)
  then have less: "k < n" by simp
  have "wp (body k s) (I (Suc k)) E w"
    using Suc.prems less by blast
  moreover have "wp (forP [Suc k..<n] body s') (I n) E w'" if "I (Suc k) s' w'" for s' w'
    using Suc.hyps(1) [of "Suc k" s' w'] Suc.hyps(2) Suc.prems(1) that less by simp
  ultimately have "wp (body k s) (\<lambda>s'. wp (forP [Suc k..<n] body s') (I n) E) E w"
    by (blast intro: wp_mono)
  then show ?case using less by (simp add: upt_conv_Cons wp_bindP)
qed

lemma wp_forP:
  assumes "\<And>i s w. i < n \<Longrightarrow> I i s w \<Longrightarrow> wp (body i s) (I (Suc i)) E w" and "I 0 s w"
  shows "wp (forP [0..<n] body s) (I n) E w"
  by (rule wp_forP_from) (use assms in auto)

lemma wp_forP_inv:
  assumes "\<And>i s w. i \<in> set is \<Longrightarrow> I s w \<Longrightarrow> wp (body i s) I E w" and "I s w"
  shows "wp (forP is body s) I E w"
  using assms
proof (induction "is" arbitrary: s w)
  case Nil
  then show ?case by (simp add: wp_ret)
next
  case (Cons i "is" s w)
  have "wp (body i s) I E w" using Cons.prems by simp
  then have "wp (body i s) (\<lambda>s'. wp (forP is body s') I E) E w"
    by (rule wp_mono) (use Cons in auto)
  then show ?case by (simp add: wp_bindP)
qed

lemma wp_forP_any:
  assumes "\<And>i s w. i \<in> set is \<Longrightarrow> wp (body i s) (\<lambda>_ _. True) E w" and "\<And>s w. Q s w"
  shows "wp (forP is body s) Q E w"
  by (rule wp_mono [OF wp_forP_inv [where I = "\<lambda>_ _. True"]]) (use assms in auto)

lemma returns_forP:
  assumes "\<And>i s w. i \<in> set is \<Longrightarrow> I s w \<Longrightarrow> returns (body i s) I w" and "I s w"
  shows "returns (forP is body s) I w"
  using assms
proof (induction "is" arbitrary: s w)
  case Nil
  then show ?case by (simp add: returns_ret)
next
  case (Cons i "is")
  have "returns (body i s) I w" using Cons.prems by simp
  then have "returns (body i s) (\<lambda>s'. returns (forP is body s') I) w"
    by (rule returns_mono) (use Cons in auto)
  then show ?case by (simp add: returns_bindP)
qed

subsection \<open>Loops that need not end\<close>

lemma loopP_unfold:
  "loopP body s = bindP (body s) (\<lambda>x. case x of Inl a \<Rightarrow> ret a | Inr s' \<Rightarrow> loopP body s')"
  by (rule ext, subst loopP.simps)
    (auto simp: bindP_def ret_def split: option.split res.split sum.split)

text \<open>Partial correctness: an invariant of the rounds holds at the end, if there is an end.\<close>

lemma wp_loopP:
  assumes step: "\<And>s w. I s w \<Longrightarrow>
      wp (body s) (\<lambda>x w'. case x of Inl a \<Rightarrow> Q a w' | Inr s' \<Rightarrow> I s' w') E w"
    and init: "I s w"
  shows "wp (loopP body s) Q E w"
proof -
  have "case fst rw of Ret a \<Rightarrow> Q a (snd rw) | Stop st \<Rightarrow> E st (snd rw)"
    if "loopP body s w = Some rw" for rw
  proof -
    have "b = body \<longrightarrow> I s w \<longrightarrow>
        (case fst rw of Ret a \<Rightarrow> Q a (snd rw) | Stop st \<Rightarrow> E st (snd rw))"
      if "loopP b s w = Some rw" for b
    proof (rule loopP.raw_induct [where P = "\<lambda>b s w rw. b = body \<longrightarrow> I s w \<longrightarrow>
        (case fst rw of Ret a \<Rightarrow> Q a (snd rw) | Stop st \<Rightarrow> E st (snd rw))", OF _ that])
      fix loop b s w rw
      assume IH: "\<And>b s w rw. loop b s w = Some rw \<Longrightarrow> b = body \<longrightarrow> I s w \<longrightarrow>
          (case fst rw of Ret a \<Rightarrow> Q a (snd rw) | Stop st \<Rightarrow> E st (snd rw))"
        and eq: "(case b s w of
            None \<Rightarrow> None
          | Some (r, w') \<Rightarrow> (case r of
                Stop st \<Rightarrow> Some (Stop st, w')
              | Ret x \<Rightarrow> (case x of Inl a \<Rightarrow> Some (Ret a, w') | Inr s' \<Rightarrow> loop b s' w'))) = Some rw"
      show "b = body \<longrightarrow> I s w \<longrightarrow>
          (case fst rw of Ret a \<Rightarrow> Q a (snd rw) | Stop st \<Rightarrow> E st (snd rw))"
      proof (intro impI)
        assume b: "b = body" and "I s w"
        then have "wp (body s) (\<lambda>x w'. case x of Inl a \<Rightarrow> Q a w' | Inr s' \<Rightarrow> I s' w') E w"
          by (rule_tac step)
        with eq b show "case fst rw of Ret a \<Rightarrow> Q a (snd rw) | Stop st \<Rightarrow> E st (snd rw)"
          by (auto simp: wp_def split: option.splits prod.splits res.splits sum.splits dest: IH)
      qed
    qed
    with that init show ?thesis by blast
  qed
  then show ?thesis by (auto simp: wp_def split: option.split res.splits)
qed

text \<open>Total correctness: rounds that go on make progress in a well-founded order.\<close>

lemma returns_loopP:
  assumes "wf R"
    and step: "\<And>s w. I s w \<Longrightarrow> returns (body s)
      (\<lambda>x w'. case x of Inl a \<Rightarrow> Q a w' | Inr s' \<Rightarrow> I s' w' \<and> ((s', w'), (s, w)) \<in> R) w"
    and "I s w"
  shows "returns (loopP body s) Q w"
  using assms(1,3)
proof (induction "(s, w)" arbitrary: s w rule: wf_induct_rule)
  case (less s w)
  from step [OF less.prems] have
    "returns (body s) (\<lambda>x. returns (case x of Inl a \<Rightarrow> ret a | Inr s' \<Rightarrow> loopP body s') Q) w"
    by (rule returns_mono) (auto simp: returns_ret split: sum.splits intro: less.hyps)
  then show ?case by (subst loopP_unfold) (simp add: returns_bindP)
qed

lemma wp_retry_zero:
  assumes "\<And>w. I w \<Longrightarrow> wp m (\<lambda>x w'. if fst x = 0 then I w' else Q x w') E w" and "I w"
  shows "wp (retry_zero m) Q E w"
  unfolding retry_zero_def
proof (rule wp_loopP [where I = "\<lambda>_. I"])
  fix w assume "I w"
  from assms(1) [OF this] show "wp (bindP m (\<lambda>x. ret (if fst x = 0 then Inr () else Inl x)))
      (\<lambda>x w'. case x of Inl a \<Rightarrow> Q a w' | Inr s' \<Rightarrow> I w') E w"
    unfolding wp_bindP by (rule wp_mono) (auto simp: wp_ret split: if_splits)
qed (fact assms)

subsection \<open>Programs that always come back\<close>

text \<open>A program without unbounded loops either returns or stops, from every world.\<close>

definition total :: "('w, 'a) prog \<Rightarrow> bool" where
  "total m \<longleftrightarrow> (\<forall>w. m w \<noteq> None)"

lemma total_returns: "total m \<Longrightarrow> wp m Q (\<lambda>_ _. False) w \<Longrightarrow> returns m Q w"
  by (force simp: total_def wp_def returns_def split: option.splits res.splits)

lemma returns_wpD: "returns m Q w \<Longrightarrow> wp m Q E w"
  by (auto simp: wp_def returns_def split: option.splits res.splits)

lemma total_ret: "total (ret a)"
  by (simp add: total_def ret_def)

lemma total_halt: "total (halt s)"
  by (simp add: total_def halt_def)

lemma total_bindP: "total m \<Longrightarrow> (\<And>a. total (f a)) \<Longrightarrow> total (bindP m f)"
  by (auto simp: total_def bindP_def split: option.splits res.splits)

lemma total_thenP: "total m \<Longrightarrow> total n \<Longrightarrow> total (thenP m n)"
  by (simp add: thenP_def total_bindP)

lemma total_if: "(b \<Longrightarrow> total m) \<Longrightarrow> (\<not> b \<Longrightarrow> total n) \<Longrightarrow> total (if b then m else n)"
  by simp

lemma total_whenP: "total m \<Longrightarrow> total (whenP b m)"
  by (simp add: whenP_def total_ret)

lemma total_case_option:
  "total m \<Longrightarrow> (\<And>a. total (n a)) \<Longrightarrow> total (case x of None \<Rightarrow> m | Some a \<Rightarrow> n a)"
  by (simp split: option.split)

lemma total_case_prod: "(\<And>a b. total (n a b)) \<Longrightarrow> total (case x of (a, b) \<Rightarrow> n a b)"
  by (simp split: prod.split)

lemma total_state: "total (getP f)" "total (modifyP g)"
  by (simp_all add: total_def getP_def modifyP_def)

lemma total_forP: "(\<And>i s. total (body i s)) \<Longrightarrow> total (forP is body s)"
  by (induction "is" arbitrary: s) (simp_all add: total_ret total_bindP)

lemmas total_intros = total_ret total_halt total_bindP total_thenP total_if total_whenP
  total_case_option total_case_prod total_state total_forP

lemma total_outcome:
  "total m \<Longrightarrow> wp m Q E w \<Longrightarrow>
   \<exists>r w'. m w = Some (r, w') \<and> (case r of Ret a \<Rightarrow> Q a w' | Stop s \<Rightarrow> E s w')"
  unfolding total_def wp_def by (drule spec [of _ w], cases "m w") auto

text \<open>
  Addition of two values of type \<open>int\<close>: an overflow is undefined, so it ends the run.
\<close>

definition add_int :: "int \<Rightarrow> int \<Rightarrow> ('w, int) prog" where
  "add_int a b = (if - (2 ^ 31) \<le> a + b \<and> a + b < 2 ^ 31 then ret (a + b) else halt (Fault Int_overflow))"

lemma add_int_ret: "0 \<le> a + b \<Longrightarrow> a + b < 2 ^ 31 \<Longrightarrow> add_int a b = ret (a + b)"
  by (simp add: add_int_def)

lemma wp_add_int [wp_simps]:
  "0 \<le> a + b \<Longrightarrow> a + b < 2 ^ 31 \<Longrightarrow> wp (add_int a b) Q E w = Q (a + b) w"
  "0 \<le> a + b \<Longrightarrow> a + b < 2 ^ 31 \<Longrightarrow> returns (add_int a b) Q w = Q (a + b) w"
  by (simp_all add: add_int_ret wp_ret returns_ret)

lemma total_add_int: "total (add_int a b)"
  by (simp add: add_int_def total_ret total_halt)

text \<open>A counted loop whose rounds only compute.\<close>

lemma bindP_ret [simp]: "bindP (ret a) f = f a"
  by (simp add: bindP_def ret_def)

lemma forP_pure:
  "(\<And>i s. i \<in> set is \<Longrightarrow> body i s = ret (f i s)) \<Longrightarrow> forP is body s = ret (fold f is s)"
  by (induction "is" arbitrary: s) simp_all

subsection \<open>Waiting for a completion\<close>

text \<open>
  The interface between the completion functions of \<open>dccs_rdma.h\<close> and the code that calls them
  inside \<open>while ((rv = comp(..)) == 0);\<close>: a completion never returns 0.
\<close>

locale completion =
  fixes comp :: "('w, int \<times> 'x) prog"
  assumes nonzero: "comp w = Some (Ret (rv, x), w') \<Longrightarrow> rv \<noteq> 0"
begin

lemma retry_once: "retry_zero comp = comp"
proof
  fix w
  show "retry_zero comp w = comp w"
    unfolding retry_zero_def
    by (subst loopP.simps)
      (auto simp: bindP_def ret_def split: option.split res.split dest: nonzero)
qed

end

section \<open>Bytes\<close>

fun enc_le :: "nat \<Rightarrow> nat \<Rightarrow> u8 list" where
  "enc_le 0 n = []"
| "enc_le (Suc k) n = of_nat (n mod 256) # enc_le k (n div 256)"

fun dec_le :: "u8 list \<Rightarrow> nat" where
  "dec_le [] = 0"
| "dec_le (b # bs) = unat b + 256 * dec_le bs"

lemma length_enc_le [simp]: "length (enc_le k n) = k"
  by (induction k n rule: enc_le.induct) auto

lemma unat_byte [simp]: "unat (of_nat (n mod 256) :: u8) = n mod 256"
  by (simp add: unat_of_nat)

lemma dec_enc_le: "dec_le (enc_le k n) = n mod 256 ^ k"
proof (induction k n rule: enc_le.induct)
  case (2 k n)
  have "n mod (256 * 256 ^ k) = 256 * (n div 256 mod 256 ^ k) + n mod 256"
    by (rule mod_mult2_eq)
  then show ?case using "2.IH" by simp
qed simp

lemma dec_le_bound: "dec_le bs < 256 ^ length bs"
proof (induction bs)
  case (Cons b bs)
  have "unat b < 256" using unsigned_less [of b] by simp
  with Cons show ?case by simp
qed simp

lemma enc_dec_le: "enc_le (length bs) (dec_le bs) = bs"
proof (induction bs)
  case (Cons b bs)
  have b: "unat b < 256" using unsigned_less [of b] by simp
  then have "(unat b + 256 * dec_le bs) mod 256 = unat b"
    and "(unat b + 256 * dec_le bs) div 256 = dec_le bs"
    by simp_all
  then show ?case using Cons by simp
qed simp

lemma enc_le_inj: "m < 256 ^ k \<Longrightarrow> n < 256 ^ k \<Longrightarrow> enc_le k m = enc_le k n \<Longrightarrow> m = n"
  by (metis dec_enc_le mod_less)

text \<open>Byte strings in the flat memory; addresses wrap at \<open>2^64\<close>.\<close>

definition load_bytes :: "mem \<Rightarrow> u64 \<Rightarrow> nat \<Rightarrow> u8 list" where
  "load_bytes m a n = map (\<lambda>i. m (a + of_nat i)) [0..<n]"

definition store_bytes :: "mem \<Rightarrow> u64 \<Rightarrow> u8 list \<Rightarrow> mem" where
  "store_bytes m a bs = (\<lambda>x. if unat (x - a) < length bs then bs ! unat (x - a) else m x)"

lemma length_load_bytes [simp]: "length (load_bytes m a n) = n"
  by (simp add: load_bytes_def)

lemma nth_load_bytes [simp]: "i < n \<Longrightarrow> load_bytes m a n ! i = m (a + of_nat i)"
  by (simp add: load_bytes_def)

lemma load_store_bytes:
  assumes "length bs \<le> 2 ^ 64"
  shows "load_bytes (store_bytes m a bs) a (length bs) = bs"
proof (rule nth_equalityI)
  fix i assume "i < length (load_bytes (store_bytes m a bs) a (length bs))"
  then have i: "i < length bs" by simp
  then have "unat (of_nat i :: u64) = i"
    using assms by (simp add: unat_of_nat)
  then show "load_bytes (store_bytes m a bs) a (length bs) ! i = bs ! i"
    using i by (simp add: store_bytes_def)
qed simp

lemma load_bytes_append:
  "load_bytes m a (i + j) = load_bytes m a i @ load_bytes m (a + of_nat i) j"
proof (rule nth_equalityI)
  fix k assume "k < length (load_bytes m a (i + j))"
  then show "load_bytes m a (i + j) ! k = (load_bytes m a i @ load_bytes m (a + of_nat i) j) ! k"
    by (cases "k < i") (auto simp: nth_append add.assoc simp flip: of_nat_add)
qed simp

lemma store_bytes_Nil [simp]: "store_bytes m a [] = m"
  by (simp add: store_bytes_def)

lemma store_bytes_append:
  assumes "length xs + length ys \<le> 2 ^ 64"
  shows "store_bytes (store_bytes m a xs) (a + of_nat (length xs)) ys = store_bytes m a (xs @ ys)"
proof
  fix x
  show "store_bytes (store_bytes m a xs) (a + of_nat (length xs)) ys x = store_bytes m a (xs @ ys) x"
  proof (cases "ys = []")
    case False
    then have xs: "unat (of_nat (length xs) :: u64) = length xs"
      using assms by (cases ys) (simp_all add: unat_of_nat)
    have eq: "x - (a + of_nat (length xs)) = (x - a) - of_nat (length xs)" by simp
    show ?thesis
    proof (cases "length xs \<le> unat (x - a)")
      case True
      then have "unat (x - (a + of_nat (length xs))) = unat (x - a) - length xs"
        unfolding eq by (simp add: unat_sub word_le_nat_alt xs)
      then show ?thesis using True by (auto simp: store_bytes_def nth_append)
    next
      case less: False
      have "unat (x - (a + of_nat (length xs))) = 2 ^ 64 + unat (x - a) - length xs"
        unfolding eq using less xs by (simp add: unat_sub_if' )
      then show ?thesis using less assms by (auto simp: store_bytes_def nth_append)
    qed
  qed simp
qed

lemma unat_minus_of_nat:
  "j < 2 ^ 64 \<Longrightarrow>
   unat (y - of_nat j :: u64) = (if j \<le> unat y then unat y - j else 2 ^ 64 + unat y - j)"
  by (auto simp: unat_sub_if' unat_of_nat)

lemma unat_offset:
  assumes "j < 2 ^ 64"
  shows "unat (x - (a + of_nat j) :: u64) =
    (if j \<le> unat (x - a) then unat (x - a) - j else 2 ^ 64 + unat (x - a) - j)"
proof -
  have "x - (a + of_nat j) = (x - a) - of_nat j" by simp
  then show ?thesis by (simp only: unat_minus_of_nat [OF assms])
qed

lemma store_bytes_overwrite:
  assumes "j + length bs \<le> length ys" and "length ys \<le> 2 ^ 64"
  shows "store_bytes (store_bytes m a ys) (a + of_nat j) bs =
    store_bytes m a (take j ys @ bs @ drop (j + length bs) ys)"
proof
  fix x
  show "store_bytes (store_bytes m a ys) (a + of_nat j) bs x =
    store_bytes m a (take j ys @ bs @ drop (j + length bs) ys) x"
  proof (cases "bs = []")
    case False
    then have "j < 2 ^ 64" using assms by (cases bs) simp_all
    from unat_offset [OF this, of x a] show ?thesis
      using assms by (auto simp: store_bytes_def nth_append min_def)
  qed simp
qed

text \<open>Two byte ranges of the address space that share no address.\<close>

definition disjoint_ranges :: "u64 \<Rightarrow> nat \<Rightarrow> u64 \<Rightarrow> nat \<Rightarrow> bool" where
  "disjoint_ranges a n b k \<longleftrightarrow> n \<le> unat (b - a) \<and> unat (b - a) + k \<le> 2 ^ 64"

lemma load_store_disjoint:
  assumes "disjoint_ranges a (length bs) b k"
  shows "load_bytes (store_bytes m a bs) b k = load_bytes m b k"
proof (rule nth_equalityI)
  fix i assume "i < length (load_bytes (store_bytes m a bs) b k)"
  then have i: "i < k" by simp
  let ?d = "unat (b - a)"
  from i assms have d: "length bs \<le> ?d" "?d + i < 2 ^ 64" by (auto simp: disjoint_ranges_def)
  have "(b + of_nat i) - a = of_nat (?d + i)" by (simp add: algebra_simps)
  moreover have "unat (of_nat (?d + i) :: u64) = ?d + i"
    using d(2) by (simp add: unat_of_nat del: of_nat_add)
  ultimately have "unat ((b + of_nat i) - a) = ?d + i" by (simp only:)
  then show "load_bytes (store_bytes m a bs) b k ! i = load_bytes m b k ! i"
    using i d(1) by (simp add: store_bytes_def)
qed simp

end
