(* ===== verification/Dccs_Params.thy ===== *)
theory Dccs_Params
  imports Prelude
begin

text \<open>
  The data of \<open>dccs_parameters.h\<close> and the compile-time settings of \<open>dccs_config.h\<close>.

  Enumerations are datatypes with the source's constructors (the verb \<open>None\<close> is spelt
  \<open>None_verb\<close>, since HOL has a \<open>None\<close> of its own); the two structs the program keeps are records
  whose fields carry the prefix \<open>p_\<close> or \<open>rq_\<close>.  \<open>size_t\<close> and \<open>uint64_t\<close> are 64-bit words, a
  pointer into memory is its 64-bit address, and \<open>direction\<close> is the plain integer the struct
  declares it to be.
\<close>

section \<open>Enumerations\<close>

datatype Verb = None_verb | Send | Read | Write

datatype Mode = MODE_LATENCY | MODE_THROUGHPUT

datatype Direction = DIR_OUT | DIR_IN | DIR_BOTH

datatype Role = ROLE_CLIENT | ROLE_SERVER

text \<open>The integer an enumerator of \<open>Direction\<close> converts to when it is stored in an \<open>int\<close>.\<close>

fun direction_int :: "Direction \<Rightarrow> int" where
  "direction_int DIR_OUT = 0"
| "direction_int DIR_IN = 1"
| "direction_int DIR_BOTH = 2"

section \<open>Structs\<close>

text \<open>
  A registered memory region as \<open>libibverbs\<close> hands it out.  The program reads only the remote
  key; the handle stands for the identity of the object.  A \<open>struct ibv_mr *\<close> is an option,
  \<open>None\<close> being the null pointer.
\<close>

record ibv_mr =
  mr_handle :: nat
  mr_rkey :: u32

record dccs_mr_info =
  mi_addr :: u64
  mi_rkey :: u32

record dccs_parameters =
  p_verb :: Verb
  p_count :: u64
  p_length :: u64
  p_repeat :: u64
  p_server :: "string option"
  p_port :: string
  p_mode :: Mode
  p_warmup_count :: u64
  p_mr_count :: u64
  p_direction :: int
  p_index :: u16
  p_tos :: u8
  p_slot :: u8
  p_verbose :: bool

record dccs_request =
  rq_verb :: Verb
  rq_mr :: "ibv_mr option"
  rq_buf :: u64
  rq_length :: u64
  rq_remote_addr :: u64
  rq_remote_rkey :: u32
  rq_start :: u64
  rq_end :: u64

text \<open>A request all of whose bytes are zero, as \<open>memset\<close> and \<open>calloc\<close> leave it.\<close>

definition zero_request :: dccs_request where
  "zero_request = \<lparr>rq_verb = None_verb, rq_mr = None, rq_buf = 0, rq_length = 0,
     rq_remote_addr = 0, rq_remote_rkey = 0, rq_start = 0, rq_end = 0\<rparr>"

text \<open>
  Sizes of the structs under the x86-64 ABI: \<open>dccs_mr_info\<close> is 8 + 4 bytes padded to a multiple
  of 8; \<open>dccs_request\<close> is 4 (+ 4 padding) + 8 + 8 + 8 + 8 + 4 (+ 4 padding) + 8 + 8.
\<close>

definition sizeof_mr_info :: u64 where "sizeof_mr_info = 16"

definition sizeof_request :: u64 where "sizeof_request = 64"

section \<open>Configuration\<close>

definition CACHE_LINE_SIZE :: u64 where "CACHE_LINE_SIZE = 64"

definition CPU_TO_USE :: nat where "CPU_TO_USE = 0"

definition MAX_WR :: u32 where "MAX_WR = 1000"

definition DEFAULT_MESSAGE_COUNT :: u64 where "DEFAULT_MESSAGE_COUNT = 1000"

definition DEFAULT_MESSAGE_LENGTH :: u64 where "DEFAULT_MESSAGE_LENGTH = 2"

definition DEFAULT_PORT :: string where "DEFAULT_PORT = ''1234''"

definition DEFAULT_WARMUP_COUNT :: u64 where "DEFAULT_WARMUP_COUNT = 0"

definition DEFAULT_MR_COUNT :: u64 where "DEFAULT_MR_COUNT = 1"

definition DEFAULT_REPEAT_COUNT :: u64 where "DEFAULT_REPEAT_COUNT = 1"

definition DEFAULT_DIRECTION :: Direction where "DEFAULT_DIRECTION = DIR_OUT"

definition DEFAULT_INDEX :: u16 where "DEFAULT_INDEX = 0"

definition DEFAULT_TOS :: u8 where "DEFAULT_TOS = 0"

definition DCCS_CYCLE_UPTIME :: nat where "DCCS_CYCLE_UPTIME = 180"

text \<open>\<open>SYNC_END_MESSAGE\<close> is the string literal \<open>"End"\<close>: three characters and the terminator.\<close>

definition SYNC_END_MESSAGE :: "u8 list" where
  "SYNC_END_MESSAGE = [0x45, 0x6e, 0x64, 0]"

definition SYNC_END_MESSAGE_LENGTH :: u64 where "SYNC_END_MESSAGE_LENGTH = 4"

definition MILLION :: u64 where "MILLION = 1000000"

definition BILLION :: u64 where "BILLION = 1000000000"

lemmas config_defs = CACHE_LINE_SIZE_def CPU_TO_USE_def MAX_WR_def DEFAULT_MESSAGE_COUNT_def
  DEFAULT_MESSAGE_LENGTH_def DEFAULT_PORT_def DEFAULT_WARMUP_COUNT_def DEFAULT_MR_COUNT_def
  DEFAULT_REPEAT_COUNT_def DEFAULT_DIRECTION_def DEFAULT_INDEX_def DEFAULT_TOS_def
  DCCS_CYCLE_UPTIME_def SYNC_END_MESSAGE_def SYNC_END_MESSAGE_LENGTH_def MILLION_def BILLION_def

end
