(* ===== verification/Floating.thy ===== *)
theory Floating
  imports Complex_Main "HOL-Library.Log_Nat" "HOL-Library.Word"
begin

text \<open>
  The C type \<open>double\<close>: IEEE 754 binary64 with rounding to nearest, ties to even.  A finite value is
  the rational it stands for, so the two zeros are one value; the infinities and the NaN are
  constructors of their own.  Every operation computes the exact rational and rounds it once.

  The lemmas give the relative error of one rounding, that small integers are exact and that values
  far from the limits of the format stay finite.
\<close>

datatype double = Fin rat | Pos_inf | Neg_inf | NaN

section \<open>Rounding\<close>

text \<open>The integer nearest to a rational, the even one of two that are equally near.\<close>

definition round_even :: "rat \<Rightarrow> int" where
  "round_even x = (let f = \<lfloor>x\<rfloor>; r = x - of_int f in
     if r < 1 / 2 then f else if 1 / 2 < r then f + 1 else if even f then f else f + 1)"

text \<open>The binary exponent \<open>e\<close> of a nonzero rational: \<open>2^e \<le> |x| < 2^(e+1)\<close>.\<close>

definition expo :: "rat \<Rightarrow> int" where
  "expo x = (case quotient_of x of (p, q) \<Rightarrow>
     let d = bitlen \<bar>p\<bar> - bitlen q in if \<bar>x\<bar> < 2 powi d then d - 1 else d)"

text \<open>The distance between neighbouring doubles around \<open>x\<close>: 53 significant bits, fewer below
  \<open>2^-1022\<close>.\<close>

definition ulp :: "rat \<Rightarrow> rat" where
  "ulp x = 2 powi (max (expo x) (- 1022) - 52)"

definition to_double :: "rat \<Rightarrow> double" where
  "to_double x = (if x = 0 then Fin 0 else
     let r = of_int (round_even (x / ulp x)) * ulp x in
     if 2 ^ 1024 \<le> r then Pos_inf else if r \<le> - (2 ^ 1024) then Neg_inf else Fin r)"

section \<open>Operations\<close>

fun dneg :: "double \<Rightarrow> double" where
  "dneg (Fin a) = Fin (- a)"
| "dneg Pos_inf = Neg_inf"
| "dneg Neg_inf = Pos_inf"
| "dneg NaN = NaN"

fun dadd :: "double \<Rightarrow> double \<Rightarrow> double" where
  "dadd (Fin a) (Fin b) = to_double (a + b)"
| "dadd NaN _ = NaN"
| "dadd _ NaN = NaN"
| "dadd Pos_inf Neg_inf = NaN"
| "dadd Neg_inf Pos_inf = NaN"
| "dadd Pos_inf _ = Pos_inf"
| "dadd _ Pos_inf = Pos_inf"
| "dadd _ _ = Neg_inf"

definition dsub :: "double \<Rightarrow> double \<Rightarrow> double" where
  "dsub a b = dadd a (dneg b)"

text \<open>The sign of a value that is not a NaN, and the infinity of a sign.\<close>

fun dsgn :: "double \<Rightarrow> rat" where
  "dsgn (Fin a) = sgn a"
| "dsgn Pos_inf = 1"
| "dsgn Neg_inf = - 1"
| "dsgn NaN = 0"

definition inf_of :: "rat \<Rightarrow> double" where
  "inf_of s = (if 0 < s then Pos_inf else if s < 0 then Neg_inf else NaN)"

fun dmul :: "double \<Rightarrow> double \<Rightarrow> double" where
  "dmul (Fin a) (Fin b) = to_double (a * b)"
| "dmul NaN _ = NaN"
| "dmul _ NaN = NaN"
| "dmul a b = inf_of (dsgn a * dsgn b)"

fun ddiv :: "double \<Rightarrow> double \<Rightarrow> double" where
  "ddiv (Fin a) (Fin b) = (if b = 0 then inf_of (sgn a) else to_double (a / b))"
| "ddiv NaN _ = NaN"
| "ddiv _ NaN = NaN"
| "ddiv (Fin a) _ = Fin 0"
| "ddiv a (Fin b) = inf_of (dsgn a * (if b < 0 then - 1 else 1))"
| "ddiv _ _ = NaN"

fun dless :: "double \<Rightarrow> double \<Rightarrow> bool" where
  "dless (Fin a) (Fin b) = (a < b)"
| "dless NaN _ = False"
| "dless _ NaN = False"
| "dless Neg_inf b = (b \<noteq> Neg_inf)"
| "dless _ Pos_inf = True"
| "dless _ _ = False"

fun dleq :: "double \<Rightarrow> double \<Rightarrow> bool" where
  "dleq (Fin a) (Fin b) = (a \<le> b)"
| "dleq NaN _ = False"
| "dleq _ NaN = False"
| "dleq Neg_inf _ = True"
| "dleq _ Pos_inf = True"
| "dleq _ _ = False"

text \<open>Conversions: a cast from an integer rounds, a cast to one truncates; out of range it is undefined.\<close>

definition double_of_nat :: "nat \<Rightarrow> double" where
  "double_of_nat n = to_double (of_nat n)"

definition trunc :: "rat \<Rightarrow> int" where
  "trunc x = (if 0 \<le> x then \<lfloor>x\<rfloor> else \<lceil>x\<rceil>)"

fun cast_int :: "double \<Rightarrow> int option" where
  "cast_int (Fin a) = (if - (2 ^ 31) \<le> trunc a \<and> trunc a < 2 ^ 31 then Some (trunc a) else None)"
| "cast_int _ = None"

fun cast_u64 :: "double \<Rightarrow> 64 word option" where
  "cast_u64 (Fin a) = (if 0 \<le> trunc a \<and> trunc a < 2 ^ 64 then Some (of_int (trunc a)) else None)"
| "cast_u64 _ = None"

definition DBL_MAX :: double where
  "DBL_MAX = Fin ((2 ^ 53 - 1) * 2 ^ 971)"

section \<open>Facts\<close>

lemma round_even_error: "\<bar>of_int (round_even x) - x\<bar> \<le> 1 / 2"
proof -
  have "of_int \<lfloor>x\<rfloor> \<le> x" "x < of_int \<lfloor>x\<rfloor> + 1" by linarith+
  then show ?thesis by (auto simp: round_even_def Let_def abs_le_iff field_simps)
qed

lemma round_even_of_int [simp]: "round_even (of_int k) = k"
  by (simp add: round_even_def)

lemma bitlen_frac_bounds:
  fixes p q :: int
  assumes "0 < p" "0 < q"
  shows "2 powi (bitlen p - bitlen q - 1) < (of_int p / of_int q :: rat)"
    and "(of_int p / of_int q :: rat) < 2 powi (bitlen p - bitlen q + 1)"
proof -
  define m n where "m = nat (bitlen p - 1)" and "n = nat (bitlen q - 1)"
  have pos: "0 < bitlen p" "0 < bitlen q"
    using assms bitlen_nonneg [of p] bitlen_nonneg [of q] bitlen_eq_zero_iff [of p] bitlen_eq_zero_iff [of q] by linarith+
  then have m: "bitlen p = int m + 1" and n: "bitlen q = int n + 1" by (simp_all add: m_def n_def)
  have "2 ^ m \<le> p" "p < 2 ^ Suc m" "2 ^ n \<le> q" "q < 2 ^ Suc n"
    using bitlen_bounds [OF assms(1)] bitlen_bounds [OF assms(2)] by (auto simp: m n nat_add_distrib)
  then have r: "(2 ^ m :: rat) \<le> of_int p" "(of_int p :: rat) < 2 ^ Suc m"
    "(2 ^ n :: rat) \<le> of_int q" "(of_int q :: rat) < 2 ^ Suc n"
    by (simp_all only: of_int_le_iff [symmetric, where 'a = rat] of_int_less_iff [symmetric, where 'a = rat] of_int_power of_int_numeral)
  have pow: "(2 powi (bitlen p - bitlen q - 1) :: rat) = 2 ^ m / 2 ^ Suc n"
    "(2 powi (bitlen p - bitlen q + 1) :: rat) = 2 ^ Suc m / 2 ^ n"
    by (simp_all add: m n power_int_diff power_int_add power_int_of_nat)
  show "2 powi (bitlen p - bitlen q - 1) < (of_int p / of_int q :: rat)"
    unfolding pow using r assms by (intro frac_less2) auto
  show "(of_int p / of_int q :: rat) < 2 powi (bitlen p - bitlen q + 1)"
    unfolding pow using r assms by (intro frac_less) auto
qed

lemma expo_bounds:
  assumes "x \<noteq> 0"
  shows "2 powi (expo x) \<le> \<bar>x\<bar>" and "\<bar>x\<bar> < 2 powi (expo x + 1)"
proof -
  obtain p q where pq: "quotient_of x = (p, q)" by (cases "quotient_of x")
  then have x: "x = of_int p / of_int q" and q: "0 < q"
    by (simp_all add: quotient_of_div quotient_of_denom_pos)
  with assms have p: "0 < \<bar>p\<bar>" by auto
  have ax: "\<bar>x\<bar> = of_int \<bar>p\<bar> / of_int q" using x q by (simp add: abs_divide)
  from bitlen_frac_bounds [OF p q] show "2 powi (expo x) \<le> \<bar>x\<bar>" "\<bar>x\<bar> < 2 powi (expo x + 1)"
    by (auto simp: expo_def pq Let_def ax)
qed

lemma ulp_pos: "0 < ulp x"
  by (simp add: ulp_def)

lemma rounded_error: "\<bar>of_int (round_even (x / ulp x)) * ulp x - x\<bar> \<le> ulp x / 2"
proof -
  let ?k = "of_int (round_even (x / ulp x))"
  have "?k * ulp x - x = (?k - x / ulp x) * ulp x"
    using ulp_pos [of x] by (simp add: left_diff_distrib)
  then have "\<bar>?k * ulp x - x\<bar> = \<bar>?k - x / ulp x\<bar> * ulp x"
    using ulp_pos [of x] by (simp only: abs_mult abs_of_pos)
  also have "\<dots> \<le> 1 / 2 * ulp x"
    using round_even_error [of "x / ulp x"] ulp_pos [of x] by (intro mult_right_mono) auto
  finally show ?thesis by simp
qed

lemma ulp_le: "x \<noteq> 0 \<Longrightarrow> 2 powi (- 1022) \<le> \<bar>x\<bar> \<Longrightarrow> ulp x \<le> \<bar>x\<bar> / 2 ^ 52"
proof -
  assume x: "x \<noteq> 0" and ge: "2 powi (- 1022) \<le> \<bar>x\<bar>"
  have "- 1022 \<le> expo x"
  proof (rule ccontr)
    assume "\<not> - 1022 \<le> expo x"
    then have "(2 :: rat) powi (expo x + 1) \<le> 2 powi (- 1022)"
      by (intro power_int_increasing) auto
    with expo_bounds(2) [OF x] ge show False by linarith
  qed
  then have "ulp x = 2 powi (expo x) / 2 ^ 52"
    by (simp add: ulp_def power_int_diff)
  then show ?thesis using expo_bounds(1) [OF x] by (simp add: divide_right_mono)
qed

lemma pow2_less: "(2 :: rat) powi a < 2 powi b \<Longrightarrow> a < b"
  using power_int_increasing [of b a "2 :: rat"] by force

lemma ulp_small: "\<bar>x\<bar> < 2 powi (- 1022) \<Longrightarrow> x \<noteq> 0 \<Longrightarrow> ulp x \<le> 1"
proof -
  assume "\<bar>x\<bar> < 2 powi (- 1022)" and x: "x \<noteq> 0"
  with expo_bounds(1) [OF x] have "(2 :: rat) powi (expo x) < 2 powi (- 1022)" by linarith
  then have "expo x < - 1022" by (rule pow2_less)
  then have "ulp x = 2 powi (- 1074)" by (simp add: ulp_def)
  also have "\<dots> \<le> 2 powi 0" by (intro power_int_increasing) auto
  finally show ?thesis by simp
qed

text \<open>One rounding changes a value of ordinary size by at most the factor \<open>1 \<plusminus> 2^-53\<close>.\<close>

lemma to_double_Fin:
  assumes "x \<noteq> 0" and r: "r = of_int (round_even (x / ulp x)) * ulp x" and "\<bar>r\<bar> < 2 ^ 1024"
  shows "to_double x = Fin r"
proof -
  have "\<not> 2 ^ 1024 \<le> r" "\<not> r \<le> - (2 ^ 1024)" using assms(3) by linarith+
  then show ?thesis using assms(1) by (simp only: to_double_def Let_def r [symmetric] if_False)
qed

lemma to_double_near:
  assumes "2 powi (- 1022) \<le> \<bar>x\<bar>" and "\<bar>x\<bar> \<le> 2 ^ 1000"
  obtains r where "to_double x = Fin r" and "\<bar>r - x\<bar> \<le> \<bar>x\<bar> / 2 ^ 53"
proof -
  let ?r = "of_int (round_even (x / ulp x)) * ulp x"
  have x: "x \<noteq> 0" using assms(1) by (auto simp: not_le)
  have err: "\<bar>?r - x\<bar> \<le> \<bar>x\<bar> / 2 ^ 53"
    using rounded_error [of x] ulp_le [OF x assms(1)] by simp
  also have "\<dots> \<le> \<bar>x\<bar>" by simp
  finally have "\<bar>?r\<bar> \<le> 2 * 2 ^ 1000" using assms(2) by linarith
  also have "(2 :: rat) * 2 ^ 1000 < 2 ^ 1024" by simp
  finally have "to_double x = Fin ?r" by (rule to_double_Fin [OF x refl])
  with err show ?thesis by (rule_tac that)
qed

lemma to_double_bounded:
  assumes "\<bar>x\<bar> \<le> 2 ^ k" and "k \<le> 1000"
  obtains r where "to_double x = Fin r" and "\<bar>r\<bar> \<le> 2 ^ Suc k"
proof (cases "x = 0")
  case True
  then show ?thesis using that [of 0] by (simp add: to_double_def)
next
  case x: False
  let ?r = "of_int (round_even (x / ulp x)) * ulp x"
  have k: "(1 :: rat) \<le> 2 ^ k" by simp
  have "ulp x \<le> 2 ^ k"
  proof (cases "2 powi (- 1022) \<le> \<bar>x\<bar>")
    case True
    have "ulp x \<le> \<bar>x\<bar> / 2 ^ 52" by (rule ulp_le [OF x True])
    also have "\<dots> \<le> \<bar>x\<bar>" by simp
    finally show ?thesis using assms(1) by linarith
  next
    case False
    then have "\<bar>x\<bar> < 2 powi (- 1022)" by (rule not_le_imp_less)
    from ulp_small [OF this x] show ?thesis using k by linarith
  qed
  with rounded_error [of x] assms(1) k have le: "\<bar>?r\<bar> \<le> 2 ^ Suc k"
    unfolding power_Suc by linarith
  also have "\<dots> \<le> (2 :: rat) ^ 1001" using assms(2) by (intro power_increasing) auto
  also have "\<dots> < 2 ^ 1024" by simp
  finally have "to_double x = Fin ?r" by (rule to_double_Fin [OF x refl])
  with le show ?thesis by (rule_tac that)
qed

text \<open>Integers of at most 53 bits are exact.\<close>

lemma double_of_nat_exact:
  assumes "n < 2 ^ 53"
  shows "double_of_nat n = Fin (of_nat n)"
proof (cases "n = 0")
  case False
  define x :: rat where "x = of_nat n"
  with False have x: "x \<noteq> 0" by simp
  have "of_nat n < (of_nat (2 ^ 53) :: rat)" using assms by (simp only: of_nat_less_iff)
  then have x53: "\<bar>x\<bar> < 2 ^ 53" by (simp add: x_def)
  have x0: "1 \<le> \<bar>x\<bar>" using False by (simp add: x_def)
  have "(2 :: rat) powi (expo x) < 2 powi 53" using expo_bounds(1) [OF x] x53 by simp
  then have e53: "expo x < 53" by (rule pow2_less)
  have "(2 :: rat) powi 0 < 2 powi (expo x + 1)" using expo_bounds(2) [OF x] x0 by simp
  then have "0 < expo x + 1" by (rule pow2_less)
  then have e0: "0 \<le> expo x" by simp
  have u: "ulp x = 1 / 2 ^ nat (52 - expo x)"
  proof -
    have "ulp x = 2 powi (- int (nat (52 - expo x)))" using e53 e0 by (simp add: ulp_def)
    then show ?thesis by (simp only: power_int_minus power_int_of_nat inverse_eq_divide)
  qed
  then have "x / ulp x = of_int (int n * 2 ^ nat (52 - expo x))" by (simp add: x_def)
  then have "of_int (round_even (x / ulp x)) = x / ulp x" by (simp only: round_even_of_int)
  then have r: "x = of_int (round_even (x / ulp x)) * ulp x"
    using ulp_pos [of x] by simp
  have "(2 :: rat) ^ 53 < 2 ^ 1024" by simp
  with x53 have "\<bar>x\<bar> < 2 ^ 1024" by linarith
  from to_double_Fin [OF x r this] show ?thesis by (simp only: double_of_nat_def x_def)
qed (simp add: double_of_nat_def to_double_def)

section \<open>Percentile indices\<close>

lemma round_even_unique: "\<bar>x - of_int k\<bar> < 1 / 2 \<Longrightarrow> round_even x = k"
proof -
  assume "\<bar>x - of_int k\<bar> < 1 / 2"
  with round_even_error [of x] have "\<bar>of_int (round_even x) - of_int k :: rat\<bar> < 1" by linarith
  then have "\<bar>of_int (round_even x - k) :: rat\<bar> < of_int 1" by simp
  then show ?thesis unfolding of_int_abs [symmetric] of_int_less_iff by linarith
qed

lemma expo_unique: "2 powi e \<le> \<bar>x\<bar> \<Longrightarrow> \<bar>x\<bar> < 2 powi (e + 1) \<Longrightarrow> expo x = e"
proof -
  assume e: "2 powi e \<le> \<bar>x\<bar>" "\<bar>x\<bar> < 2 powi (e + 1)"
  have "(0 :: rat) < 2 powi e" by simp
  with e(1) have "0 < \<bar>x\<bar>" by linarith
  then have x: "x \<noteq> 0" by simp
  have "expo x < e + 1" by (rule pow2_less) (use expo_bounds(1) [OF x] e(2) in linarith)
  moreover have "e < expo x + 1" by (rule pow2_less) (use expo_bounds(2) [OF x] e(1) in linarith)
  ultimately show ?thesis by simp
qed

lemma ulp_lower: "x \<noteq> 0 \<Longrightarrow> \<bar>x\<bar> / 2 ^ 53 < ulp x"
proof -
  assume x: "x \<noteq> 0"
  have "\<bar>x\<bar> / 2 ^ 53 < 2 powi (expo x + 1) / 2 ^ 53"
    using expo_bounds(2) [OF x] by (intro divide_strict_right_mono) simp_all
  also have "\<dots> = 2 powi (expo x - 52)" by (simp add: power_int_diff power_int_add)
  also have "\<dots> \<le> ulp x" unfolding ulp_def by (intro power_int_increasing) simp_all
  finally show ?thesis .
qed

text \<open>A value within less than half a unit of a small natural number is rounded to it.\<close>

lemma to_double_nat:
  assumes y: "1 / 2 \<le> y" "y < 2 ^ 52" and near: "\<bar>y - of_nat k\<bar> \<le> y / 2 ^ 54"
  shows "to_double y = Fin (of_nat k)"
proof -
  have y0: "y \<noteq> 0" "0 < y" using y(1) by auto
  have "(2 :: rat) powi (expo y) < 2 powi 52"
    using expo_bounds(1) [OF y0(1)] y by simp
  then have e52: "expo y < 52" by (rule pow2_less)
  have "(2 :: rat) powi (- 1) \<le> \<bar>y\<bar>" using y y0 by simp
  then have "(2 :: rat) powi (- 1) < 2 powi (expo y + 1)" using expo_bounds(2) [OF y0(1)] by linarith
  then have e1: "- 1 < expo y + 1" by (rule pow2_less)
  have "ulp y = 2 powi (- int (nat (52 - expo y)))" using e52 e1 by (simp add: ulp_def)
  then have u: "ulp y = 1 / 2 ^ nat (52 - expo y)"
    by (simp only: power_int_minus power_int_of_nat inverse_eq_divide)
  define m where "m = int k * 2 ^ nat (52 - expo y)"
  have m: "of_int m = of_nat k / ulp y" by (simp add: m_def u)
  have "y / 2 ^ 54 < ulp y / 2" using ulp_lower [OF y0(1)] y0(2) by simp
  with near have "\<bar>y - of_nat k\<bar> < ulp y / 2" by linarith
  then have "\<bar>y - of_nat k\<bar> / ulp y < 1 / 2" using ulp_pos [of y] by (simp add: field_simps)
  moreover have "y / ulp y - of_int m = (y - of_nat k) / ulp y" by (simp add: m diff_divide_distrib)
  ultimately have "\<bar>y / ulp y - of_int m\<bar> < 1 / 2" using ulp_pos [of y] by (simp add: abs_divide)
  then have "round_even (y / ulp y) = m" by (rule round_even_unique)
  then have r: "of_nat k = of_int (round_even (y / ulp y)) * ulp y"
    using ulp_pos [of y] by (simp add: m)
  have "y / 2 ^ 54 \<le> y" using y0(2) by simp
  with near have "of_nat k \<le> 2 * y" by linarith
  with y(2) have "\<bar>of_nat k\<bar> < (2 :: rat) ^ 1024" by simp
  from to_double_Fin [OF y0(1) r this] show ?thesis .
qed

lemma to_double_literal:
  assumes x: "1 / 2 \<le> x" "x < 1" and k: "\<bar>x * 2 ^ 53 - of_int k\<bar> < 1 / 2"
  shows "to_double x = Fin (of_int k / 2 ^ 53)"
proof -
  have "expo x = - 1" by (rule expo_unique) (use x in \<open>simp_all add: power_int_minus\<close>)
  then have u: "ulp x = 1 / 2 ^ 53" by (simp add: ulp_def power_int_minus inverse_eq_divide)
  have "x / ulp x = x * 2 ^ 53" by (simp only: u divide_divide_eq_right div_by_1 mult_1_right)
  with round_even_unique [OF k] have r: "of_int k / 2 ^ 53 = of_int (round_even (x / ulp x)) * ulp x"
    by (simp only: u) simp
  have "0 \<le> x * 2 ^ 53" "x * 2 ^ 53 \<le> 2 ^ 53" using x by simp_all
  then have "\<bar>of_int k\<bar> \<le> (2 :: rat) ^ 53 + 1" using k by linarith
  also have "\<dots> \<le> 2 ^ 54" by simp
  finally have "\<bar>of_int k\<bar> \<le> (2 :: rat) ^ 54" .
  then have "\<bar>of_int k\<bar> / 2 ^ 53 \<le> (2 :: rat)" by simp
  moreover have "(2 :: rat) < 2 ^ 1024" by simp
  ultimately have "\<bar>of_int k / 2 ^ 53\<bar> < (2 :: rat) ^ 1024" by (simp only: abs_divide) simp
  from to_double_Fin [OF _ r this] show ?thesis using x by simp
qed

lemma double_nine_tenths: "to_double (9 / 10) = Fin (8106479329266893 / 2 ^ 53)"
  using to_double_literal [of "9 / 10" 8106479329266893] by simp

lemma double_99_percent: "to_double (99 / 100) = Fin (8917127262193582 / 2 ^ 53)"
  using to_double_literal [of "99 / 100" 8917127262193582] by simp

text \<open>
  The cast \<open>(int)((double)n * c)\<close>, where \<open>c\<close> is the double nearest to \<open>p / q\<close>, is the integer
  quotient: neither rounding moves the product across an integer.
\<close>

lemma percent_index:
  fixes n p q :: nat and c :: rat
  assumes n: "0 < n" "n < 2 ^ 31" and pq: "q \<le> 100" "9 / 10 \<le> (of_nat p / of_nat q :: rat)" "p < q"
    and c: "\<bar>c - of_nat p / of_nat q\<bar> \<le> 1 / (5 * 2 ^ 53)"
  shows "cast_int (dmul (double_of_nat n) (Fin c)) = Some (int (n * p div q))"
proof -
  define y z :: rat where "y = of_nat n * c" and "z = of_nat (n * p) / of_nat q"
  define k where "k = n * p div q"
  have q: "0 < q" using pq(3) by simp
  have n1: "1 \<le> (of_nat n :: rat)" using n(1) by simp
  have n31: "(of_nat n :: rat) < 2 ^ 31" using n(2) by (metis of_nat_less_iff of_nat_numeral of_nat_power)
  have "1 / (5 * 2 ^ 53) \<le> (1 / 10 :: rat)" by simp
  with c have c10: "\<bar>c - of_nat p / of_nat q\<bar> \<le> 1 / 10" by (rule order_trans)
  then have c8: "8 / 10 \<le> c" using pq(2) by linarith
  have pq1: "of_nat p / of_nat q < (1 :: rat)" using pq(3) by simp
  have c1: "c \<le> 2" using pq1 c10 by linarith
  have y8: "8 / 10 * of_nat n \<le> y" unfolding y_def using c8 n1 by (simp add: mult.commute mult_left_mono)
  have y2: "y \<le> 2 * of_nat n" unfolding y_def using c1 n1 by (simp add: mult.commute mult_right_mono)
  have "y - z = of_nat n * (c - of_nat p / of_nat q)" by (simp add: y_def z_def algebra_simps)
  then have "\<bar>y - z\<bar> = of_nat n * \<bar>c - of_nat p / of_nat q\<bar>" by (simp add: abs_mult)
  also have "\<dots> \<le> of_nat n * (1 / (5 * 2 ^ 53))" using c by (intro mult_left_mono) simp_all
  finally have yz: "\<bar>y - z\<bar> \<le> of_nat n / (5 * 2 ^ 53)" by simp
  have kq: "n * p = k * q + n * p mod q" unfolding k_def by simp
  have zk: "z = of_nat k + of_nat (n * p mod q) / of_nat q"
    unfolding z_def by (subst kq) (use q in \<open>simp add: add_divide_distrib\<close>)
  have kn: "k \<le> n"
  proof -
    have "n * p \<le> n * q" using pq(3) by simp
    then have "n * p div q \<le> n * q div q" by (rule div_le_mono)
    then show ?thesis using q by (simp add: k_def)
  qed
  have dn: "dmul (double_of_nat n) (Fin c) = to_double y"
    using double_of_nat_exact [of n] n(2) by (simp add: y_def)
  have "\<exists>r. to_double y = Fin r \<and> of_nat k \<le> r \<and> r < of_nat k + 1"
  proof (cases "n * p mod q = 0")
    case True
    then have "z = of_nat k" using zk by simp
    then have "\<bar>y - of_nat k\<bar> \<le> of_nat n / (5 * 2 ^ 53)" using yz by simp
    also have "\<dots> \<le> y / 2 ^ 54" using y8 by simp
    finally have near: "\<bar>y - of_nat k\<bar> \<le> y / 2 ^ 54" .
    have "1 / 2 \<le> y" using y8 n1 by linarith
    moreover have "y < 2 ^ 52" using y2 n31 by simp
    ultimately show ?thesis using to_double_nat [OF _ _ near] by simp
  next
    case False
    have f: "1 / 100 \<le> (of_nat (n * p mod q) / of_nat q :: rat)" "(of_nat (n * p mod q) / of_nat q :: rat) \<le> 99 / 100"
    proof -
      have "1 \<le> n * p mod q" "n * p mod q + 1 \<le> q" using False q by (simp_all add: Suc_leI)
      then have r: "1 \<le> (of_nat (n * p mod q) :: rat)" "(of_nat (n * p mod q) :: rat) + 1 \<le> of_nat q"
        by (metis of_nat_1 of_nat_le_iff, metis of_nat_1 of_nat_add of_nat_le_iff)
      have q100: "(of_nat q :: rat) \<le> 100" using pq(1) by (metis of_nat_le_iff of_nat_numeral)
      show "1 / 100 \<le> (of_nat (n * p mod q) / of_nat q :: rat)" "(of_nat (n * p mod q) / of_nat q :: rat) \<le> 99 / 100"
        using r q100 q by (simp_all add: field_simps)
    qed
    have "0 \<le> y" using y8 n1 by linarith
    then have ay: "\<bar>y\<bar> = y" by simp
    have "(2 :: rat) powi (- 1022) \<le> 2 powi (- 1)" by (rule power_int_increasing) simp_all
    then have lo: "2 powi (- 1022) \<le> \<bar>y\<bar>" using y8 n1 ay by (simp add: power_int_minus)
    have hi: "\<bar>y\<bar> \<le> 2 ^ 1000" using y2 n31 unfolding ay by simp
    obtain r where r: "to_double y = Fin r" "\<bar>r - y\<bar> \<le> \<bar>y\<bar> / 2 ^ 53"
      by (rule to_double_near [OF lo hi])
    have e1: "\<bar>y\<bar> / 2 ^ 53 \<le> 1 / 1000" using y2 n31 ay by simp
    have e2: "of_nat n / (5 * 2 ^ 53) \<le> (1 / 1000 :: rat)" using n31 by simp
    have "\<bar>r - z\<bar> \<le> 1 / 500" using r(2) e1 e2 yz by linarith
    then have "of_nat k \<le> r" "r < of_nat k + 1" using zk f by linarith+
    then show ?thesis using r(1) by blast
  qed
  then obtain r where r: "to_double y = Fin r" "of_nat k \<le> r" "r < of_nat k + 1" by blast
  have "\<lfloor>r\<rfloor> = int k" using r(2,3) by (simp add: floor_eq_iff)
  moreover have "0 \<le> r" using r(2) by (meson of_nat_0_le_iff order_trans)
  ultimately have "trunc r = int k" by (simp add: trunc_def)
  moreover have "int k < 2 ^ 31" using kn n(2) by (metis le_less_trans of_nat_less_iff of_nat_numeral of_nat_power)
  ultimately show ?thesis by (simp add: dn r(1) k_def)
qed

lemma percent_indices:
  assumes "0 < n" and "n < 2 ^ 31"
  shows "cast_int (dmul (double_of_nat n) (to_double (9 / 10))) = Some (int (n * 9 div 10))"
    and "cast_int (dmul (double_of_nat n) (to_double (99 / 100))) = Some (int (n * 99 div 100))"
  unfolding double_nine_tenths double_99_percent
  by (rule percent_index [OF assms]; simp)+

lemma to_double_nonneg:
  assumes "0 \<le> x" and "to_double x = Fin r"
  shows "0 \<le> r"
proof (cases "x = 0")
  case False
  let ?k = "round_even (x / ulp x)"
  have "0 \<le> x / ulp x" using assms(1) ulp_pos [of x] by simp
  with round_even_error [of "x / ulp x"] have "- (1 / 2) \<le> (of_int ?k :: rat)" by linarith
  then have "0 \<le> ?k" by linarith
  moreover have "r = of_int ?k * ulp x"
    using assms(2) False by (simp add: to_double_def Let_def split: if_splits)
  ultimately show ?thesis using ulp_pos [of x] by simp
qed (use assms(2) in \<open>simp add: to_double_def\<close>)

section \<open>Accumulated error\<close>

text \<open>
  A computed value that \<open>n\<close> roundings separate from the exact one: each changes it by at most the
  factor \<open>1 - 2^-53\<close> or its inverse, and the factors multiply.
\<close>

definition near :: "nat \<Rightarrow> rat \<Rightarrow> rat \<Rightarrow> bool" where
  "near n x r \<longleftrightarrow> 0 < x \<and> 0 < r \<and> x * (1 - 1 / 2 ^ 53) ^ n \<le> r \<and> r * (1 - 1 / 2 ^ 53) ^ n \<le> x"

lemma near_refl: "0 < x \<Longrightarrow> near 0 x x"
  by (simp add: near_def)

lemma near_mult:
  assumes "near m x a" and "near n y b"
  shows "near (m + n) (x * y) (a * b)"
proof -
  let ?c = "1 - 1 / 2 ^ 53 :: rat"
  have xa: "0 < x" "0 < a" "x * ?c ^ m \<le> a" "a * ?c ^ m \<le> x"
    and yb: "0 < y" "0 < b" "y * ?c ^ n \<le> b" "b * ?c ^ n \<le> y"
    using assms unfolding near_def by blast+
  have c: "0 \<le> ?c ^ n" for n by (rule zero_le_power) simp
  have "(x * ?c ^ m) * (y * ?c ^ n) \<le> a * b" "(a * ?c ^ m) * (b * ?c ^ n) \<le> x * y"
    using xa yb c by (intro mult_mono mult_nonneg_nonneg; simp)+
  moreover have "(x * ?c ^ m) * (y * ?c ^ n) = (x * y) * ?c ^ (m + n)"
    "(a * ?c ^ m) * (b * ?c ^ n) = (a * b) * ?c ^ (m + n)"
    by (simp_all only: power_add mult_ac)
  ultimately show ?thesis using xa(1,2) yb(1,2) unfolding near_def by (metis mult_pos_pos)
qed

lemma near_inverse: "near n y b \<Longrightarrow> near n (1 / y) (1 / b)"
  unfolding near_def by (simp add: divide_simps mult.commute)

lemma near_divide: "near m x a \<Longrightarrow> near n y b \<Longrightarrow> near (m + n) (x / y) (a / b)"
  using near_mult [OF _ near_inverse, of m x a n y b] by simp

text \<open>One more rounding.\<close>

lemma near_to_double:
  assumes "near n x y" and "n \<le> 10" and "1 / 2 ^ 200 \<le> x" and "x \<le> 2 ^ 200"
  obtains r where "to_double y = Fin r" and "near (Suc n) x r"
proof -
  let ?c = "1 - 1 / 2 ^ 53 :: rat"
  have pos: "0 < x" "0 < y" and lo: "x * ?c ^ n \<le> y" and hi: "y * ?c ^ n \<le> x"
    using assms(1) unfolding near_def by blast+
  have c: "0 \<le> ?c" "?c \<le> 1" by simp_all
  have "(1 :: rat) / 2 \<le> ?c ^ 10" by (simp add: power_divide)
  also have "?c ^ 10 \<le> ?c ^ n" by (rule power_decreasing [OF assms(2) c])
  finally have half: "1 / 2 \<le> ?c ^ n" .
  have "x * (1 / 2) \<le> x * ?c ^ n" "y * (1 / 2) \<le> y * ?c ^ n"
    using half pos by (intro mult_left_mono; simp)+
  then have xy: "x / 2 \<le> y" "y \<le> 2 * x" using lo hi by linarith+
  have "(2 :: rat) powi (- 1022) \<le> 2 powi (- 201)" by (rule power_int_increasing) simp_all
  also have "(2 :: rat) powi (- 201) = 1 / 2 ^ 201" by (simp add: power_int_minus inverse_eq_divide)
  also have "(1 :: rat) / 2 ^ 201 \<le> x / 2" using assms(3) by simp
  finally have a: "2 powi (- 1022) \<le> \<bar>y\<bar>" using xy(1) pos by linarith
  have b: "\<bar>y\<bar> \<le> 2 ^ 1000"
  proof -
    have "(2 :: rat) * 2 ^ 200 \<le> 2 ^ 1000" by simp
    then show ?thesis using xy(2) assms(4) pos by linarith
  qed
  obtain r where r: "to_double y = Fin r" "\<bar>r - y\<bar> \<le> \<bar>y\<bar> / 2 ^ 53" by (rule to_double_near [OF a b])
  have ay: "\<bar>y\<bar> = y" using pos by simp
  define d where "d = y / 2 ^ 53"
  have yd: "y * ?c = y - d" "y * (1 + 1 / 2 ^ 53) = y + d"
    by (simp_all add: right_diff_distrib distrib_left d_def)
  have "\<bar>r - y\<bar> \<le> d" using r(2) by (simp only: ay d_def)
  then have yr: "y * ?c \<le> r" "r \<le> y * (1 + 1 / 2 ^ 53)" unfolding yd by linarith+
  have "0 < y * ?c" using pos by simp
  then have r0: "0 < r" using yr(1) by linarith
  have "r * ?c \<le> y * (1 + 1 / 2 ^ 53) * ?c" using yr(2) by (rule mult_right_mono) simp
  also have "\<dots> = y * ((1 + 1 / 2 ^ 53) * ?c)" by (simp only: mult.assoc)
  also have "\<dots> \<le> y * 1" using pos by (intro mult_left_mono) simp_all
  finally have "r * ?c \<le> y" by simp
  then have "near 1 y r" using yr(1) r0 pos by (simp add: near_def)
  have cn: "0 \<le> ?c ^ n" using half by linarith
  have "x * ?c ^ n * ?c \<le> y * ?c" using lo by (rule mult_right_mono) simp
  then have "x * ?c ^ n * ?c \<le> r" using yr(1) by (rule order_trans)
  moreover have "r * ?c * ?c ^ n \<le> y * ?c ^ n" using \<open>r * ?c \<le> y\<close> cn by (rule mult_right_mono)
  then have "r * ?c * ?c ^ n \<le> x" using hi by (rule order_trans)
  ultimately have "near (Suc n) x r"
    using r0 pos unfolding near_def power_Suc mult.commute [of ?c "?c ^ n"] mult.assoc [symmetric]
    by (simp only: mult.assoc mult.commute [of ?c])
  with r(1) show ?thesis by (rule that)
qed

lemma near_bound:
  assumes "near n x r" and "1 - e \<le> (1 - 1 / 2 ^ 53) ^ n" and "1 \<le> (1 + e) * (1 - 1 / 2 ^ 53) ^ n"
  shows "\<bar>r - x\<bar> \<le> x * e"
proof -
  let ?k = "(1 - 1 / 2 ^ 53) ^ n :: rat"
  have pos: "0 < x" "0 < r" and lo: "x * ?k \<le> r" and hi: "r * ?k \<le> x"
    using assms(1) unfolding near_def by blast+
  have k: "0 < ?k" by (rule zero_less_power) simp
  have "x * (1 - e) \<le> x * ?k" using assms(2) pos by (intro mult_left_mono) simp_all
  then have "x - x * e \<le> r" using lo by (simp add: right_diff_distrib)
  moreover have "r \<le> x * (1 + e)"
  proof -
    have "r * ?k \<le> x * 1" using hi by simp
    also have "\<dots> \<le> x * ((1 + e) * ?k)" using assms(3) pos by (intro mult_left_mono) simp_all
    finally have "r * ?k \<le> (x * (1 + e)) * ?k" by (simp only: mult.assoc)
    then show ?thesis using k by (simp only: mult_le_cancel_right_pos)
  qed
  ultimately show ?thesis by (simp add: distrib_left abs_le_iff)
qed

end
