(* ===== verification/Platform.thy ===== *)
theory Platform
  imports Dccs_Params Floating
begin

text \<open>
  The boundary between the program and everything that is not under \<open>src/\<close>.

  The connection manager and verbs library, the allocator, the clock, the scheduler, the random
  number generator, the digest function, the variable \<open>POSIXLY_CORRECT\<close> of the process environment and
  MPI are arguments of the model: the record \<open>sys\<close> holds
  one function per entry point the sources call.  Each takes the call's arguments, the state of
  the environment (of any type \<open>'e\<close>) and the memory, and gives the reply with a new environment
  and a new memory, so the NIC may change any byte during any call.  Nothing is assumed of these
  functions here; the theorems that need a documented behaviour name it as a hypothesis.

  The world of a process is its environment, its memory and the trace of the calls it has made,
  each with its arguments and its reply.  The trace is what the properties talk about; the
  program itself never reads it.
\<close>

section \<open>Library types\<close>

text \<open>\<open>struct rdma_cm_id *\<close> and \<open>struct rdma_addrinfo *\<close>: the identity of the object.\<close>

type_synonym cm_id = nat

type_synonym addrinfo = nat

datatype ai_flag = RAI_PASSIVE

datatype port_space = RDMA_PS_TCP

record addr_hints =
  ai_flags :: "ai_flag set"
  ai_port_space :: port_space

datatype qp_type = IBV_QPT_RC

text \<open>The fields of \<open>struct ibv_qp_init_attr\<close> the program sets; the others are zeroed.\<close>

record qp_init_attr =
  max_send_wr :: u32
  max_recv_wr :: u32
  qp_context :: "cm_id option"
  qp_type_of :: qp_type

datatype send_flag = IBV_SEND_SIGNALED

datatype reg_kind = Reg_msgs | Reg_read | Reg_write

datatype cq = Send_cq cm_id | Recv_cq cm_id

text \<open>\<open>struct ibv_wc\<close>; the status 0 is \<open>IBV_WC_SUCCESS\<close>.\<close>

record ibv_wc =
  wc_wr_id :: u64
  wc_status :: int

definition IBV_WC_SUCCESS :: int where "IBV_WC_SUCCESS = 0"

datatype stream = Stdout | Stderr

text \<open>
  A message: the format with the values of its variadic arguments, where the properties speak of
  them (a string that may be null, a string in memory, a word, an integer, a double), or what
  \<open>perror\<close> is given.
\<close>

datatype log_arg =
    Arg_str "string option" | Arg_bytes "u8 list" | Arg_u64 u64 | Arg_int int | Arg_double double

datatype log_body = Vfprintf string "log_arg list" | Perror string

section \<open>Calls and their replies\<close>

datatype event =
    Ev_log stream string log_body
  | Ev_getaddrinfo "string option" string addr_hints int addrinfo
  | Ev_freeaddrinfo addrinfo
  | Ev_create_ep addrinfo qp_init_attr int cm_id
  | Ev_destroy_ep cm_id
  | Ev_set_option_tos cm_id u8 int
  | Ev_connect cm_id int
  | Ev_listen cm_id int int
  | Ev_get_request cm_id int cm_id
  | Ev_accept cm_id int
  | Ev_disconnect cm_id int
  | Ev_reg reg_kind cm_id u64 u64 "ibv_mr option"
  | Ev_dereg "ibv_mr option" int
  | Ev_post_send cm_id u64 u64 "ibv_mr option" "send_flag set" "u8 list" int
  | Ev_post_recv cm_id u64 u64 "ibv_mr option" int
  | Ev_post_read cm_id u64 u64 "ibv_mr option" "send_flag set" u64 u32 int
  | Ev_post_write cm_id u64 u64 "ibv_mr option" "send_flag set" u64 u32 int
  | Ev_poll cq int int "ibv_wc list"
  | Ev_malloc u64 u64
  | Ev_calloc u64 u64 u64
  | Ev_memalign u64 u64 int u64
  | Ev_free u64
  | Ev_clock u64 u64
  | Ev_setaffinity nat int
  | Ev_time u64
  | Ev_srand u32
  | Ev_rand u32
  | Ev_isend u64 int int
  | Ev_irecv u64 int int
  | Ev_request_free nat
  | Ev_testall int bool
  | Ev_barrier
  | Ev_mpi_send int "u8 list"
  | Ev_mpi_recv int "u8 list"
  | Ev_wtime double
  | Ev_mpi_init
  | Ev_comm_size int
  | Ev_comm_rank int
  | Ev_mpi_finalize
  | Ev_printf string "log_arg list"

record 'e world =
  env :: 'e
  mem :: mem
  trace :: "event list"

type_synonym ('e, 'r) ext = "'e \<Rightarrow> mem \<Rightarrow> 'r \<times> 'e \<times> mem"

record 'e rdma_api =
  rdma_getaddrinfo :: "string option \<Rightarrow> string \<Rightarrow> addr_hints \<Rightarrow> ('e, int \<times> addrinfo) ext"
  rdma_freeaddrinfo :: "addrinfo \<Rightarrow> ('e, unit) ext"
  rdma_create_ep :: "addrinfo \<Rightarrow> qp_init_attr \<Rightarrow> ('e, int \<times> cm_id) ext"
  rdma_destroy_ep :: "cm_id \<Rightarrow> ('e, unit) ext"
  rdma_set_option_tos :: "cm_id \<Rightarrow> u8 \<Rightarrow> ('e, int) ext"
  rdma_connect :: "cm_id \<Rightarrow> ('e, int) ext"
  rdma_listen :: "cm_id \<Rightarrow> int \<Rightarrow> ('e, int) ext"
  rdma_get_request :: "cm_id \<Rightarrow> ('e, int \<times> cm_id) ext"
  rdma_accept :: "cm_id \<Rightarrow> ('e, int) ext"
  rdma_disconnect :: "cm_id \<Rightarrow> ('e, int) ext"
  rdma_reg :: "reg_kind \<Rightarrow> cm_id \<Rightarrow> u64 \<Rightarrow> u64 \<Rightarrow> ('e, ibv_mr option) ext"
  rdma_dereg_mr :: "ibv_mr option \<Rightarrow> ('e, int) ext"
  rdma_post_send :: "cm_id \<Rightarrow> u64 \<Rightarrow> u64 \<Rightarrow> ibv_mr option \<Rightarrow> send_flag set \<Rightarrow> ('e, int) ext"
  rdma_post_recv :: "cm_id \<Rightarrow> u64 \<Rightarrow> u64 \<Rightarrow> ibv_mr option \<Rightarrow> ('e, int) ext"
  rdma_post_read :: "cm_id \<Rightarrow> u64 \<Rightarrow> u64 \<Rightarrow> ibv_mr option \<Rightarrow> send_flag set \<Rightarrow> u64 \<Rightarrow> u32 \<Rightarrow> ('e, int) ext"
  rdma_post_write :: "cm_id \<Rightarrow> u64 \<Rightarrow> u64 \<Rightarrow> ibv_mr option \<Rightarrow> send_flag set \<Rightarrow> u64 \<Rightarrow> u32 \<Rightarrow> ('e, int) ext"
  ibv_poll_cq :: "cq \<Rightarrow> int \<Rightarrow> ('e, int \<times> ibv_wc list) ext"

record 'e libc_api =
  sys_malloc :: "u64 \<Rightarrow> ('e, u64) ext"
  sys_calloc :: "u64 \<Rightarrow> u64 \<Rightarrow> ('e, u64) ext"
  sys_memalign :: "u64 \<Rightarrow> u64 \<Rightarrow> ('e, int \<times> u64) ext"
  sys_free :: "u64 \<Rightarrow> ('e, unit) ext"
  clock_gettime :: "('e, u64 \<times> u64) ext"
  sched_setaffinity :: "nat \<Rightarrow> ('e, int) ext"
  sys_time :: "('e, u64) ext"
  sys_srand :: "u32 \<Rightarrow> ('e, unit) ext"
  sys_rand :: "('e, u32) ext"
  SHA1 :: "u8 list \<Rightarrow> u8 list"
  libm_pow :: "double \<Rightarrow> double \<Rightarrow> double"
  libm_sqrt :: "double \<Rightarrow> double"
  POSIXLY_CORRECT :: bool

record 'e mpi_api =
  MPI_Isend :: "u64 \<Rightarrow> int \<Rightarrow> int \<Rightarrow> ('e, unit) ext"
  MPI_Irecv :: "u64 \<Rightarrow> int \<Rightarrow> int \<Rightarrow> ('e, unit) ext"
  MPI_Request_free :: "nat \<Rightarrow> ('e, unit) ext"
  MPI_Testall :: "int \<Rightarrow> ('e, bool) ext"
  MPI_Barrier :: "('e, unit) ext"
  MPI_Send :: "int \<Rightarrow> u8 list \<Rightarrow> ('e, unit) ext"
  MPI_Recv :: "int \<Rightarrow> ('e, u8 list) ext"
  MPI_Wtime :: "('e, double) ext"
  MPI_Init :: "('e, unit) ext"
  MPI_Comm_size :: "('e, int) ext"
  MPI_Comm_rank :: "('e, int) ext"
  MPI_Finalize :: "('e, unit) ext"

text \<open>
  Beside the libraries: the byte order of the host, and the stack addresses of the locals whose
  address is taken, by name.
\<close>

record 'e sys =
  host_endian :: endian
  local_addr :: "string \<Rightarrow> u64"
  rdma :: "'e rdma_api"
  libc :: "'e libc_api"
  mpi :: "'e mpi_api"

text \<open>One call: ask the environment, record the call with its reply.\<close>

definition ext_call :: "('e, 'r) ext \<Rightarrow> ('r \<Rightarrow> event) \<Rightarrow> ('e world, 'r) prog" where
  "ext_call f ev = (\<lambda>w. case f (env w) (mem w) of (r, e', m') \<Rightarrow>
     Some (Ret r, w\<lparr>env := e', mem := m', trace := trace w @ [ev r]\<rparr>))"

definition emit :: "event \<Rightarrow> ('e world, unit) prog" where
  "emit e = modifyP (\<lambda>w. w\<lparr>trace := trace w @ [e]\<rparr>)"

definition write_mem :: "u64 \<Rightarrow> u8 list \<Rightarrow> ('e world, unit) prog" where
  "write_mem a bs = modifyP (\<lambda>w. w\<lparr>mem := store_bytes (mem w) a bs\<rparr>)"

definition read_mem :: "u64 \<Rightarrow> nat \<Rightarrow> ('e world, u8 list) prog" where
  "read_mem a n = getP (\<lambda>w. load_bytes (mem w) a n)"

definition call_malloc :: "'e sys \<Rightarrow> u64 \<Rightarrow> ('e world, u64) prog" where
  "call_malloc sys n = ext_call (sys_malloc (libc sys) n) (Ev_malloc n)"

definition call_calloc :: "'e sys \<Rightarrow> u64 \<Rightarrow> u64 \<Rightarrow> ('e world, u64) prog" where
  "call_calloc sys k n = ext_call (sys_calloc (libc sys) k n) (Ev_calloc k n)"

definition call_memalign :: "'e sys \<Rightarrow> u64 \<Rightarrow> u64 \<Rightarrow> ('e world, int \<times> u64) prog" where
  "call_memalign sys a n =
     ext_call (sys_memalign (libc sys) a n) (\<lambda>(rv, p). Ev_memalign a n rv p)"

definition call_free :: "'e sys \<Rightarrow> u64 \<Rightarrow> ('e world, unit) prog" where
  "call_free sys p = ext_call (sys_free (libc sys) p) (\<lambda>_. Ev_free p)"

lemma wp_ext_call [wp_simps]:
  "wp (ext_call f ev) Q E w = (case f (env w) (mem w) of (r, e', m') \<Rightarrow>
     Q r (w\<lparr>env := e', mem := m', trace := trace w @ [ev r]\<rparr>))"
  by (simp add: wp_def ext_call_def split: prod.split)

lemma returns_ext_call [wp_simps]:
  "returns (ext_call f ev) Q w = (case f (env w) (mem w) of (r, e', m') \<Rightarrow>
     Q r (w\<lparr>env := e', mem := m', trace := trace w @ [ev r]\<rparr>))"
  by (simp add: returns_def ext_call_def split: prod.split)

lemma wp_emit [wp_simps]: "wp (emit e) Q E w = Q () (w\<lparr>trace := trace w @ [e]\<rparr>)"
  by (simp add: emit_def wp_modifyP)

lemma returns_emit [wp_simps]: "returns (emit e) Q w = Q () (w\<lparr>trace := trace w @ [e]\<rparr>)"
  by (simp add: emit_def returns_modifyP)

lemma wp_write_mem [wp_simps]:
  "wp (write_mem a bs) Q E w = Q () (w\<lparr>mem := store_bytes (mem w) a bs\<rparr>)"
  by (simp add: write_mem_def wp_modifyP)

lemma wp_read_mem [wp_simps]: "wp (read_mem a n) Q E w = Q (load_bytes (mem w) a n) w"
  by (simp add: read_mem_def wp_getP)

lemma returns_write_mem [wp_simps]:
  "returns (write_mem a bs) Q w = Q () (w\<lparr>mem := store_bytes (mem w) a bs\<rparr>)"
  by (simp add: write_mem_def returns_modifyP)

lemma returns_read_mem [wp_simps]: "returns (read_mem a n) Q w = Q (load_bytes (mem w) a n) w"
  by (simp add: read_mem_def returns_getP)

lemma total_calls:
  "total (ext_call f ev)" "total (emit e)" "total (write_mem a bs)" "total (read_mem a n)"
  by (simp_all add: total_def ext_call_def emit_def write_mem_def read_mem_def modifyP_def getP_def
      split: prod.split)

end
