(* ===== verification/Ledger.thy ===== *)
theory Ledger
  imports Platform
begin

text \<open>
  A trace read as a ledger of resources: address infos, endpoints, memory regions and heap blocks.
  The relation \<open>trades P m G\<close> says what a program does to the ledger; it has one rule per program
  construct (collection \<open>trades_intros\<close>) and a frame rule, so that the ownership of a C function
  is proved along its text.
\<close>

named_theorems trades_intros "ownership rules, one per program construct"

section \<open>The ledger of resources\<close>

datatype resource = R_addrinfo addrinfo | R_ep cm_id | R_mr ibv_mr | R_heap u64

definition heap_block :: "u64 \<Rightarrow> resource multiset" where
  "heap_block p = (if p = 0 then {#} else {#R_heap p#})"

definition region :: "ibv_mr option \<Rightarrow> resource multiset" where
  "region mr = (case mr of None \<Rightarrow> {#} | Some m \<Rightarrow> {#R_mr m#})"

text \<open>
  What a call that succeeded hands to the program, and what a call takes back.  Freeing the null
  pointer takes nothing back.
\<close>

fun acquires :: "event \<Rightarrow> resource multiset" where
  "acquires (Ev_getaddrinfo s p h rv res) = (if rv = 0 then {#R_addrinfo res#} else {#})"
| "acquires (Ev_create_ep res a rv i) = (if rv = 0 then {#R_ep i#} else {#})"
| "acquires (Ev_get_request l rv i) = (if rv = 0 then {#R_ep i#} else {#})"
| "acquires (Ev_reg k i a n mr) = region mr"
| "acquires (Ev_malloc n p) = heap_block p"
| "acquires (Ev_calloc k n p) = heap_block p"
| "acquires (Ev_memalign a n rv p) = (if rv = 0 then heap_block p else {#})"
| "acquires _ = {#}"

fun releases :: "event \<Rightarrow> resource multiset" where
  "releases (Ev_freeaddrinfo res) = {#R_addrinfo res#}"
| "releases (Ev_destroy_ep i) = {#R_ep i#}"
| "releases (Ev_dereg mr rv) = region mr"
| "releases (Ev_free p) = heap_block p"
| "releases _ = {#}"

text \<open>
  The balance after a trace, starting from \<open>L\<close>; \<open>None\<close> as soon as a call gives back something
  the program does not hold (a double free, a destroyed endpoint destroyed again).
\<close>

fun own :: "resource multiset \<Rightarrow> event list \<Rightarrow> resource multiset option" where
  "own L [] = Some L"
| "own L (e # es) =
     (if releases e \<subseteq># L then own (L - releases e + acquires e) es else None)"

definition owns :: "resource multiset \<Rightarrow> 'e world \<Rightarrow> bool" where
  "owns L w \<longleftrightarrow> own {#} (trace w) = Some L"

lemma own_append:
  "own L (es @ fs) = (case own L es of None \<Rightarrow> None | Some L' \<Rightarrow> own L' fs)"
  by (induction L es rule: own.induct) auto

lemma owns_call:
  "owns L w \<Longrightarrow> releases e \<subseteq># L \<Longrightarrow>
   owns (L - releases e + acquires e) (w\<lparr>env := x, mem := m, trace := trace w @ [e]\<rparr>)"
  by (simp add: owns_def own_append)

lemma owns_mem [simp]: "owns L (w\<lparr>mem := m\<rparr>) = owns L w"
  by (simp add: owns_def)

lemma owns_unique: "owns L w \<Longrightarrow> owns L' w \<Longrightarrow> L = L'"
  by (simp add: owns_def)

text \<open>
  A program that holds \<open>P\<close> and returns \<open>a\<close> holds \<open>G a\<close> instead; everything else it holds is
  untouched, and it never gives back what it does not hold.
\<close>

definition trades ::
  "resource multiset \<Rightarrow> ('e world, 'a) prog \<Rightarrow> ('a \<Rightarrow> resource multiset) \<Rightarrow> bool" where
  "trades P m G \<longleftrightarrow> (\<forall>w L. owns (L + P) w \<longrightarrow> wp m (\<lambda>a. owns (L + G a)) (\<lambda>_ _. True) w)"

lemma tradesD:
  "trades P m G \<Longrightarrow> owns (L + P) w \<Longrightarrow> m w = Some (Ret a, w') \<Longrightarrow> owns (L + G a) w'"
  by (auto simp: trades_def dest: wpD)

lemma trades_ret [trades_intros]: "P = G a \<Longrightarrow> trades P (ret a) G"
  by (simp add: trades_def wp_ret)

lemma trades_halt [trades_intros]: "trades P (halt s) G"
  by (simp add: trades_def wp_halt)

lemma trades_bindP:
  assumes m: "trades P m H" and f: "\<And>a. trades (H a) (f a) G"
  shows "trades P (bindP m f) G"
  unfolding trades_def
proof (intro allI impI)
  fix w :: "'a world" and L
  assume "owns (L + P) w"
  with m have "wp m (\<lambda>a. owns (L + H a)) (\<lambda>_ _. True) w" by (simp add: trades_def)
  then have "wp m (\<lambda>a. wp (f a) (\<lambda>b. owns (L + G b)) (\<lambda>_ _. True)) (\<lambda>_ _. True) w"
    by (rule wp_mono) (use f in \<open>auto simp: trades_def\<close>)
  then show "wp (bindP m f) (\<lambda>b. owns (L + G b)) (\<lambda>_ _. True) w" by (simp add: wp_bindP)
qed

lemma trades_thenP: "trades P m H \<Longrightarrow> (\<And>a. trades (H a) n G) \<Longrightarrow> trades P (thenP m n) G"
  unfolding thenP_def by (rule trades_bindP)

lemma trades_if [trades_intros]:
  "(b \<Longrightarrow> trades P m G) \<Longrightarrow> (\<not> b \<Longrightarrow> trades P n G) \<Longrightarrow> trades P (if b then m else n) G"
  by simp

lemma trades_whenP [trades_intros]:
  "(b \<Longrightarrow> trades P m G) \<Longrightarrow> (\<not> b \<Longrightarrow> P = G ()) \<Longrightarrow> trades P (whenP b m) G"
  by (simp add: whenP_def trades_ret)

lemma trades_case_option [trades_intros]:
  "(x = None \<Longrightarrow> trades P m G) \<Longrightarrow> (\<And>a. x = Some a \<Longrightarrow> trades P (n a) G) \<Longrightarrow>
   trades P (case x of None \<Rightarrow> m | Some a \<Rightarrow> n a) G"
  by (simp split: option.split)

lemma trades_case_prod [trades_intros]:
  "(\<And>a b. x = (a, b) \<Longrightarrow> trades P (n a b) G) \<Longrightarrow> trades P (case x of (a, b) \<Rightarrow> n a b) G"
  by (simp split: prod.split)

lemma trades_split:
  "(\<And>a b. trades (H a b) (n a b) G) \<Longrightarrow>
   trades (case x of (a, b) \<Rightarrow> H a b) (case x of (a, b) \<Rightarrow> n a b) G"
  by (cases x) simp

lemma trades_frame:
  assumes "trades P m G"
  shows "trades (P + F) m (\<lambda>a. G a + F)"
  unfolding trades_def
proof (intro allI impI)
  fix w :: "'a world" and L
  assume "owns (L + (P + F)) w"
  then have "owns ((L + F) + P) w" by (simp add: ac_simps)
  with assms have "wp m (\<lambda>a. owns ((L + F) + G a)) (\<lambda>_ _. True) w"
    unfolding trades_def by blast
  then show "wp m (\<lambda>a. owns (L + (G a + F))) (\<lambda>_ _. True) w" by (simp add: ac_simps)
qed

lemma trades_conseq: "trades P m H \<Longrightarrow> (\<And>a. H a = G a) \<Longrightarrow> trades P m G"
  by (simp add: trades_def)

lemma trades_ext_call:
  fixes f :: "('e, 'r) ext"
  assumes rel: "\<And>r. releases (ev r) \<subseteq># P"
  shows "trades P (ext_call f ev) (\<lambda>r. P - releases (ev r) + acquires (ev r))"
proof -
  have "owns (L + (P - releases (ev r) + acquires (ev r)))
          (w\<lparr>env := x, mem := m, trace := trace w @ [ev r]\<rparr>)"
    if "owns (L + P) w" for L r m and x :: 'e and w :: "'e world"
  proof -
    have "releases (ev r) \<subseteq># L + P"
      using rel [of r] by (simp add: subset_mset.add_increasing)
    moreover have "L + P - releases (ev r) = L + (P - releases (ev r))"
      using rel [of r] by (rule subset_mset.diff_add_assoc)
    ultimately show ?thesis
      using owns_call [OF that, where e = "ev r" and x = x and m = m] by (simp add: add.assoc)
  qed
  then show ?thesis by (simp add: trades_def wp_ext_call split: prod.split)
qed

text \<open>A neutral call neither acquires nor releases; programs made of such calls change nothing.\<close>

lemma trades_neutral_call [trades_intros]:
  "(\<And>r. releases (ev r) = {#}) \<Longrightarrow> (\<And>r. acquires (ev r) = {#}) \<Longrightarrow> (\<And>r. P = G r) \<Longrightarrow>
   trades P (ext_call f ev) G"
  using trades_ext_call [of ev P f] by (auto intro: trades_conseq)

lemma trades_emit [trades_intros]:
  "releases e = {#} \<Longrightarrow> acquires e = {#} \<Longrightarrow> P = G () \<Longrightarrow> trades P (emit e) G"
  by (auto simp: trades_def wp_emit owns_def own_append)

lemma trades_write_mem [trades_intros]: "P = G () \<Longrightarrow> trades P (write_mem a bs) G"
  by (simp add: trades_def wp_write_mem)

lemma trades_read_mem [trades_intros]: "(\<And>bs. P = G bs) \<Longrightarrow> trades P (read_mem a n) G"
  by (simp add: trades_def wp_read_mem)

lemma trades_getP [trades_intros]: "(\<And>a. P = G a) \<Longrightarrow> trades P (getP f) G"
  by (simp add: trades_def wp_getP)

lemma trades_forP:
  assumes "\<And>i s. i \<in> set is \<Longrightarrow> trades P (body i s) (\<lambda>_. P)"
  shows "trades P (forP is body s) (\<lambda>_. P)"
  using assms
proof (induction "is" arbitrary: s)
  case Nil
  then show ?case by (simp add: trades_ret)
next
  case (Cons i "is")
  show ?case
    unfolding forP.simps by (rule trades_bindP [where H = "\<lambda>_. P"]) (use Cons in auto)
qed

lemma trades_loopP:
  assumes "\<And>s. trades P (body s) (\<lambda>x. case x of Inl a \<Rightarrow> G a | Inr _ \<Rightarrow> P)"
  shows "trades P (loopP body s) G"
  unfolding trades_def
proof (intro allI impI)
  fix w :: "'b world" and L
  assume "owns (L + P) w"
  then show "wp (loopP body s) (\<lambda>a. owns (L + G a)) (\<lambda>_ _. True) w"
  proof (rule wp_loopP [where I = "\<lambda>_. owns (L + P)", rotated])
    fix s and w :: "'b world"
    assume "owns (L + P) w"
    with assms [of s] have "wp (body s)
        (\<lambda>x. owns (L + (case x of Inl a \<Rightarrow> G a | Inr _ \<Rightarrow> P))) (\<lambda>_ _. True) w"
      by (simp add: trades_def)
    then show "wp (body s) (\<lambda>x w'. case x of Inl a \<Rightarrow> owns (L + G a) w'
        | Inr s' \<Rightarrow> owns (L + P) w') (\<lambda>_ _. True) w"
      by (rule wp_mono) (auto split: sum.splits)
  qed
qed

lemma trades_retry_zero: "trades P m (\<lambda>_. P) \<Longrightarrow> trades P (retry_zero m) (\<lambda>_. P)"
  unfolding retry_zero_def
  by (rule trades_loopP, erule trades_bindP, rule trades_ret) (simp split: if_split)

lemma trades_call_malloc: "trades P (call_malloc sys n) (\<lambda>p. P + heap_block p)"
  unfolding call_malloc_def
  by (rule trades_conseq [OF trades_ext_call]) simp_all

lemma trades_call_calloc: "trades P (call_calloc sys k n) (\<lambda>p. P + heap_block p)"
  unfolding call_calloc_def
  by (rule trades_conseq [OF trades_ext_call]) simp_all

lemma trades_call_memalign:
  "trades P (call_memalign sys a n) (\<lambda>(rv, p). P + (if rv = 0 then heap_block p else {#}))"
  unfolding call_memalign_def
  by (rule trades_conseq [OF trades_ext_call]) auto

lemma trades_call_free:
  "heap_block p \<subseteq># P \<Longrightarrow> trades P (call_free sys p) (\<lambda>_. P - heap_block p)"
  unfolding call_free_def
  by (rule trades_conseq [OF trades_ext_call]) simp_all

lemma heap_block_0 [simp]: "heap_block 0 = {#}"
  by (simp add: heap_block_def)

lemma region_None [simp]: "region None = {#}"
  by (simp add: region_def)

section \<open>Traces only grow\<close>

text \<open>No program removes or changes what the trace already holds.\<close>

definition grows :: "('e world, 'a) prog \<Rightarrow> bool" where
  "grows m \<longleftrightarrow> (\<forall>w r w'. m w = Some (r, w') \<longrightarrow> (\<exists>es. trace w' = trace w @ es))"

lemma growsD: "grows m \<Longrightarrow> m w = Some (r, w') \<Longrightarrow> \<exists>es. trace w' = trace w @ es"
  by (simp add: grows_def)

lemma growsI: "(\<And>w r w'. m w = Some (r, w') \<Longrightarrow> \<exists>es. trace w' = trace w @ es) \<Longrightarrow> grows m"
  by (simp add: grows_def)

lemma grows_ret: "grows (ret a)"
  by (simp add: grows_def ret_def)

lemma grows_halt: "grows (halt s)"
  by (simp add: grows_def halt_def)

lemma grows_bindP:
  assumes m: "grows m" and f: "\<And>a. grows (f a)"
  shows "grows (bindP m f)"
proof (rule growsI)
  fix w r w'
  assume eq: "bindP m f w = Some (r, w')"
  show "\<exists>es. trace w' = trace w @ es"
  proof (cases "m w")
    case None
    with eq show ?thesis by (simp add: bindP_def)
  next
    case (Some p)
    obtain r1 w1 where p: "p = (r1, w1)" by (cases p)
    obtain es where es: "trace w1 = trace w @ es" using growsD [OF m] Some p by blast
    show ?thesis
    proof (cases r1)
      case (Ret a)
      with eq Some p have "f a w1 = Some (r, w')" by (simp add: bindP_def)
      then show ?thesis using growsD [OF f] es by fastforce
    next
      case (Stop s)
      with eq Some p es show ?thesis by (simp add: bindP_def)
    qed
  qed
qed

lemma grows_thenP: "grows m \<Longrightarrow> grows n \<Longrightarrow> grows (thenP m n)"
  unfolding thenP_def by (rule grows_bindP)

lemma grows_if: "(b \<Longrightarrow> grows m) \<Longrightarrow> (\<not> b \<Longrightarrow> grows n) \<Longrightarrow> grows (if b then m else n)"
  by simp

lemma grows_whenP: "grows m \<Longrightarrow> grows (whenP b m)"
  by (simp add: whenP_def grows_ret)

lemma grows_case_option:
  "grows m \<Longrightarrow> (\<And>a. grows (n a)) \<Longrightarrow> grows (case x of None \<Rightarrow> m | Some a \<Rightarrow> n a)"
  by (simp split: option.split)

lemma grows_case_prod: "(\<And>a b. grows (n a b)) \<Longrightarrow> grows (case x of (a, b) \<Rightarrow> n a b)"
  by (simp split: prod.split)

lemma grows_ext_call: "grows (ext_call f ev)"
  by (auto simp: grows_def ext_call_def split: prod.splits)

lemma grows_emit: "grows (emit e)"
  by (auto simp: grows_def emit_def modifyP_def)

lemma grows_mem: "grows (write_mem a bs)" "grows (read_mem a n)" "grows (getP f)"
  by (auto simp: grows_def write_mem_def read_mem_def modifyP_def getP_def)

lemma grows_forP: "(\<And>i s. grows (body i s)) \<Longrightarrow> grows (forP is body s)"
proof (induction "is" arbitrary: s)
  case Nil
  show ?case by (simp add: grows_ret)
next
  case (Cons i "is")
  then show ?case by (simp add: grows_bindP)
qed

lemma grows_iff_wp:
  "grows m \<longleftrightarrow> (\<forall>w. wp m (\<lambda>_ w'. \<exists>es. trace w' = trace w @ es) (\<lambda>_ w'. \<exists>es. trace w' = trace w @ es) w)"
proof
  assume "grows m"
  then show "\<forall>w. wp m (\<lambda>_ w'. \<exists>es. trace w' = trace w @ es) (\<lambda>_ w'. \<exists>es. trace w' = trace w @ es) w"
    by (auto simp: wp_def split: option.split res.split dest: growsD)
next
  assume wp: "\<forall>w. wp m (\<lambda>_ w'. \<exists>es. trace w' = trace w @ es) (\<lambda>_ w'. \<exists>es. trace w' = trace w @ es) w"
  show "grows m"
  proof (rule growsI)
    fix w r w' assume "m w = Some (r, w')"
    with wp [rule_format, of w] show "\<exists>es. trace w' = trace w @ es"
      by (cases r) (simp_all add: wp_def)
  qed
qed

lemma grows_loopP:
  fixes body :: "'s \<Rightarrow> ('e world, 'r + 's) prog"
  assumes "\<And>s. grows (body s)"
  shows "grows (loopP body s)"
  unfolding grows_iff_wp
proof
  fix w :: "'e world"
  show "wp (loopP body s) (\<lambda>_ w'. \<exists>es. trace w' = trace w @ es) (\<lambda>_ w'. \<exists>es. trace w' = trace w @ es) w"
  proof (rule wp_loopP [where I = "\<lambda>_ w'. \<exists>es. trace w' = trace w @ es"])
    fix s and w1 :: "'e world"
    assume "\<exists>es. trace w1 = trace w @ es"
    then obtain es where es: "trace w1 = trace w @ es" ..
    have "wp (body s) (\<lambda>_ w'. \<exists>es. trace w' = trace w1 @ es) (\<lambda>_ w'. \<exists>es. trace w' = trace w1 @ es) w1"
      using assms by (simp add: grows_iff_wp)
    then show "wp (body s) (\<lambda>x w'. case x of Inl a \<Rightarrow> \<exists>es. trace w' = trace w @ es
        | Inr s' \<Rightarrow> \<exists>es. trace w' = trace w @ es) (\<lambda>_ w'. \<exists>es. trace w' = trace w @ es) w1"
      by (rule wp_mono) (auto simp: es split: sum.split)
  qed simp
qed

lemma grows_retry_zero: "grows m \<Longrightarrow> grows (retry_zero m)"
  unfolding retry_zero_def by (intro grows_loopP grows_bindP grows_ret)

lemmas grows_intros = grows_ret grows_halt grows_bindP grows_thenP grows_if grows_whenP
  grows_case_option grows_case_prod grows_ext_call grows_emit grows_mem grows_forP grows_loopP
  grows_retry_zero

lemma grows_wp: "grows m \<Longrightarrow> wp m Q E w \<Longrightarrow>
   wp m (\<lambda>a w'. Q a w' \<and> (\<exists>es. trace w' = trace w @ es)) E w"
  by (auto simp: wp_def split: option.splits res.splits dest: growsD)

end
