(* ===== verification/Dccs_Log.thy ===== *)
theory Dccs_Log
  imports Ledger
begin

text \<open>
  The logging functions of \<open>dccs_utils.h\<close>.  A message is one entry of the trace: the stream it
  goes to, the coloured header and the format handed to \<open>vfprintf\<close> or \<open>perror\<close>.  The values of
  the variadic arguments are part of the entry for the messages that report results (the functions
  ending in \<open>_args\<close>); the others record their format only.  The text the library formats from
  them is not modelled.
\<close>

section \<open>Levels and colours\<close>

definition LOG_VERBOSE :: int where "LOG_VERBOSE = 0"

definition LOG_INFO :: int where "LOG_INFO = 1"

definition LOG_DEBUG :: int where "LOG_DEBUG = 2"

definition LOG_WARNING :: int where "LOG_WARNING = 3"

definition LOG_ERROR :: int where "LOG_ERROR = 4"

definition LOG_PERROR :: int where "LOG_PERROR = 5"

lemmas log_level_defs = LOG_VERBOSE_def LOG_INFO_def LOG_DEBUG_def LOG_WARNING_def LOG_ERROR_def
  LOG_PERROR_def

definition colour :: "string \<Rightarrow> string" where
  "colour code = CHR 0x1B # ''['' @ code @ ''m''"

definition KNRM :: string where "KNRM = colour ''0''"

definition KRED :: string where "KRED = colour ''31''"

definition KGRN :: string where "KGRN = colour ''32''"

definition KYEL :: string where "KYEL = colour ''33''"

definition KBLU :: string where "KBLU = colour ''34''"

definition KMAG :: string where "KMAG = colour ''35''"

definition KCYN :: string where "KCYN = colour ''36''"

fun decimal :: "nat \<Rightarrow> string" where
  "decimal n = (if n < 10 then [char_of (48 + n)]
                else decimal (n div 10) @ [char_of (48 + n mod 10)])"

declare decimal.simps [simp del]

text \<open>What \<open>printf\<close> writes for \<open>%d\<close>.\<close>

definition decimal_int :: "int \<Rightarrow> string" where
  "decimal_int i = (if i < 0 then CHR ''-'' # decimal (nat (- i)) else decimal (nat i))"

text \<open>The text \<open>usec\<close> with a micro sign, in UTF-8.\<close>

definition micro_sec :: string where
  "micro_sec = CHR 0xC2 # CHR 0xB5 # ''sec''"

section \<open>Writing a message\<close>

text \<open>The setting \<open>DEBUG\<close> of \<open>dccs_config.h\<close> is 1, so debug messages are compiled in.\<close>

definition vlog_level :: "int \<Rightarrow> string \<Rightarrow> log_arg list \<Rightarrow> ('e world, unit) prog" where
  "vlog_level level fmt args =
    (if level = LOG_VERBOSE then
       emit (Ev_log Stderr (''['' @ KBLU @ ''verbose'' @ KNRM @ ''] '') (Vfprintf fmt args))
     else if level = LOG_INFO then
       emit (Ev_log Stdout (''['' @ KCYN @ ''info'' @ KNRM @ '']  '') (Vfprintf fmt args))
     else if level = LOG_DEBUG then
       emit (Ev_log Stderr (''['' @ KMAG @ ''debug'' @ KNRM @ ''] '') (Vfprintf fmt args))
     else if level = LOG_WARNING then
       emit (Ev_log Stderr (''['' @ KYEL @ ''warn'' @ KNRM @ '']  '') (Vfprintf fmt args))
     else if level = LOG_ERROR then
       emit (Ev_log Stderr (''['' @ KRED @ ''error'' @ KNRM @ ''] '') (Vfprintf fmt args))
     else if level = LOG_PERROR then
       emit (Ev_log Stderr (''['' @ KRED @ ''error'' @ KNRM @ ''] '') (Perror fmt))
     else
       emit (Ev_log Stderr (''['' @ KGRN @ decimal_int level @ KNRM @ '']    '') (Vfprintf fmt args)))"

definition llog :: "int \<Rightarrow> string \<Rightarrow> ('e world, unit) prog" where
  "llog level fmt = vlog_level level fmt []"

definition log_verbose :: "string \<Rightarrow> ('e world, unit) prog" where
  "log_verbose fmt = vlog_level LOG_VERBOSE fmt []"

definition log_info :: "string \<Rightarrow> ('e world, unit) prog" where
  "log_info fmt = vlog_level LOG_INFO fmt []"

definition log_debug :: "string \<Rightarrow> ('e world, unit) prog" where
  "log_debug fmt = vlog_level LOG_DEBUG fmt []"

definition log_warning :: "string \<Rightarrow> ('e world, unit) prog" where
  "log_warning fmt = vlog_level LOG_WARNING fmt []"

definition log_error :: "string \<Rightarrow> ('e world, unit) prog" where
  "log_error fmt = vlog_level LOG_ERROR fmt []"

definition log_perror :: "string \<Rightarrow> ('e world, unit) prog" where
  "log_perror s = vlog_level LOG_PERROR s []"

definition log_verbose_args :: "string \<Rightarrow> log_arg list \<Rightarrow> ('e world, unit) prog" where
  "log_verbose_args fmt args = vlog_level LOG_VERBOSE fmt args"

definition log_info_args :: "string \<Rightarrow> log_arg list \<Rightarrow> ('e world, unit) prog" where
  "log_info_args fmt args = vlog_level LOG_INFO fmt args"

lemmas log_defs = llog_def log_verbose_def log_info_def log_debug_def log_warning_def
  log_error_def log_perror_def

section \<open>A message and nothing else\<close>

definition is_log :: "event \<Rightarrow> bool" where
  "is_log e \<longleftrightarrow> (\<exists>st h b. e = Ev_log st h b)"

lemma is_log_simps [simp]:
  "is_log (Ev_log st h b)"
  "releases (Ev_log st h b) = {#}"
  "acquires (Ev_log st h b) = {#}"
  by (simp_all add: is_log_def)

definition log_stream :: "int \<Rightarrow> stream" where
  "log_stream level = (if level = LOG_INFO then Stdout else Stderr)"

definition log_header :: "int \<Rightarrow> string" where
  "log_header level =
     (if level = LOG_VERBOSE then ''['' @ KBLU @ ''verbose'' @ KNRM @ ''] ''
      else if level = LOG_INFO then ''['' @ KCYN @ ''info'' @ KNRM @ '']  ''
      else if level = LOG_DEBUG then ''['' @ KMAG @ ''debug'' @ KNRM @ ''] ''
      else if level = LOG_WARNING then ''['' @ KYEL @ ''warn'' @ KNRM @ '']  ''
      else if level = LOG_ERROR \<or> level = LOG_PERROR then ''['' @ KRED @ ''error'' @ KNRM @ ''] ''
      else ''['' @ KGRN @ decimal_int level @ KNRM @ '']    '')"

definition log_entry_args :: "int \<Rightarrow> string \<Rightarrow> log_arg list \<Rightarrow> event" where
  "log_entry_args level fmt args = Ev_log (log_stream level) (log_header level)
     (if level = LOG_PERROR then Perror fmt else Vfprintf fmt args)"

definition log_entry :: "int \<Rightarrow> string \<Rightarrow> event" where
  "log_entry level fmt = Ev_log (log_stream level) (log_header level)
     (if level = LOG_PERROR then Perror fmt else Vfprintf fmt [])"

lemma vlog_level_entry_args: "vlog_level level fmt args = emit (log_entry_args level fmt args)"
  by (simp add: vlog_level_def log_entry_args_def log_stream_def log_header_def log_level_defs)

lemma vlog_level_entry: "vlog_level level fmt [] = emit (log_entry level fmt)"
  by (simp add: vlog_level_entry_args log_entry_args_def log_entry_def)

lemma log_entry_neutral [simp]:
  "is_log (log_entry level fmt)" "releases (log_entry level fmt) = {#}"
  "acquires (log_entry level fmt) = {#}"
  "is_log (log_entry_args level fmt args)" "releases (log_entry_args level fmt args) = {#}"
  "acquires (log_entry_args level fmt args) = {#}"
  by (simp_all add: log_entry_def log_entry_args_def)

lemma wp_vlog_level:
  "wp (vlog_level level fmt []) Q E w = Q () (w\<lparr>trace := trace w @ [log_entry level fmt]\<rparr>)"
  by (simp add: vlog_level_entry wp_emit)

lemma returns_vlog_level:
  "returns (vlog_level level fmt []) Q w = Q () (w\<lparr>trace := trace w @ [log_entry level fmt]\<rparr>)"
  by (simp add: vlog_level_entry returns_emit)

lemma log_args_emit:
  "log_verbose_args fmt args = emit (log_entry_args LOG_VERBOSE fmt args)"
  "log_info_args fmt args = emit (log_entry_args LOG_INFO fmt args)"
  by (simp_all add: log_verbose_args_def log_info_args_def vlog_level_entry_args)

lemma wp_log_args [wp_simps]:
  "wp (log_verbose_args fmt args) Q E w = Q () (w\<lparr>trace := trace w @ [log_entry_args LOG_VERBOSE fmt args]\<rparr>)"
  "wp (log_info_args fmt args) Q E w = Q () (w\<lparr>trace := trace w @ [log_entry_args LOG_INFO fmt args]\<rparr>)"
  "returns (log_verbose_args fmt args) R w = R () (w\<lparr>trace := trace w @ [log_entry_args LOG_VERBOSE fmt args]\<rparr>)"
  "returns (log_info_args fmt args) R w = R () (w\<lparr>trace := trace w @ [log_entry_args LOG_INFO fmt args]\<rparr>)"
  by (simp_all add: log_args_emit wp_emit returns_emit)

lemma trades_vlog_level: "trades P (vlog_level level fmt args) (\<lambda>_. P)"
  unfolding vlog_level_entry_args by (rule trades_emit) simp_all

lemma trades_log:
  "trades P (llog level fmt) (\<lambda>_. P)" "trades P (log_verbose fmt) (\<lambda>_. P)"
  "trades P (log_info fmt) (\<lambda>_. P)" "trades P (log_debug fmt) (\<lambda>_. P)"
  "trades P (log_warning fmt) (\<lambda>_. P)" "trades P (log_error fmt) (\<lambda>_. P)"
  "trades P (log_perror fmt) (\<lambda>_. P)" "trades P (log_verbose_args fmt args) (\<lambda>_. P)"
  "trades P (log_info_args fmt args) (\<lambda>_. P)"
  unfolding log_defs log_verbose_args_def log_info_args_def by (rule trades_vlog_level)+

lemma wp_log [wp_simps]:
  "wp (llog level fmt) Q E w = Q () (w\<lparr>trace := trace w @ [log_entry level fmt]\<rparr>)"
  "wp (log_verbose fmt) Q E w = Q () (w\<lparr>trace := trace w @ [log_entry LOG_VERBOSE fmt]\<rparr>)"
  "wp (log_info fmt) Q E w = Q () (w\<lparr>trace := trace w @ [log_entry LOG_INFO fmt]\<rparr>)"
  "wp (log_debug fmt) Q E w = Q () (w\<lparr>trace := trace w @ [log_entry LOG_DEBUG fmt]\<rparr>)"
  "wp (log_warning fmt) Q E w = Q () (w\<lparr>trace := trace w @ [log_entry LOG_WARNING fmt]\<rparr>)"
  "wp (log_error fmt) Q E w = Q () (w\<lparr>trace := trace w @ [log_entry LOG_ERROR fmt]\<rparr>)"
  "wp (log_perror fmt) Q E w = Q () (w\<lparr>trace := trace w @ [log_entry LOG_PERROR fmt]\<rparr>)"
  by (simp_all add: log_defs wp_vlog_level)

lemma returns_log [wp_simps]:
  "returns (llog level fmt) Q w = Q () (w\<lparr>trace := trace w @ [log_entry level fmt]\<rparr>)"
  "returns (log_verbose fmt) Q w = Q () (w\<lparr>trace := trace w @ [log_entry LOG_VERBOSE fmt]\<rparr>)"
  "returns (log_info fmt) Q w = Q () (w\<lparr>trace := trace w @ [log_entry LOG_INFO fmt]\<rparr>)"
  "returns (log_debug fmt) Q w = Q () (w\<lparr>trace := trace w @ [log_entry LOG_DEBUG fmt]\<rparr>)"
  "returns (log_warning fmt) Q w = Q () (w\<lparr>trace := trace w @ [log_entry LOG_WARNING fmt]\<rparr>)"
  "returns (log_error fmt) Q w = Q () (w\<lparr>trace := trace w @ [log_entry LOG_ERROR fmt]\<rparr>)"
  "returns (log_perror fmt) Q w = Q () (w\<lparr>trace := trace w @ [log_entry LOG_PERROR fmt]\<rparr>)"
  by (simp_all add: log_defs returns_vlog_level)

lemma grows_log:
  "grows (llog level fmt)" "grows (log_verbose fmt)" "grows (log_info fmt)" "grows (log_debug fmt)"
  "grows (log_warning fmt)" "grows (log_error fmt)" "grows (log_perror fmt)"
  "grows (log_verbose_args fmt args)" "grows (log_info_args fmt args)"
  unfolding log_defs vlog_level_entry log_args_emit by (rule grows_emit)+

lemma total_log:
  "total (llog level fmt)" "total (log_verbose fmt)" "total (log_info fmt)" "total (log_debug fmt)"
  "total (log_warning fmt)" "total (log_error fmt)" "total (log_perror fmt)"
  "total (log_verbose_args fmt args)" "total (log_info_args fmt args)"
  unfolding log_defs vlog_level_entry log_args_emit by (rule total_calls)+

section \<open>Symbolic execution\<close>

text \<open>
  Introduction rules that run a straight-line program for replies of the environment nothing is
  known about: one goal per path remains, about the trace of that path.
\<close>

lemma wp_ext_callI:
  "(\<And>r x m. Q r (w\<lparr>env := x, mem := m, trace := trace w @ [ev r]\<rparr>)) \<Longrightarrow> wp (ext_call f ev) Q E w"
  by (simp add: wp_ext_call split: prod.split)

lemma wp_logI:
  "Q () (w\<lparr>trace := trace w @ [log_entry LOG_VERBOSE fmt]\<rparr>) \<Longrightarrow> wp (log_verbose fmt) Q E w"
  "Q () (w\<lparr>trace := trace w @ [log_entry LOG_INFO fmt]\<rparr>) \<Longrightarrow> wp (log_info fmt) Q E w"
  "Q () (w\<lparr>trace := trace w @ [log_entry LOG_DEBUG fmt]\<rparr>) \<Longrightarrow> wp (log_debug fmt) Q E w"
  "Q () (w\<lparr>trace := trace w @ [log_entry LOG_WARNING fmt]\<rparr>) \<Longrightarrow> wp (log_warning fmt) Q E w"
  "Q () (w\<lparr>trace := trace w @ [log_entry LOG_ERROR fmt]\<rparr>) \<Longrightarrow> wp (log_error fmt) Q E w"
  "Q () (w\<lparr>trace := trace w @ [log_entry LOG_PERROR fmt]\<rparr>) \<Longrightarrow> wp (log_perror fmt) Q E w"
  by (simp_all add: wp_log)

lemma wp_ifI:
  "(b \<Longrightarrow> wp m Q E w) \<Longrightarrow> (\<not> b \<Longrightarrow> wp n Q E w) \<Longrightarrow> wp (if b then m else n) Q E w"
  by simp

lemma wp_whenPI: "(b \<Longrightarrow> wp m Q E w) \<Longrightarrow> (\<not> b \<Longrightarrow> Q () w) \<Longrightarrow> wp (whenP b m) Q E w"
  by (simp add: wp_whenP)

lemma wp_prodI:
  "(\<And>a b. x = (a, b) \<Longrightarrow> wp (n a b) Q E w) \<Longrightarrow> wp (case x of (a, b) \<Rightarrow> n a b) Q E w"
  by (cases x) simp

lemmas wp_intros = wp_ret [THEN iffD2] wp_bindP [THEN iffD2] wp_thenP [THEN iffD2] wp_ext_callI
  wp_logI wp_ifI wp_whenPI wp_prodI

end
