(* ===== verification/Testbed.thy ===== *)
theory Testbed
  imports Ledger
begin

text \<open>
  A concrete environment, on which the properties that assume something of the libraries are
  exercised.  Handles and heap blocks are numbered, calls whose name is listed in \<open>t_fail\<close> fail,
  the replies of \<open>ibv_poll_cq\<close> follow a script (one successful completion once it is used up), and
  a receive completion delivers the next message of the inbox to the oldest posted buffer.
\<close>

record test_env =
  t_next :: nat
  t_fail :: "string list"
  t_polls :: "int list"
  t_recvs :: "u64 list"
  t_inbox :: "u8 list list"
  t_clock :: nat

definition env0 :: test_env where
  "env0 = \<lparr>t_next = 1, t_fail = [], t_polls = [], t_recvs = [], t_inbox = [], t_clock = 0\<rparr>"

definition world0 :: "test_env world" where
  "world0 = \<lparr>env = env0, mem = (\<lambda>_. 0), trace = []\<rparr>"

definition test_int :: "string \<Rightarrow> (test_env, int) ext" where
  "test_int name e m = (if name \<in> set (t_fail e) then -1 else 0, e, m)"

definition test_handle :: "string \<Rightarrow> (test_env, int \<times> nat) ext" where
  "test_handle name e m =
     (if name \<in> set (t_fail e) then ((-1, 0), e, m)
      else ((0, t_next e), e\<lparr>t_next := Suc (t_next e)\<rparr>, m))"

definition test_unit :: "(test_env, unit) ext" where
  "test_unit e m = ((), e, m)"

definition test_reg :: "(test_env, ibv_mr option) ext" where
  "test_reg e m = (if ''reg'' \<in> set (t_fail e) then (None, e, m)
     else (Some \<lparr>mr_handle = t_next e, mr_rkey = of_nat (100 + t_next e)\<rparr>,
           e\<lparr>t_next := Suc (t_next e)\<rparr>, m))"

definition test_alloc :: "(test_env, u64) ext" where
  "test_alloc e m = (if ''malloc'' \<in> set (t_fail e) then (0, e, m)
     else (4096 * of_nat (t_next e), e\<lparr>t_next := Suc (t_next e)\<rparr>, m))"

definition test_memalign :: "(test_env, int \<times> u64) ext" where
  "test_memalign e m = (if ''memalign'' \<in> set (t_fail e) then ((12, 0), e, m)
     else ((0, 4096 * of_nat (t_next e)), e\<lparr>t_next := Suc (t_next e)\<rparr>, m))"

definition test_post_recv :: "u64 \<Rightarrow> (test_env, int) ext" where
  "test_post_recv addr e m = (if ''post_recv'' \<in> set (t_fail e) then (-1, e, m)
     else (0, e\<lparr>t_recvs := t_recvs e @ [addr]\<rparr>, m))"

definition test_poll :: "cq \<Rightarrow> int \<Rightarrow> (test_env, int \<times> ibv_wc list) ext" where
  "test_poll q num e m =
     (let rv = (case t_polls e of [] \<Rightarrow> min 1 num | k # _ \<Rightarrow> min k num);
          e1 = e\<lparr>t_polls := tl (t_polls e)\<rparr>;
          wcs = replicate (nat rv) \<lparr>wc_wr_id = 0, wc_status = 0\<rparr>
      in (case (q, t_recvs e, t_inbox e) of
          (Recv_cq _, a # as, msg # msgs) \<Rightarrow>
            if rv = 1 then ((rv, wcs), e1\<lparr>t_recvs := as, t_inbox := msgs\<rparr>, store_bytes m a msg)
            else ((rv, wcs), e1, m)
        | _ \<Rightarrow> ((rv, wcs), e1, m)))"

definition test_clock :: "(test_env, u64 \<times> u64) ext" where
  "test_clock e m = ((0, of_nat (t_clock e)), e\<lparr>t_clock := t_clock e + 10\<rparr>, m)"

definition test_rdma :: "test_env rdma_api" where
  "test_rdma = \<lparr>
     rdma_getaddrinfo = (\<lambda>_ _ _. test_handle ''getaddrinfo''),
     rdma_freeaddrinfo = (\<lambda>_. test_unit),
     rdma_create_ep = (\<lambda>_ _. test_handle ''create_ep''),
     rdma_destroy_ep = (\<lambda>_. test_unit),
     rdma_set_option_tos = (\<lambda>_ _. test_int ''set_option''),
     rdma_connect = (\<lambda>_. test_int ''connect''),
     rdma_listen = (\<lambda>_ _. test_int ''listen''),
     rdma_get_request = (\<lambda>_. test_handle ''get_request''),
     rdma_accept = (\<lambda>_. test_int ''accept''),
     rdma_disconnect = (\<lambda>_. test_int ''disconnect''),
     rdma_reg = (\<lambda>_ _ _ _. test_reg),
     rdma_dereg_mr = (\<lambda>_. test_int ''dereg''),
     rdma_post_send = (\<lambda>_ _ _ _ _. test_int ''post_send''),
     rdma_post_recv = (\<lambda>_ a _ _. test_post_recv a),
     rdma_post_read = (\<lambda>_ _ _ _ _ _ _. test_int ''post_read''),
     rdma_post_write = (\<lambda>_ _ _ _ _ _ _. test_int ''post_write''),
     ibv_poll_cq = test_poll\<rparr>"

definition test_libc :: "test_env libc_api" where
  "test_libc = \<lparr>
     sys_malloc = (\<lambda>_. test_alloc),
     sys_calloc = (\<lambda>_ _. test_alloc),
     sys_memalign = (\<lambda>_ _. test_memalign),
     sys_free = (\<lambda>_. test_unit),
     clock_gettime = test_clock,
     sched_setaffinity = (\<lambda>_. test_int ''setaffinity''),
     sys_time = (\<lambda>e m. (7, e, m)),
     sys_srand = (\<lambda>_. test_unit),
     sys_rand = (\<lambda>e m. (7, e, m)),
     SHA1 = (\<lambda>bs. take 20 (bs @ replicate 20 0)),
     libm_pow = (\<lambda>x _. dmul x x),
     libm_sqrt = (\<lambda>x. x),
     POSIXLY_CORRECT = False\<rparr>"

definition test_mpi :: "test_env mpi_api" where
  "test_mpi = \<lparr>
     MPI_Isend = (\<lambda>_ _ _. test_unit),
     MPI_Irecv = (\<lambda>_ _ _. test_unit),
     MPI_Request_free = (\<lambda>_. test_unit),
     MPI_Testall = (\<lambda>_ e m. (True, e, m)),
     MPI_Barrier = test_unit,
     MPI_Send = (\<lambda>_ _. test_unit),
     MPI_Recv = (\<lambda>_ e m. (case t_inbox e of [] \<Rightarrow> (replicate 20 0, e, m)
                          | b # bs \<Rightarrow> (b, e\<lparr>t_inbox := bs\<rparr>, m))),
     MPI_Wtime = (\<lambda>e m. (double_of_nat (t_clock e), e\<lparr>t_clock := t_clock e + 10\<rparr>, m)),
     MPI_Init = test_unit,
     MPI_Comm_size = (\<lambda>e m. (2, e, m)),
     MPI_Comm_rank = (\<lambda>e m. (0, e, m)),
     MPI_Finalize = test_unit\<rparr>"

definition test_sys :: "endian \<Rightarrow> test_env sys" where
  "test_sys en = \<lparr>
     host_endian = en,
     local_addr = (\<lambda>x. if x = ''rcount'' then 0x100 else if x = ''count'' then 0x200 else 0x300),
     rdma = test_rdma, libc = test_libc, mpi = test_mpi\<rparr>"

lemmas test_defs = env0_def world0_def test_int_def test_handle_def test_unit_def test_reg_def
  test_alloc_def test_memalign_def test_post_recv_def test_poll_def test_clock_def test_rdma_def
  test_libc_def test_mpi_def test_sys_def

definition ok_wc :: ibv_wc where "ok_wc = \<lparr>wc_wr_id = 0, wc_status = 0\<rparr>"

lemma test_select:
  "host_endian (test_sys e) = e" "local_addr (test_sys e) ''rcount'' = 0x100"
  "local_addr (test_sys e) ''count'' = 0x200" "rdma (test_sys e) = test_rdma"
  "libc (test_sys e) = test_libc" "mpi (test_sys e) = test_mpi"
  by (simp_all add: test_sys_def)

lemma test_calls:
  "rdma_reg test_rdma k i a n = test_reg" "rdma_dereg_mr test_rdma mr = test_int ''dereg''"
  "rdma_post_send test_rdma i a n mr fl = test_int ''post_send''"
  "rdma_post_recv test_rdma i a n mr = test_post_recv a"
  "rdma_post_read test_rdma i a n mr fl ra rk = test_int ''post_read''"
  "rdma_post_write test_rdma i a n mr fl ra rk = test_int ''post_write''"
  "sys_malloc test_libc n = test_alloc" "sys_calloc test_libc n s = test_alloc"
  "sys_memalign test_libc al n = test_memalign" "sys_free test_libc p = test_unit"
  "clock_gettime test_libc = test_clock"
  by (simp_all add: test_rdma_def test_libc_def)

lemmas test_run = test_select test_calls env0_def world0_def test_int_def test_handle_def test_unit_def
  test_reg_def test_alloc_def test_memalign_def test_post_recv_def test_clock_def

text \<open>Two rounds of a counted loop.\<close>

lemma upt_2: "[0..<2] = [0, 1]"
  by (simp add: numeral_2_eq_2)

lemma owns_world0: "owns {#} (world0\<lparr>env := e\<rparr>)" "owns {#} world0"
  by (simp_all add: owns_def world0_def)

end
