(* ===== verification/Rdma_Conn.thy ===== *)
theory Rdma_Conn
  imports Dccs_Log Testbed
begin

text \<open>
  Connection setup and teardown of \<open>dccs_rdma.h\<close>.  The out-parameters \<open>struct rdma_cm_id **\<close> are
  results: \<open>dccs_connect\<close> gives back the return value with the new value of \<open>*id\<close>, \<open>dccs_listen\<close>
  with the new values of \<open>*listen_id\<close> and \<open>*id\<close>.  The lemmas give the ledger of each function:
  what it holds on success, that a failed listen gives everything back, and that a failed connect
  does so unless it is the type of service that cannot be set.
\<close>

section \<open>Calls\<close>

definition call_getaddrinfo ::
  "'e sys \<Rightarrow> string option \<Rightarrow> string \<Rightarrow> addr_hints \<Rightarrow> ('e world, int \<times> addrinfo) prog" where
  "call_getaddrinfo sys server port hints =
     ext_call (rdma_getaddrinfo (rdma sys) server port hints)
       (\<lambda>(rv, res). Ev_getaddrinfo server port hints rv res)"

definition call_freeaddrinfo :: "'e sys \<Rightarrow> addrinfo \<Rightarrow> ('e world, unit) prog" where
  "call_freeaddrinfo sys res =
     ext_call (rdma_freeaddrinfo (rdma sys) res) (\<lambda>_. Ev_freeaddrinfo res)"

definition call_create_ep ::
  "'e sys \<Rightarrow> addrinfo \<Rightarrow> qp_init_attr \<Rightarrow> ('e world, int \<times> cm_id) prog" where
  "call_create_ep sys res attr =
     ext_call (rdma_create_ep (rdma sys) res attr) (\<lambda>(rv, i). Ev_create_ep res attr rv i)"

definition call_destroy_ep :: "'e sys \<Rightarrow> cm_id \<Rightarrow> ('e world, unit) prog" where
  "call_destroy_ep sys i = ext_call (rdma_destroy_ep (rdma sys) i) (\<lambda>_. Ev_destroy_ep i)"

definition call_connect :: "'e sys \<Rightarrow> cm_id \<Rightarrow> ('e world, int) prog" where
  "call_connect sys i = ext_call (rdma_connect (rdma sys) i) (Ev_connect i)"

definition call_listen :: "'e sys \<Rightarrow> cm_id \<Rightarrow> int \<Rightarrow> ('e world, int) prog" where
  "call_listen sys i backlog =
     ext_call (rdma_listen (rdma sys) i backlog) (Ev_listen i backlog)"

definition call_get_request :: "'e sys \<Rightarrow> cm_id \<Rightarrow> ('e world, int \<times> cm_id) prog" where
  "call_get_request sys l =
     ext_call (rdma_get_request (rdma sys) l) (\<lambda>(rv, i). Ev_get_request l rv i)"

definition call_accept :: "'e sys \<Rightarrow> cm_id \<Rightarrow> ('e world, int) prog" where
  "call_accept sys i = ext_call (rdma_accept (rdma sys) i) (Ev_accept i)"

definition call_disconnect :: "'e sys \<Rightarrow> cm_id \<Rightarrow> ('e world, int) prog" where
  "call_disconnect sys i = ext_call (rdma_disconnect (rdma sys) i) (Ev_disconnect i)"

section \<open>The functions of the source\<close>

definition dccs_set_connection_tos :: "'e sys \<Rightarrow> cm_id \<Rightarrow> u8 \<Rightarrow> ('e world, int) prog" where
  "dccs_set_connection_tos sys cid tos =
     thenP (log_debug ''Setting tos to %hhu\<newline>'')
    (bindP (ext_call (rdma_set_option_tos (rdma sys) cid tos) (Ev_set_option_tos cid tos)) (\<lambda>rv.
     thenP (whenP (rv \<noteq> 0) (log_perror ''rdma_set_option''))
    (ret rv)))"

definition client_attr :: "cm_id \<Rightarrow> qp_init_attr" where
  "client_attr cid = \<lparr>max_send_wr = MAX_WR, max_recv_wr = MAX_WR, qp_context = Some cid,
     qp_type_of = IBV_QPT_RC\<rparr>"

definition dccs_connect ::
  "'e sys \<Rightarrow> cm_id \<Rightarrow> string option \<Rightarrow> string \<Rightarrow> u8 \<Rightarrow> ('e world, int \<times> cm_id) prog" where
  "dccs_connect sys cid0 server port tos =
     bindP (call_getaddrinfo sys server port \<lparr>ai_flags = {}, ai_port_space = RDMA_PS_TCP\<rparr>)
       (\<lambda>(rv, res).
     if rv \<noteq> 0 then
       thenP (log_perror ''rmda_getaddrinfo'') (ret (rv, cid0))
     else
     bindP (call_create_ep sys res (client_attr cid0)) (\<lambda>(rv, cid).
     if rv \<noteq> 0 then
       thenP (log_perror ''rdma_create_ep'')
      (thenP (call_freeaddrinfo sys res) (ret (rv, cid)))
     else
     bindP (dccs_set_connection_tos sys cid tos) (\<lambda>rv.
     if rv \<noteq> 0 then
       thenP (call_freeaddrinfo sys res) (ret (rv, cid))
     else
     bindP (call_connect sys cid) (\<lambda>rv.
     if rv \<noteq> 0 then
       thenP (log_perror ''rdma_connect'')
      (thenP (call_destroy_ep sys cid)
      (thenP (call_freeaddrinfo sys res) (ret (rv, cid))))
     else
       thenP (call_freeaddrinfo sys res) (ret (0, cid))))))"

definition server_attr :: qp_init_attr where
  "server_attr = \<lparr>max_send_wr = MAX_WR, max_recv_wr = MAX_WR, qp_context = None,
     qp_type_of = IBV_QPT_RC\<rparr>"

definition dccs_listen ::
  "'e sys \<Rightarrow> cm_id \<Rightarrow> cm_id \<Rightarrow> string \<Rightarrow> ('e world, int \<times> cm_id \<times> cm_id) prog" where
  "dccs_listen sys listen_id0 cid0 port =
     bindP (call_getaddrinfo sys None port
              \<lparr>ai_flags = {RAI_PASSIVE}, ai_port_space = RDMA_PS_TCP\<rparr>) (\<lambda>(rv, res).
     if rv \<noteq> 0 then
       thenP (log_perror ''rmda_getaddrinfo'') (ret (rv, listen_id0, cid0))
     else
     bindP (call_create_ep sys res server_attr) (\<lambda>(rv, listen_id).
     if rv \<noteq> 0 then
       thenP (log_perror ''rdma_create_ep'')
      (thenP (call_freeaddrinfo sys res) (ret (rv, listen_id, cid0)))
     else
     bindP (call_listen sys listen_id 0) (\<lambda>rv.
     if rv \<noteq> 0 then
       thenP (log_perror ''rdma_listen'')
      (thenP (call_destroy_ep sys listen_id)
      (thenP (call_freeaddrinfo sys res) (ret (rv, listen_id, cid0))))
     else
     bindP (call_get_request sys listen_id) (\<lambda>(rv, cid).
     if rv \<noteq> 0 then
       thenP (log_perror ''rdma_get_request'')
      (thenP (call_destroy_ep sys listen_id)
      (thenP (call_freeaddrinfo sys res) (ret (rv, listen_id, cid))))
     else
     bindP (call_accept sys cid) (\<lambda>rv.
     if rv \<noteq> 0 then
       thenP (log_perror ''rdma_accept'')
      (thenP (call_destroy_ep sys cid)
      (thenP (call_destroy_ep sys listen_id)
      (thenP (call_freeaddrinfo sys res) (ret (rv, listen_id, cid)))))
     else
       thenP (call_freeaddrinfo sys res) (ret (0, listen_id, cid)))))))"

definition dccs_client_disconnect :: "'e sys \<Rightarrow> cm_id \<Rightarrow> ('e world, unit) prog" where
  "dccs_client_disconnect sys cid =
     thenP (call_disconnect sys cid) (call_destroy_ep sys cid)"

definition dccs_server_disconnect :: "'e sys \<Rightarrow> cm_id \<Rightarrow> cm_id \<Rightarrow> ('e world, unit) prog" where
  "dccs_server_disconnect sys cid listen_id =
     thenP (call_disconnect sys cid)
    (thenP (call_destroy_ep sys cid) (call_destroy_ep sys listen_id))"

section \<open>Ledger\<close>

lemma trades_call_getaddrinfo:
  "trades P (call_getaddrinfo sys s p h)
     (\<lambda>(rv, res). P + (if rv = 0 then {#R_addrinfo res#} else {#}))"
  unfolding call_getaddrinfo_def by (rule trades_conseq [OF trades_ext_call]) auto

lemma trades_call_freeaddrinfo:
  "R_addrinfo res \<in># P \<Longrightarrow> trades P (call_freeaddrinfo sys res) (\<lambda>_. P - {#R_addrinfo res#})"
  unfolding call_freeaddrinfo_def by (rule trades_conseq [OF trades_ext_call]) auto

lemma trades_call_create_ep:
  "trades P (call_create_ep sys res attr)
     (\<lambda>(rv, i). P + (if rv = 0 then {#R_ep i#} else {#}))"
  unfolding call_create_ep_def by (rule trades_conseq [OF trades_ext_call]) auto

lemma trades_call_destroy_ep:
  "R_ep i \<in># P \<Longrightarrow> trades P (call_destroy_ep sys i) (\<lambda>_. P - {#R_ep i#})"
  unfolding call_destroy_ep_def by (rule trades_conseq [OF trades_ext_call]) auto

lemma trades_call_get_request:
  "trades P (call_get_request sys l) (\<lambda>(rv, i). P + (if rv = 0 then {#R_ep i#} else {#}))"
  unfolding call_get_request_def by (rule trades_conseq [OF trades_ext_call]) auto

lemma trades_conn_neutral:
  "trades P (call_connect sys i) (\<lambda>_. P)" "trades P (call_listen sys i b) (\<lambda>_. P)"
  "trades P (call_accept sys i) (\<lambda>_. P)" "trades P (call_disconnect sys i) (\<lambda>_. P)"
  unfolding call_connect_def call_listen_def call_accept_def call_disconnect_def
  by (rule trades_neutral_call; simp)+

lemma trades_set_tos: "trades P (dccs_set_connection_tos sys cid tos) (\<lambda>_. P)"
  unfolding dccs_set_connection_tos_def
  by (rule trades_thenP trades_bindP trades_log trades_neutral_call trades_whenP trades_ret
      | simp)+

lemmas conn_trades = trades_thenP trades_bindP trades_case_prod trades_if trades_whenP trades_ret
  trades_log trades_conn_neutral trades_call_getaddrinfo trades_call_create_ep
  trades_call_get_request trades_call_freeaddrinfo trades_call_destroy_ep trades_set_tos

lemma dccs_listen_trades:
  "trades {#} (dccs_listen sys l0 cid0 port)
     (\<lambda>(rv, l, i). if rv = 0 then {#R_ep l, R_ep i#} else {#})"
  unfolding dccs_listen_def
  by (rule conn_trades | simp)+

lemma dccs_client_disconnect_trades:
  "trades {#R_ep i#} (dccs_client_disconnect sys i) (\<lambda>_. {#})"
  unfolding dccs_client_disconnect_def
  by (rule conn_trades trades_conseq [OF trades_call_destroy_ep] | simp)+

lemma dccs_server_disconnect_trades:
  "trades {#R_ep l, R_ep i#} (dccs_server_disconnect sys i l) (\<lambda>_. {#})"
  unfolding dccs_server_disconnect_def
  by (rule conn_trades trades_conseq [OF trades_call_destroy_ep] | simp)+

text \<open>Whether a trace holds a failed attempt to set the type of service of an endpoint.\<close>

fun is_failed_tos :: "cm_id \<Rightarrow> event \<Rightarrow> bool" where
  "is_failed_tos i (Ev_set_option_tos j t rv) = (j = i \<and> rv \<noteq> 0)"
| "is_failed_tos i _ = False"

definition tos_failed :: "cm_id \<Rightarrow> event list \<Rightarrow> bool" where
  "tos_failed i es \<longleftrightarrow> list_ex (is_failed_tos i) es"

lemma is_failed_tos_log [simp]: "\<not> is_failed_tos i (log_entry level fmt)"
  by (simp add: log_entry_def)

lemma tos_failed_simps [simp]:
  "\<not> tos_failed i []" "tos_failed i (e # es) = (is_failed_tos i e \<or> tos_failed i es)"
  by (simp_all add: tos_failed_def)

lemmas conn_calls = call_getaddrinfo_def call_create_ep_def call_connect_def call_destroy_ep_def
  call_freeaddrinfo_def dccs_set_connection_tos_def

lemma dccs_connect_wp:
  "owns L w \<Longrightarrow>
   wp (dccs_connect sys cid0 server port tos)
     (\<lambda>(rv, cid) w'. owns (L + (if rv = 0 \<or> tos_failed cid (drop (length (trace w)) (trace w'))
                               then {#R_ep cid#} else {#})) w') (\<lambda>_ _. False) w"
  unfolding dccs_connect_def conn_calls
  by (intro wp_intros) (auto simp: owns_def own_append)

lemma total_conn:
  "total (dccs_connect sys cid0 server port tos)" "total (dccs_listen sys l0 cid0 port)"
  "total (dccs_client_disconnect sys i)" "total (dccs_server_disconnect sys i l)"
  unfolding dccs_connect_def dccs_listen_def dccs_client_disconnect_def dccs_server_disconnect_def
    conn_calls call_listen_def call_get_request_def call_accept_def call_disconnect_def
  by (intro total_intros total_calls total_log)+

lemma dccs_listen_safe: "wp (dccs_listen sys l0 cid0 port) (\<lambda>_ _. True) (\<lambda>_ _. False) w"
  unfolding dccs_listen_def conn_calls call_listen_def call_get_request_def call_accept_def
  by (intro wp_intros TrueI)

lemma disconnect_safe:
  "wp (dccs_client_disconnect sys i) (\<lambda>_ _. True) (\<lambda>_ _. False) w"
  "wp (dccs_server_disconnect sys i l) (\<lambda>_ _. True) (\<lambda>_ _. False) w"
  unfolding dccs_client_disconnect_def dccs_server_disconnect_def conn_calls call_disconnect_def
  by (intro wp_intros TrueI)+

lemma dccs_listen_returns:
  assumes "owns L w"
  shows "returns (dccs_listen sys l0 cid0 port) (\<lambda>(rv, l, i) w'.
     owns (L + (if rv = 0 then {#R_ep l, R_ep i#} else {#})) w') w"
proof (rule total_returns [OF total_conn(2)], rule wp_no_stop [OF _ dccs_listen_safe])
  show "wp (dccs_listen sys l0 cid0 port) (\<lambda>(rv, l, i) w'.
     owns (L + (if rv = 0 then {#R_ep l, R_ep i#} else {#})) w') (\<lambda>_ _. True) w"
    using dccs_listen_trades [of sys l0 cid0 port] assms
    by (auto simp: trades_def elim!: wp_mono)
qed

lemma client_disconnect_returns:
  assumes "owns (L + {#R_ep i#}) w"
  shows "returns (dccs_client_disconnect sys i) (\<lambda>_ w'. owns L w') w"
  by (rule total_returns [OF total_conn(3)], rule wp_no_stop [OF _ disconnect_safe(1)])
    (use dccs_client_disconnect_trades [of i sys] assms in \<open>auto simp: trades_def\<close>)

lemma server_disconnect_returns:
  assumes "owns (L + {#R_ep l, R_ep i#}) w"
  shows "returns (dccs_server_disconnect sys i l) (\<lambda>_ w'. owns L w') w"
  by (rule total_returns [OF total_conn(4)], rule wp_no_stop [OF _ disconnect_safe(2)])
    (use dccs_server_disconnect_trades [of l i sys] assms in \<open>auto simp: trades_def\<close>)

section \<open>Properties\<close>

text \<open>
  C32. Connecting always returns.  On success the process holds one more resource, the endpoint it
  returns.  On failure it holds what it held before, with one exception: when setting the type of
  service of the new endpoint fails, that endpoint is not destroyed and stays on the ledger.
\<close>

theorem dccs_connect_ledger:
  assumes "owns L w"
  shows "returns (dccs_connect sys cid0 server port tos) (\<lambda>(rv, cid) w'.
     owns (L + (if rv = 0 \<or> tos_failed cid (drop (length (trace w)) (trace w'))
                then {#R_ep cid#} else {#})) w') w"
  by (rule total_returns [OF total_conn(1) dccs_connect_wp [OF assms]])

theorem dccs_connect_ledger_witness:
  "returns (dccs_connect (test_sys Little_endian) 0 (Some ''server'') ''1234'' 32)
     (\<lambda>(rv, cid) w'. owns (if rv = 0 \<or> tos_failed cid (trace w') then {#R_ep cid#} else {#}) w')
     (world0\<lparr>env := env0\<lparr>t_fail := [''set_option'']\<rparr>\<rparr>) \<and>
   returns (dccs_connect (test_sys Little_endian) 0 (Some ''server'') ''1234'' 32)
     (\<lambda>(rv, cid) w'. rv = -1 \<and> tos_failed cid (trace w'))
     (world0\<lparr>env := env0\<lparr>t_fail := [''set_option'']\<rparr>\<rparr>)"
proof
  let ?w = "world0\<lparr>env := env0\<lparr>t_fail := [''set_option'']\<rparr>\<rparr>"
  have "trace ?w = []" by (simp add: world0_def)
  then show "returns (dccs_connect (test_sys Little_endian) 0 (Some ''server'') ''1234'' 32)
     (\<lambda>(rv, cid) w'. owns (if rv = 0 \<or> tos_failed cid (trace w') then {#R_ep cid#} else {#}) w') ?w"
    using dccs_connect_ledger [OF owns_world0(1), of "test_sys Little_endian" 0 "Some ''server''"
        "''1234''" 32 "env0\<lparr>t_fail := [''set_option'']\<rparr>"] by simp
  show "returns (dccs_connect (test_sys Little_endian) 0 (Some ''server'') ''1234'' 32)
     (\<lambda>(rv, cid) w'. rv = -1 \<and> tos_failed cid (trace w')) ?w"
    by (simp add: dccs_connect_def conn_calls wp_simps test_defs tos_failed_def)
qed

text \<open>
  C14. Listening always returns.  On success the process holds the listening endpoint and the
  accepted one; on every failure, whichever call fails, it holds exactly what it held before.
\<close>

theorem dccs_listen_ledger:
  assumes "owns L w"
  shows "returns (dccs_listen sys l0 cid0 port) (\<lambda>(rv, l, i) w'.
     owns (L + (if rv = 0 then {#R_ep l, R_ep i#} else {#})) w') w"
  by (rule dccs_listen_returns [OF assms])

theorem dccs_listen_ledger_witness:
  "returns (dccs_listen (test_sys Little_endian) 0 0 ''1234'')
     (\<lambda>(rv, l, i) w'. owns (if rv = 0 then {#R_ep l, R_ep i#} else {#}) w') world0"
  using dccs_listen_ledger [OF owns_world0(2), of "test_sys Little_endian" 0 0 "''1234''"] by simp

text \<open>
  C33. A connection that was set up and is torn down again by the client's or the server's disconnect
  function leaves the ledger as it was: the endpoints are destroyed once each and nothing is
  leaked.  For the server this also covers every failed set-up.
\<close>

theorem connection_teardown_balanced:
  assumes "owns L w"
  shows "returns (bindP (dccs_connect sys cid0 server port tos) (\<lambda>(rv, cid).
       thenP (whenP (rv = 0) (dccs_client_disconnect sys cid)) (ret rv)))
     (\<lambda>rv w'. rv = 0 \<longrightarrow> owns L w') w \<and>
   returns (bindP (dccs_listen sys l0 cid0 port) (\<lambda>(rv, l, i).
       whenP (rv = 0) (dccs_server_disconnect sys i l))) (\<lambda>_ w'. owns L w') w"
proof
  have "returns (dccs_connect sys cid0 server port tos) (\<lambda>(rv, cid) w'. rv = 0 \<longrightarrow> owns (L + {#R_ep cid#}) w') w"
    by (rule returns_mono [OF total_returns [OF total_conn(1) dccs_connect_wp [OF assms]]]) auto
  then show "returns (bindP (dccs_connect sys cid0 server port tos) (\<lambda>(rv, cid).
       thenP (whenP (rv = 0) (dccs_client_disconnect sys cid)) (ret rv)))
     (\<lambda>rv w'. rv = 0 \<longrightarrow> owns L w') w"
    unfolding returns_bindP
    by (rule returns_mono) (auto simp: wp_simps intro!: returns_mono [OF client_disconnect_returns])
  show "returns (bindP (dccs_listen sys l0 cid0 port) (\<lambda>(rv, l, i).
       whenP (rv = 0) (dccs_server_disconnect sys i l))) (\<lambda>_ w'. owns L w') w"
    unfolding returns_bindP
    by (rule returns_mono [OF dccs_listen_returns [OF assms]])
      (auto simp: wp_simps intro!: server_disconnect_returns)
qed

theorem connection_teardown_balanced_witness:
  "returns (bindP (dccs_connect (test_sys Little_endian) 0 (Some ''server'') ''1234'' 0) (\<lambda>(rv, cid).
       thenP (whenP (rv = 0) (dccs_client_disconnect (test_sys Little_endian) cid)) (ret rv)))
     (\<lambda>rv w'. rv = 0 \<longrightarrow> owns {#} w') world0 \<and>
   returns (bindP (dccs_listen (test_sys Little_endian) 0 0 ''1234'') (\<lambda>(rv, l, i).
       whenP (rv = 0) (dccs_server_disconnect (test_sys Little_endian) i l))) (\<lambda>_ w'. owns {#} w') world0"
  by (rule connection_teardown_balanced [OF owns_world0(2)])

end
