(* ===== verification/Byte_Order.thy ===== *)
theory Byte_Order
  imports Prelude
begin

text \<open>
  Integers in memory and on the wire: the object representation of a host integer under either
  byte order, the conversions \<open>htonll\<close> and \<open>ntohll\<close> that \<open>dccs_rdma.h\<close> defines by byte order,
  and the C library's \<open>htonl\<close>, \<open>ntohl\<close>, \<open>htons\<close> and \<open>ntohs\<close>.  The interface the rest of the
  program relies on is the locale \<open>network_order\<close>: whatever the byte order of the two hosts,
  converting, storing, loading on the other side and converting back is the identity.  The three
  conversion pairs interpret it.
\<close>

section \<open>Host representation\<close>

definition enc_host :: "endian \<Rightarrow> nat \<Rightarrow> nat \<Rightarrow> u8 list" where
  "enc_host e k n = (case e of Little_endian \<Rightarrow> enc_le k n | Big_endian \<Rightarrow> rev (enc_le k n))"

definition dec_host :: "endian \<Rightarrow> u8 list \<Rightarrow> nat" where
  "dec_host e bs = (case e of Little_endian \<Rightarrow> dec_le bs | Big_endian \<Rightarrow> dec_le (rev bs))"

lemma length_enc_host [simp]: "length (enc_host e k n) = k"
  by (simp add: enc_host_def split: endian.split)

lemma dec_enc_host: "dec_host e (enc_host e k n) = n mod 256 ^ k"
  by (simp add: enc_host_def dec_host_def dec_enc_le split: endian.split)

lemma enc_dec_host: "enc_host e (length bs) (dec_host e bs) = bs"
proof (cases e)
  case Big_endian
  then show ?thesis
    using enc_dec_le [of "rev bs"] by (simp add: enc_host_def dec_host_def)
qed (simp add: enc_host_def dec_host_def enc_dec_le)

lemma dec_host_bound: "dec_host e bs < 256 ^ length bs"
  using dec_le_bound [of bs] dec_le_bound [of "rev bs"]
  by (simp add: dec_host_def split: endian.split)

section \<open>Conversions\<close>

text \<open>Reversing the bytes of a \<open>k\<close>-byte integer.\<close>

definition bswap :: "nat \<Rightarrow> nat \<Rightarrow> nat" where
  "bswap k n = dec_le (rev (enc_le k n))"

definition bswap_64 :: "u64 \<Rightarrow> u64" where
  "bswap_64 x = of_nat (bswap 8 (unat x))"

definition htonll :: "endian \<Rightarrow> u64 \<Rightarrow> u64" where
  "htonll e x = (case e of Little_endian \<Rightarrow> bswap_64 x | Big_endian \<Rightarrow> x)"

definition ntohll :: "endian \<Rightarrow> u64 \<Rightarrow> u64" where
  "ntohll e x = (case e of Little_endian \<Rightarrow> bswap_64 x | Big_endian \<Rightarrow> x)"

definition bswap_32 :: "u32 \<Rightarrow> u32" where
  "bswap_32 x = of_nat (bswap 4 (unat x))"

definition htonl :: "endian \<Rightarrow> u32 \<Rightarrow> u32" where
  "htonl e x = (case e of Little_endian \<Rightarrow> bswap_32 x | Big_endian \<Rightarrow> x)"

definition ntohl :: "endian \<Rightarrow> u32 \<Rightarrow> u32" where
  "ntohl e x = (case e of Little_endian \<Rightarrow> bswap_32 x | Big_endian \<Rightarrow> x)"

definition bswap_16 :: "u16 \<Rightarrow> u16" where
  "bswap_16 x = of_nat (bswap 2 (unat x))"

definition htons :: "endian \<Rightarrow> u16 \<Rightarrow> u16" where
  "htons e x = (case e of Little_endian \<Rightarrow> bswap_16 x | Big_endian \<Rightarrow> x)"

definition ntohs :: "endian \<Rightarrow> u16 \<Rightarrow> u16" where
  "ntohs e x = (case e of Little_endian \<Rightarrow> bswap_16 x | Big_endian \<Rightarrow> x)"

lemma bswap_bound: "bswap k n < 256 ^ k"
  using dec_le_bound [of "rev (enc_le k n)"] by (simp add: bswap_def)

lemma enc_bswap: "enc_le k (bswap k n) = rev (enc_le k n)"
  using enc_dec_le [of "rev (enc_le k n)"] by (simp add: bswap_def)

lemma bswap_bswap: "bswap k (bswap k n) = n mod 256 ^ k"
  unfolding bswap_def [of k "bswap k n"] by (simp add: enc_bswap dec_enc_le)

section \<open>The interface: network byte order\<close>

text \<open>
  \<open>hton\<close> and \<open>ntoh\<close> convert a \<open>k\<close>-byte integer on a host of the given byte order.  The provider
  promises that a converted integer, stored by a host, is the big-endian image of the original,
  and that reading such an image and converting gives the integer back.
\<close>

locale network_order =
  fixes k :: nat
    and hton :: "endian \<Rightarrow> 'a::len word \<Rightarrow> 'a word"
    and ntoh :: "endian \<Rightarrow> 'a word \<Rightarrow> 'a word"
  assumes width: "LENGTH('a) = 8 * k"
    and store_image: "enc_host e k (unat (hton e x)) = rev (enc_le k (unat x))"
    and load_image: "length bs = k \<Longrightarrow> ntoh e (of_nat (dec_host e bs)) = of_nat (dec_le (rev bs))"
begin

lemma size_pow: "256 ^ k = (2::nat) ^ LENGTH('a)"
  by (simp add: width power_mult)

lemma image_cross_host:
  "ntoh e' (of_nat (dec_host e' (enc_host e k (unat (hton e x))))) = x"
proof -
  have "unat x < 256 ^ k" by (simp add: size_pow)
  then show ?thesis by (simp add: store_image load_image dec_enc_le)
qed

lemma ntoh_hton: "ntoh e (hton e x) = x"
proof -
  have "unat (hton e x) < 256 ^ k" by (simp add: size_pow)
  then have "of_nat (dec_host e (enc_host e k (unat (hton e x)))) = hton e x"
    by (simp add: dec_enc_host)
  then show ?thesis using image_cross_host [of e e x] by simp
qed

end

lemma bswap_unat:
  assumes "256 ^ k = (2::nat) ^ LENGTH('a)"
  shows "unat (of_nat (bswap k n) :: 'a::len word) = bswap k n"
  using bswap_bound [of k n] assms by (simp add: unat_of_nat)

lemma dec_host_unat:
  assumes "256 ^ k = (2::nat) ^ LENGTH('a)" and "length bs = k"
  shows "unat (of_nat (dec_host e bs) :: 'a::len word) = dec_host e bs"
  using dec_host_bound [of e bs] assms by (simp add: unat_of_nat)

lemma bswap_dec_le: "length bs = k \<Longrightarrow> bswap k (dec_le bs) = dec_le (rev bs)"
  using enc_dec_le [of bs] by (simp add: bswap_def)

interpretation nll: network_order 8 htonll ntohll
proof
  show "LENGTH(64) = 8 * 8" by simp
next
  fix e :: endian and x :: u64
  show "enc_host e 8 (unat (htonll e x)) = rev (enc_le 8 (unat x))"
    by (cases e) (simp_all add: htonll_def bswap_64_def enc_host_def bswap_unat enc_bswap)
next
  fix bs :: "u8 list" and e :: endian
  assume "length bs = 8"
  then show "ntohll e (of_nat (dec_host e bs)) = of_nat (dec_le (rev bs))"
    using dec_host_unat [where 'a = 64 and k = 8 and bs = bs and e = e]
    by (cases e) (simp_all add: ntohll_def bswap_64_def dec_host_def bswap_dec_le)
qed

interpretation nl: network_order 4 htonl ntohl
proof
  show "LENGTH(32) = 8 * 4" by simp
next
  fix e :: endian and x :: u32
  show "enc_host e 4 (unat (htonl e x)) = rev (enc_le 4 (unat x))"
    by (cases e) (simp_all add: htonl_def bswap_32_def enc_host_def bswap_unat enc_bswap)
next
  fix bs :: "u8 list" and e :: endian
  assume "length bs = 4"
  then show "ntohl e (of_nat (dec_host e bs)) = of_nat (dec_le (rev bs))"
    using dec_host_unat [where 'a = 32 and k = 4 and bs = bs and e = e]
    by (cases e) (simp_all add: ntohl_def bswap_32_def dec_host_def bswap_dec_le)
qed

interpretation ns: network_order 2 htons ntohs
proof
  show "LENGTH(16) = 8 * 2" by simp
next
  fix e :: endian and x :: u16
  show "enc_host e 2 (unat (htons e x)) = rev (enc_le 2 (unat x))"
    by (cases e) (simp_all add: htons_def bswap_16_def enc_host_def bswap_unat enc_bswap)
next
  fix bs :: "u8 list" and e :: endian
  assume "length bs = 2"
  then show "ntohs e (of_nat (dec_host e bs)) = of_nat (dec_le (rev bs))"
    using dec_host_unat [where 'a = 16 and k = 2 and bs = bs and e = e]
    by (cases e) (simp_all add: ntohs_def bswap_16_def dec_host_def bswap_dec_le)
qed

section \<open>Properties\<close>

text \<open>
  C38. An address, a key or a port converted to network byte order on one host and stored, then
  loaded and converted back on another, is the original, whatever the two byte orders are.
\<close>

theorem network_order_roundtrip:
  "ntohll e' (of_nat (dec_host e' (enc_host e 8 (unat (htonll e x))))) = x \<and>
   ntohl e' (of_nat (dec_host e' (enc_host e 4 (unat (htonl e y))))) = y \<and>
   ntohs e' (of_nat (dec_host e' (enc_host e 2 (unat (htons e z))))) = z"
  by (simp only: nll.image_cross_host nl.image_cross_host ns.image_cross_host simp_thms)

end
