(* ===== verification/Dccs_Utils.thy ===== *)
theory Dccs_Utils
  imports Dccs_Log Byte_Order Testbed
begin

text \<open>
  The utility functions of \<open>dccs_utils.h\<close> other than logging, argument parsing and the sorting of
  latencies: hexadecimal output, the clock, process initialisation, allocation of filled buffers
  and digests.  The clock follows \<open>dccs_config.h\<close>: \<open>USE_RDTSC\<close> is 0, so a cycle is a nanosecond
  of \<open>CLOCK_REALTIME\<close>, or of \<open>MPI_Wtime\<close> in the MPI tool.

  The lemmas show what the two functions that write memory leave there (\<open>bin_to_hex_string\<close> the
  hexadecimal text of the buffer, from which the buffer can be read back; \<open>malloc_random\<close> one
  repeated random integer), and what each function does to the ledger.
\<close>

section \<open>Hexadecimal output\<close>

definition hex_digit :: "nat \<Rightarrow> u8" where
  "hex_digit d = of_nat (if d < 10 then 48 + d else 87 + d)"

text \<open>What \<open>sprintf(temp, "%02x", c)\<close> writes before the terminator.\<close>

definition hex_byte :: "u8 \<Rightarrow> u8 list" where
  "hex_byte c = [hex_digit (unat c div 16), hex_digit (unat c mod 16)]"

definition bin_to_hex_string :: "'e sys \<Rightarrow> u64 \<Rightarrow> u64 \<Rightarrow> ('e world, u64) prog" where
  "bin_to_hex_string sys buf len =
     bindP (call_malloc sys (2 * len + 1)) (\<lambda>s.
     if s = 0 then halt (Fault Null_deref) else
     thenP (forP [0..<unat len] (\<lambda>i _.
       bindP (read_mem (buf + of_nat i) 1) (\<lambda>c.
       write_mem (s + of_nat (2 * i)) (hex_byte (c ! 0)))) ())
    (thenP (write_mem (s + 2 * len) [0])
    (ret s)))"

section \<open>Timing\<close>

definition get_cycles :: "'e sys \<Rightarrow> ('e world, u64) prog" where
  "get_cycles sys =
     bindP (ext_call (clock_gettime (libc sys)) (\<lambda>(s, ns). Ev_clock s ns)) (\<lambda>(tv_sec, tv_nsec).
     ret (tv_sec * BILLION + tv_nsec))"

definition get_cycles_mpi :: "'e sys \<Rightarrow> ('e world, u64) prog" where
  "get_cycles_mpi sys =
     bindP (ext_call (MPI_Wtime (mpi sys)) Ev_wtime) (\<lambda>t.
     case cast_u64 (dmul t (double_of_nat (unat BILLION))) of
       None \<Rightarrow> halt (Fault Bad_conversion)
     | Some c \<Rightarrow> ret c)"

definition get_clock_rate :: u64 where
  "get_clock_rate = BILLION"

section \<open>Initialisation\<close>

definition set_cpu_affinity :: "'e sys \<Rightarrow> ('e world, unit) prog" where
  "set_cpu_affinity sys =
     bindP (ext_call (sched_setaffinity (libc sys) CPU_TO_USE) (Ev_setaffinity CPU_TO_USE)) (\<lambda>rv.
     if rv = -1 then thenP (log_perror ''sched_setaffinity failed'') (halt (Exit 1))
     else ret ())"

text \<open>\<open>dccs_init\<close> sets the global \<open>clock_rate\<close>, which is its result here.\<close>

definition dccs_init :: "'e sys \<Rightarrow> ('e world, u64) prog" where
  "dccs_init sys =
     (let clock_rate = get_clock_rate in
      thenP (log_debug ''Clock rate = %lu.\<newline>'')
     (thenP (set_cpu_affinity sys)
     (ret clock_rate)))"

definition print_usage :: "('e world, unit) prog" where
  "print_usage = log_warning
     (''Usage: %s [-b <block size>] [-c count] [--mr <mr count>] '' @
      ''[-r <repeat>] [-v read|write] [-p <port>] '' @
      ''[-m latency|throughput] [-w <warmup count>] [-V {verbose}] '' @
      ''[--tos <tos>] [server]\<newline>'')"

fun verb_name :: "Verb \<Rightarrow> string" where
  "verb_name Read = ''Read''"
| "verb_name Write = ''Write''"
| "verb_name Send = ''Send''"
| "verb_name None_verb = ''Unknown''"

fun mode_name :: "Mode \<Rightarrow> string" where
  "mode_name MODE_LATENCY = ''Latency''"
| "mode_name MODE_THROUGHPUT = ''Throughput''"

definition direction_name :: "int \<Rightarrow> string" where
  "direction_name d =
     (if d = direction_int DIR_OUT then ''1-N''
      else if d = direction_int DIR_IN then ''N-1''
      else if d = direction_int DIR_BOTH then ''N-N''
      else ''Unknown'')"

definition print_parameters :: "dccs_parameters \<Rightarrow> ('e world, unit) prog" where
  "print_parameters params =
     thenP (log_info_args ''Config: verb = %s, count = %zu, length = %zu, server = %s, port = %s.\<newline>''
              [Arg_str (Some (verb_name (p_verb params))), Arg_u64 (p_count params),
               Arg_u64 (p_length params), Arg_str (p_server params), Arg_str (Some (p_port params))])
    (thenP (log_info_args (''Config: mode = %s, repeat = %zu, warmup count = %zu, '' @
                           ''direction = %s, verbose = %d.\<newline>'')
              [Arg_str (Some (mode_name (p_mode params))), Arg_u64 (p_repeat params),
               Arg_u64 (p_warmup_count params), Arg_str (Some (direction_name (p_direction params))),
               Arg_int (if p_verbose params then 1 else 0)])
    (whenP (p_tos params \<noteq> 0)
       (log_info_args ''Config: tos = %zu.\<newline>'' [Arg_int (uint (p_tos params))])))"

section \<open>Buffers filled with random data\<close>

text \<open>The two loops that fill a block: whole integers first, then the bytes that are left over.\<close>

definition fill_buffer :: "endian \<Rightarrow> u64 \<Rightarrow> u64 \<Rightarrow> u32 \<Rightarrow> ('e world, unit) prog" where
  "fill_buffer e buf sz r =
     thenP (forP [0..<unat (sz div 4)] (\<lambda>n _.
       write_mem (buf + of_nat (4 * n)) (enc_host e 4 (unat r))) ())
    (forP [unat (sz div 4 * 4)..<unat sz] (\<lambda>n _. write_mem (buf + of_nat n) [ucast r]) ())"

definition malloc_random :: "'e sys \<Rightarrow> u64 \<Rightarrow> ('e world, u64) prog" where
  "malloc_random sys sz =
     bindP (call_memalign sys CACHE_LINE_SIZE sz) (\<lambda>(rv, buf0).
     bindP (if rv \<noteq> 0 then
              thenP (log_perror ''posix_memalign'')
             (thenP (log_warning ''Failed to malloc aligned memory, falling back to malloc() ...\<newline>'')
             (call_malloc sys sz))
            else ret buf0) (\<lambda>buf.
     if buf = 0 then ret buf else
     bindP (ext_call (sys_time (libc sys)) Ev_time) (\<lambda>t.
     thenP (ext_call (sys_srand (libc sys) (ucast t)) (\<lambda>_. Ev_srand (ucast t)))
    (bindP (ext_call (sys_rand (libc sys)) Ev_rand) (\<lambda>r.
     thenP (fill_buffer (host_endian sys) buf sz r)
    (ret buf))))))"

section \<open>Digests\<close>

definition sha1sum :: "'e sys \<Rightarrow> u64 \<Rightarrow> u64 \<Rightarrow> ('e world, u8 list) prog" where
  "sha1sum sys data len =
     bindP (read_mem data (unat len)) (\<lambda>bs. ret (SHA1 (libc sys) bs))"

text \<open>
  \<open>SHA1_Update\<close> appends a block to the message whose digest \<open>SHA1_Final\<close> gives, so the context is
  the message so far.
\<close>

definition sha1sum_array :: "'e sys \<Rightarrow> u64 list \<Rightarrow> u64 \<Rightarrow> ('e world, u8 list) prog" where
  "sha1sum_array sys array len =
     bindP (forP array (\<lambda>data ctx.
       bindP (read_mem data (unat len)) (\<lambda>bs. ret (ctx @ bs))) []) (\<lambda>ctx.
     ret (SHA1 (libc sys) ctx))"

section \<open>What the buffers hold\<close>

definition hex_string :: "u8 list \<Rightarrow> u8 list" where
  "hex_string bs = concat (map hex_byte bs)"

text \<open>Reading a digit and a string of digits back.\<close>

definition unhex_digit :: "u8 \<Rightarrow> nat" where
  "unhex_digit c = (if unat c < 58 then unat c - 48 else unat c - 87)"

fun unhex :: "u8 list \<Rightarrow> u8 list" where
  "unhex (h # l # cs) = of_nat (16 * unhex_digit h + unhex_digit l) # unhex cs"
| "unhex _ = []"

lemma length_hex_byte [simp]: "length (hex_byte c) = 2"
  by (simp add: hex_byte_def)

lemma length_hex_string [simp]: "length (hex_string bs) = 2 * length bs"
  by (induction bs) (simp_all add: hex_string_def)

lemma unhex_hex_digit: "d < 16 \<Longrightarrow> unhex_digit (hex_digit d) = d"
  by (simp add: unhex_digit_def hex_digit_def unat_of_nat)

lemma unhex_hex_string: "unhex (hex_string bs) = bs"
proof (induction bs)
  case (Cons b bs)
  have "unat b < 256" using unsigned_less [of b] by simp
  then have "unat b div 16 < 16" and "unat b mod 16 < 16" by simp_all
  then have "unhex (hex_byte b @ cs) = b # unhex cs" for cs
    by (simp add: hex_byte_def unhex_hex_digit)
  with Cons show ?case by (simp add: hex_string_def)
qed (simp add: hex_string_def)

definition fill_pattern :: "endian \<Rightarrow> u32 \<Rightarrow> nat \<Rightarrow> u8 list" where
  "fill_pattern e r n =
     concat (replicate (n div 4) (enc_host e 4 (unat r))) @ replicate (n mod 4) (ucast r)"

lemma length_concat_replicate: "length (concat (replicate k xs)) = k * length xs"
  by (induction k) simp_all

lemma length_fill_pattern [simp]: "length (fill_pattern e r n) = n"
  by (simp add: fill_pattern_def length_concat_replicate)

lemma wp_fill_loop:
  assumes "k * n \<le> 2 ^ 64" and len: "\<And>i. length (f i) = k"
  shows "wp (forP [0..<n] (\<lambda>i _. write_mem (a + of_nat (k * i)) (f i)) ())
     (\<lambda>_ w'. w' = w\<lparr>mem := store_bytes (mem w) a (concat (map f [0..<n]))\<rparr>) E w"
proof (rule wp_forP [where I = "\<lambda>i _ w'. w' = w\<lparr>mem := store_bytes (mem w) a (concat (map f [0..<i]))\<rparr>"])
  fix i s w'
  assume i: "i < n" and w': "w' = w\<lparr>mem := store_bytes (mem w) a (concat (map f [0..<i]))\<rparr>"
  have l: "length (concat (map f [0..<i])) = k * i"
    by (induction i) (simp_all add: len)
  have "k * i + k \<le> k * n" using i by (metis Suc_leI mult_Suc_right mult_le_mono2 add.commute)
  then have "store_bytes (store_bytes (mem w) a (concat (map f [0..<i]))) (a + of_nat (k * i)) (f i) =
      store_bytes (mem w) a (concat (map f [0..<i]) @ f i)"
    using store_bytes_append [of "concat (map f [0..<i])" "f i" "mem w" a] assms(1)
    by (simp add: l len)
  then show "wp (write_mem (a + of_nat (k * i)) (f i))
     (\<lambda>_ w'. w' = w\<lparr>mem := store_bytes (mem w) a (concat (map f [0..<Suc i]))\<rparr>) E w'"
    by (simp add: w' wp_write_mem)
qed simp

lemma wp_tail_loop:
  assumes j: "length xs = j" and n: "n \<le> 2 ^ 64" and "j \<le> n"
    and w: "mem w = store_bytes m a xs"
  shows "wp (forP [j..<n] (\<lambda>i _. write_mem (a + of_nat i) [c]) ())
     (\<lambda>_ w'. w' = w\<lparr>mem := store_bytes m a (xs @ replicate (n - j) c)\<rparr>) E w"
proof (rule wp_forP_from [where I = "\<lambda>i _ w'. w' = w\<lparr>mem := store_bytes m a (xs @ replicate (i - j) c)\<rparr>"])
  fix i s w'
  assume i: "j \<le> i" "i < n" and w': "w' = w\<lparr>mem := store_bytes m a (xs @ replicate (i - j) c)\<rparr>"
  have "replicate (Suc i - j) c = replicate (i - j) c @ [c]"
    using i by (simp add: Suc_diff_le replicate_append_same)
  then have "store_bytes (store_bytes m a (xs @ replicate (i - j) c)) (a + of_nat i) [c] =
      store_bytes m a (xs @ replicate (Suc i - j) c)"
    using store_bytes_append [of "xs @ replicate (i - j) c" "[c]" m a] i n j by simp
  then show "wp (write_mem (a + of_nat i) [c])
     (\<lambda>_ w'. w' = w\<lparr>mem := store_bytes m a (xs @ replicate (Suc i - j) c)\<rparr>) E w'"
    by (simp add: w' wp_write_mem)
qed (use assms in simp_all)

lemma unat_lt_64: "unat (x :: u64) < 2 ^ 64"
proof -
  have "unat x < 2 ^ LENGTH(64)" by (rule unsigned_less)
  then show ?thesis by simp
qed

lemma wp_fill_buffer:
  "wp (fill_buffer e buf sz r)
     (\<lambda>_ w'. w' = w\<lparr>mem := store_bytes (mem w) buf (fill_pattern e r (unat sz))\<rparr>) E w"
proof -
  let ?xs = "concat (replicate (unat sz div 4) (enc_host e 4 (unat r)))"
  have q: "unat (sz div 4) = unat sz div 4" by (simp add: unat_div)
  have q4: "unat (sz div 4 * 4) = unat sz div 4 * 4"
  proof -
    have "unat (sz div 4) * unat (4 :: u64) < 2 ^ 64"
      using unat_lt_64 [of sz] by (simp add: q)
    then show ?thesis by (simp add: unat_mult_lem [THEN iffD1] q)
  qed
  have map: "concat (map (\<lambda>_. enc_host e 4 (unat r)) [0..<unat sz div 4]) = ?xs"
    by (simp add: map_replicate_const)
  have "wp (forP [0..<unat sz div 4] (\<lambda>n _.
         write_mem (buf + of_nat (4 * n)) (enc_host e 4 (unat r))) ())
     (\<lambda>_ w'. w' = w\<lparr>mem := store_bytes (mem w) buf ?xs\<rparr>) E w"
    using wp_fill_loop [of 4 "unat sz div 4" "\<lambda>_. enc_host e 4 (unat r)" buf w E] unat_lt_64 [of sz]
    unfolding map by simp
  moreover have "wp (forP [unat sz div 4 * 4..<unat sz] (\<lambda>n _. write_mem (buf + of_nat n) [ucast r]) ())
     (\<lambda>_ w'. w' = w\<lparr>mem := store_bytes (mem w) buf (fill_pattern e r (unat sz))\<rparr>) E
     (w\<lparr>mem := store_bytes (mem w) buf ?xs\<rparr>)"
  proof -
    have "unat sz - unat sz div 4 * 4 = unat sz mod 4" by (simp add: minus_div_mult_eq_mod)
    then show ?thesis
      using wp_tail_loop [of ?xs "unat sz div 4 * 4" "unat sz"
          "w\<lparr>mem := store_bytes (mem w) buf ?xs\<rparr>" "mem w" buf "ucast r" E] unat_lt_64 [of sz]
      by (simp add: length_concat_replicate fill_pattern_def)
  qed
  ultimately show ?thesis
    unfolding fill_buffer_def wp_thenP q q4 by (auto intro: wp_mono)
qed

lemma wp_fill_bufferI:
  "Q () (w\<lparr>mem := store_bytes (mem w) buf (fill_pattern e r (unat sz))\<rparr>) \<Longrightarrow>
   wp (fill_buffer e buf sz r) Q E w"
  by (rule wp_mono [OF wp_fill_buffer]) auto

lemma malloc_random_wp:
  "wp (malloc_random sys sz) (\<lambda>buf w'. buf \<noteq> 0 \<longrightarrow>
       (\<exists>r. last (trace w') = Ev_rand r \<and>
            load_bytes (mem w') buf (unat sz) = fill_pattern (host_endian sys) r (unat sz)))
     (\<lambda>_ _. False) w"
proof -
  have "load_bytes (store_bytes m buf (fill_pattern e r (unat sz))) buf (unat sz) =
      fill_pattern e r (unat sz)" for m buf e r
    using load_store_bytes [of "fill_pattern e r (unat sz)" m buf] unat_lt_64 [of sz] by simp
  then show ?thesis
    unfolding malloc_random_def call_memalign_def call_malloc_def
    by (intro wp_intros wp_fill_bufferI) auto
qed

lemma hex_loop_step:
  assumes disj: "disjoint_ranges s (2 * n) buf n" and i: "i < n" "2 * n \<le> 2 ^ 64"
    and bs: "bs = load_bytes m buf n"
  shows "store_bytes (store_bytes m s (hex_string (take i bs))) (s + of_nat (2 * i))
      (hex_byte (load_bytes (store_bytes m s (hex_string (take i bs))) (buf + of_nat i) 1 ! 0)) =
    store_bytes m s (hex_string (take (Suc i) bs))"
proof -
  have lb: "min (length bs) i = i" using i bs by simp
  have "disjoint_ranges s (2 * i) buf n" using disj i by (simp add: disjoint_ranges_def)
  then have ld: "load_bytes (store_bytes m s (hex_string (take i bs))) buf n = bs"
    using load_store_disjoint [of s "hex_string (take i bs)" buf n m] i by (simp add: bs min_def)
  have "load_bytes (store_bytes m s (hex_string (take i bs))) (buf + of_nat i) 1 ! 0 =
      load_bytes (store_bytes m s (hex_string (take i bs))) buf n ! i"
    using i by simp
  with ld have "load_bytes (store_bytes m s (hex_string (take i bs))) (buf + of_nat i) 1 ! 0 = bs ! i"
    by (simp only:)
  moreover have "hex_string (take (Suc i) bs) = hex_string (take i bs) @ hex_byte (bs ! i)"
    using i bs by (simp add: hex_string_def take_Suc_conv_app_nth)
  ultimately show ?thesis
    using store_bytes_append [of "hex_string (take i bs)" "hex_byte (bs ! i)" m s] i by (simp add: lb)
qed

lemma bin_to_hex_string_wp:
  assumes disj: "\<And>s x m. sys_malloc (libc sys) (2 * len + 1) (env w) (mem w) = (s, x, m) \<Longrightarrow>
      m = mem w \<and> disjoint_ranges s (2 * unat len + 1) buf (unat len)"
    and len: "2 * unat len < 2 ^ 64"
  shows "wp (bin_to_hex_string sys buf len) (\<lambda>s w'.
       load_bytes (mem w') s (2 * unat len + 1) =
         hex_string (load_bytes (mem w) buf (unat len)) @ [0]) (\<lambda>st _. st = Fault Null_deref) w"
proof (cases "sys_malloc (libc sys) (2 * len + 1) (env w) (mem w)")
  case (fields s x m)
  let ?bs = "load_bytes (mem w) buf (unat len)" and ?n = "unat len"
  let ?w1 = "w\<lparr>env := x, mem := m, trace := trace w @ [Ev_malloc (2 * len + 1) s]\<rparr>"
  from disj [OF fields] have m: "m = mem w" and d: "disjoint_ranges s (2 * ?n) buf ?n"
    by (simp_all add: disjoint_ranges_def)
  have loop: "wp (forP [0..<?n] (\<lambda>i _. bindP (read_mem (buf + of_nat i) 1) (\<lambda>c.
        write_mem (s + of_nat (2 * i)) (hex_byte (c ! 0)))) ())
      (\<lambda>_ w'. w' = ?w1\<lparr>mem := store_bytes (mem w) s (hex_string ?bs)\<rparr>) E ?w1" for E
    using wp_forP [where n = ?n and s = "()" and w = ?w1 and E = E
        and body = "\<lambda>i _. bindP (read_mem (buf + of_nat i) 1) (\<lambda>c.
          write_mem (s + of_nat (2 * i)) (hex_byte (c ! 0)))"
        and I = "\<lambda>i _ w'. w' = ?w1\<lparr>mem := store_bytes (mem w) s (hex_string (take i ?bs))\<rparr>"]
      hex_loop_step [OF d _ _ refl] len
    by (simp add: wp_simps m hex_string_def)
  have "2 * len = of_nat (2 * ?n)" by simp
  then have "store_bytes (store_bytes (mem w) s (hex_string ?bs)) (s + 2 * len) [0] =
      store_bytes (mem w) s (hex_string ?bs @ [0])"
    using store_bytes_append [of "hex_string ?bs" "[0]" "mem w" s] len by simp
  moreover have "load_bytes (store_bytes (mem w) s (hex_string ?bs @ [0])) s (2 * ?n + 1) =
      hex_string ?bs @ [0]"
    using load_store_bytes [of "hex_string ?bs @ [0]" "mem w" s] len by simp
  ultimately show ?thesis
    unfolding bin_to_hex_string_def call_malloc_def
    by (simp only: wp_simps fields prod.case, cases "s = 0")
      (simp_all add: wp_mono [OF loop [simplified]] wp_simps)
qed

section \<open>Ledger\<close>

lemma trades_fill_buffer: "trades P (fill_buffer e buf sz r) (\<lambda>_. P)"
  unfolding fill_buffer_def
  by (rule trades_thenP trades_forP trades_write_mem refl)+

lemma alloc_fallback_trades:
  "trades (P + (if rv = 0 then heap_block b else {#}))
     (if rv \<noteq> 0 then thenP (log_perror s) (thenP (log_warning t) (call_malloc sys sz)) else ret b)
     (\<lambda>p. P + heap_block p)"
  by (rule trades_thenP trades_if trades_ret trades_log trades_conseq [OF trades_call_malloc] | simp)+

lemma malloc_random_trades: "trades P (malloc_random sys sz) (\<lambda>p. P + heap_block p)"
  unfolding malloc_random_def
  by (rule trades_bindP, rule trades_call_memalign, rule trades_split)
    (rule alloc_fallback_trades trades_thenP trades_bindP trades_if trades_ret trades_neutral_call
      trades_fill_buffer | simp)+

lemma get_cycles_trades: "trades P (get_cycles sys) (\<lambda>_. P)"
  unfolding get_cycles_def
  by (rule trades_bindP trades_case_prod trades_ret trades_neutral_call | simp split: prod.split)+

lemma bin_to_hex_string_trades: "trades P (bin_to_hex_string sys buf len) (\<lambda>p. P + heap_block p)"
  unfolding bin_to_hex_string_def
  by (rule trades_thenP trades_bindP trades_if trades_ret trades_halt trades_call_malloc trades_forP
      trades_read_mem trades_write_mem refl)+

lemma sha1sum_array_trades: "trades P (sha1sum_array sys array len) (\<lambda>_. P)"
  unfolding sha1sum_array_def
  by (rule trades_bindP trades_ret trades_forP trades_read_mem refl)+

lemma grows_malloc_random: "grows (malloc_random sys sz)"
  unfolding malloc_random_def call_memalign_def call_malloc_def fill_buffer_def
  by (intro grows_intros grows_log)

lemma grows_get_cycles: "grows (get_cycles sys)"
  unfolding get_cycles_def by (intro grows_intros)

lemma total_malloc_random: "total (malloc_random sys sz)"
  unfolding malloc_random_def call_memalign_def call_malloc_def fill_buffer_def
  by (intro total_intros total_calls total_log)

lemma total_get_cycles: "total (get_cycles sys)"
  unfolding get_cycles_def by (intro total_intros total_calls)

lemma total_hex: "total (bin_to_hex_string sys buf len)"
  unfolding bin_to_hex_string_def call_malloc_def by (intro total_intros total_calls)

section \<open>Properties\<close>

text \<open>
  C39. Allocating a filled buffer always returns.  When it gives a block, the block holds one
  random integer over and over, in the byte order of the host, and its low byte in the bytes that
  are left over at the end; everything else the process held, it still holds.
\<close>

theorem malloc_random_fills:
  assumes "owns L w"
  shows "returns (malloc_random sys sz) (\<lambda>buf w'. owns (L + heap_block buf) w' \<and>
     (buf \<noteq> 0 \<longrightarrow> (\<exists>r. last (trace w') = Ev_rand r \<and>
        load_bytes (mem w') buf (unat sz) = fill_pattern (host_endian sys) r (unat sz)))) w"
proof (rule total_returns [OF total_malloc_random])
  have "wp (malloc_random sys sz) (\<lambda>b. owns (L + heap_block b)) (\<lambda>_ _. True) w"
    using malloc_random_trades [of "{#}" sys sz] assms by (simp add: trades_def)
  from wp_conj [OF this malloc_random_wp] show "wp (malloc_random sys sz) (\<lambda>buf w'.
     owns (L + heap_block buf) w' \<and> (buf \<noteq> 0 \<longrightarrow> (\<exists>r. last (trace w') = Ev_rand r \<and>
        load_bytes (mem w') buf (unat sz) = fill_pattern (host_endian sys) r (unat sz)))) (\<lambda>_ _. False) w"
    by (rule wp_mono) auto
qed

theorem malloc_random_fills_witness:
  "returns (malloc_random (test_sys Little_endian) 10) (\<lambda>buf w'. owns (heap_block buf) w' \<and>
     (buf \<noteq> 0 \<longrightarrow> (\<exists>r. last (trace w') = Ev_rand r \<and>
        load_bytes (mem w') buf 10 = fill_pattern Little_endian r 10)))
     (world0\<lparr>env := env0\<lparr>t_fail := [''memalign'']\<rparr>\<rparr>)"
  using malloc_random_fills [OF owns_world0(1), where sys = "test_sys Little_endian" and sz = 10]
  by (simp add: test_select)

text \<open>
  C40. The hexadecimal text of a buffer is twice as long and NUL-terminated, and reading it back two
  digits at a time gives the buffer again.  The allocator is assumed to hand out a block that does
  not overlap the buffer.
\<close>

theorem bin_to_hex_string_roundtrip:
  assumes "\<And>m. case sys_malloc (libc sys) (2 * len + 1) (env w) m of (s, x, m') \<Rightarrow>
      s \<noteq> 0 \<and> m' = m \<and> disjoint_ranges s (2 * unat len + 1) buf (unat len)"
    and "2 * unat len < 2 ^ 64"
  shows "returns (bin_to_hex_string sys buf len) (\<lambda>s w'.
     \<exists>text. load_bytes (mem w') s (2 * unat len + 1) = text @ [0] \<and>
            unhex text = load_bytes (mem w) buf (unat len)) w"
proof -
  have alloc: "m = mem w \<and> disjoint_ranges s (2 * unat len + 1) buf (unat len)" and "s \<noteq> 0"
    if "sys_malloc (libc sys) (2 * len + 1) (env w) (mem w) = (s, x, m)" for s x m
    using assms(1) [of "mem w"] that by simp_all
  then have "wp (bin_to_hex_string sys buf len) (\<lambda>_ _. True) (\<lambda>_ _. False) w"
    unfolding bin_to_hex_string_def call_malloc_def
    by (auto simp: wp_simps split: prod.split intro!: wp_forP_any)
  with bin_to_hex_string_wp [OF alloc assms(2)] have "wp (bin_to_hex_string sys buf len)
      (\<lambda>s w'. load_bytes (mem w') s (2 * unat len + 1) =
         hex_string (load_bytes (mem w) buf (unat len)) @ [0]) (\<lambda>_ _. False) w"
    by (rule_tac wp_no_stop)
  from total_returns [OF total_hex this] show ?thesis
    by (rule returns_mono) (auto simp: unhex_hex_string)
qed

theorem bin_to_hex_string_roundtrip_witness:
  "returns (bin_to_hex_string (test_sys Little_endian) 0x300 20) (\<lambda>s w'.
     \<exists>text. load_bytes (mem w') s 41 = text @ [0] \<and> unhex text = load_bytes (mem world0) 0x300 20) world0"
proof -
  have "returns (bin_to_hex_string (test_sys Little_endian) 0x300 20) (\<lambda>s w'.
     \<exists>text. load_bytes (mem w') s (2 * unat (20 :: u64) + 1) = text @ [0] \<and>
       unhex text = load_bytes (mem world0) 0x300 (unat (20 :: u64))) world0"
    by (rule bin_to_hex_string_roundtrip) (simp_all add: test_run disjoint_ranges_def)
  then show ?thesis by simp
qed

end
