(* ===== verification/Rdma_Ops.thy ===== *)
theory Rdma_Ops
  imports Dccs_Utils
begin

text \<open>
  Memory regions, posting of work requests and completions of \<open>dccs_rdma.h\<close>.

  The array \<open>wc_arr\<close> handed to \<open>dccs_rdma_send_comp\<close> is a list of the array's size; the library
  writes the completions it reports from \<open>wc_arr + sum\<close> on, and a write or read past the end is
  the fault \<open>Out_of_bounds\<close>.  Three interfaces are stated and interpreted here: \<open>registrar\<close> (the
  three registration functions acquire the region they return), \<open>poster\<close> (a posting function
  posts the one operation its arguments describe and returns what the library returns) and
  \<open>completion\<close> of the prelude (a completion is never 0).
\<close>

section \<open>Memory regions\<close>

definition reg_call ::
  "'e sys \<Rightarrow> reg_kind \<Rightarrow> cm_id \<Rightarrow> u64 \<Rightarrow> u64 \<Rightarrow> ('e world, ibv_mr option) prog" where
  "reg_call sys k cid addr len = ext_call (rdma_reg (rdma sys) k cid addr len) (Ev_reg k cid addr len)"

definition dccs_reg_msgs :: "'e sys \<Rightarrow> cm_id \<Rightarrow> u64 \<Rightarrow> u64 \<Rightarrow> ('e world, ibv_mr option) prog" where
  "dccs_reg_msgs sys cid addr len =
     bindP (reg_call sys Reg_msgs cid addr len) (\<lambda>mr.
     thenP (whenP (mr = None) (log_perror ''rdma_reg_msgs'')) (ret mr))"

definition dccs_reg_read :: "'e sys \<Rightarrow> cm_id \<Rightarrow> u64 \<Rightarrow> u64 \<Rightarrow> ('e world, ibv_mr option) prog" where
  "dccs_reg_read sys cid addr len =
     bindP (reg_call sys Reg_read cid addr len) (\<lambda>mr.
     thenP (whenP (mr = None) (log_perror ''rdma_reg_read'')) (ret mr))"

definition dccs_reg_write :: "'e sys \<Rightarrow> cm_id \<Rightarrow> u64 \<Rightarrow> u64 \<Rightarrow> ('e world, ibv_mr option) prog" where
  "dccs_reg_write sys cid addr len =
     bindP (reg_call sys Reg_write cid addr len) (\<lambda>mr.
     thenP (whenP (mr = None) (log_perror ''rdma_reg_write'')) (ret mr))"

text \<open>\<open>rdma_dereg_mr\<close> reads the region it is given, so a null pointer is an error of its caller.\<close>

definition dccs_dereg_mr :: "'e sys \<Rightarrow> ibv_mr option \<Rightarrow> ('e world, unit) prog" where
  "dccs_dereg_mr sys mr =
     (if mr = None then halt (Fault Null_deref)
      else thenP (ext_call (rdma_dereg_mr (rdma sys) mr) (Ev_dereg mr)) (ret ()))"

section \<open>Posting work requests\<close>

text \<open>The entry of a send in the trace also records what the buffer held when it was posted.\<close>

definition dccs_rdma_send_with_flags ::
  "'e sys \<Rightarrow> cm_id \<Rightarrow> u64 \<Rightarrow> u64 \<Rightarrow> ibv_mr option \<Rightarrow> send_flag set \<Rightarrow> ('e world, int) prog" where
  "dccs_rdma_send_with_flags sys cid addr len mr flags =
     bindP (read_mem addr (unat len)) (\<lambda>payload.
     bindP (ext_call (rdma_post_send (rdma sys) cid addr len mr flags)
              (Ev_post_send cid addr len mr flags payload)) (\<lambda>rv.
     thenP (whenP (rv \<noteq> 0) (log_perror ''rdma_post_send'')) (ret rv)))"

definition dccs_rdma_send ::
  "'e sys \<Rightarrow> cm_id \<Rightarrow> u64 \<Rightarrow> u64 \<Rightarrow> ibv_mr option \<Rightarrow> ('e world, int) prog" where
  "dccs_rdma_send sys cid addr len mr =
     dccs_rdma_send_with_flags sys cid addr len mr {IBV_SEND_SIGNALED}"

definition dccs_rdma_recv ::
  "'e sys \<Rightarrow> cm_id \<Rightarrow> u64 \<Rightarrow> u64 \<Rightarrow> ibv_mr option \<Rightarrow> ('e world, int) prog" where
  "dccs_rdma_recv sys cid addr len mr =
     bindP (ext_call (rdma_post_recv (rdma sys) cid addr len mr) (Ev_post_recv cid addr len mr)) (\<lambda>rv.
     thenP (whenP (rv \<noteq> 0) (log_perror ''rdma_post_recv'')) (ret rv))"

definition dccs_rdma_read_with_flags ::
  "'e sys \<Rightarrow> cm_id \<Rightarrow> u64 \<Rightarrow> u64 \<Rightarrow> ibv_mr option \<Rightarrow> u64 \<Rightarrow> u32 \<Rightarrow> send_flag set \<Rightarrow> ('e world, int) prog" where
  "dccs_rdma_read_with_flags sys cid addr len mr remote_addr rkey flags =
     bindP (ext_call (rdma_post_read (rdma sys) cid addr len mr flags remote_addr rkey)
              (Ev_post_read cid addr len mr flags remote_addr rkey)) (\<lambda>rv.
     thenP (whenP (rv \<noteq> 0) (log_perror ''rdma_post_read'')) (ret rv))"

definition dccs_rdma_read ::
  "'e sys \<Rightarrow> cm_id \<Rightarrow> u64 \<Rightarrow> u64 \<Rightarrow> ibv_mr option \<Rightarrow> u64 \<Rightarrow> u32 \<Rightarrow> ('e world, int) prog" where
  "dccs_rdma_read sys cid addr len mr remote_addr rkey =
     dccs_rdma_read_with_flags sys cid addr len mr remote_addr rkey {IBV_SEND_SIGNALED}"

definition dccs_rdma_write_with_flags ::
  "'e sys \<Rightarrow> cm_id \<Rightarrow> u64 \<Rightarrow> u64 \<Rightarrow> ibv_mr option \<Rightarrow> u64 \<Rightarrow> u32 \<Rightarrow> send_flag set \<Rightarrow> ('e world, int) prog" where
  "dccs_rdma_write_with_flags sys cid addr len mr remote_addr rkey flags =
     bindP (ext_call (rdma_post_write (rdma sys) cid addr len mr flags remote_addr rkey)
              (Ev_post_write cid addr len mr flags remote_addr rkey)) (\<lambda>rv.
     thenP (whenP (rv \<noteq> 0) (log_perror ''rdma_post_write'')) (ret rv))"

definition dccs_rdma_write ::
  "'e sys \<Rightarrow> cm_id \<Rightarrow> u64 \<Rightarrow> u64 \<Rightarrow> ibv_mr option \<Rightarrow> u64 \<Rightarrow> u32 \<Rightarrow> ('e world, int) prog" where
  "dccs_rdma_write sys cid addr len mr remote_addr rkey =
     dccs_rdma_write_with_flags sys cid addr len mr remote_addr rkey {IBV_SEND_SIGNALED}"

section \<open>Completions\<close>

definition call_poll :: "'e sys \<Rightarrow> cq \<Rightarrow> int \<Rightarrow> ('e world, int \<times> ibv_wc list) prog" where
  "call_poll sys q num = ext_call (ibv_poll_cq (rdma sys) q num) (\<lambda>(rv, wcs). Ev_poll q num rv wcs)"

text \<open>The library stores completions into an array from an index on.\<close>

definition write_wcs :: "ibv_wc list \<Rightarrow> nat \<Rightarrow> ibv_wc list \<Rightarrow> ibv_wc list option" where
  "write_wcs arr i wcs =
     (if i + length wcs \<le> length arr then Some (take i arr @ wcs @ drop (i + length wcs) arr)
      else None)"

datatype wc_check = All_success | Failed_wc | Wc_out_of_bounds

text \<open>The loop that looks for a completion with an error status.\<close>

fun check_wcs :: "ibv_wc list \<Rightarrow> nat list \<Rightarrow> wc_check" where
  "check_wcs arr [] = All_success"
| "check_wcs arr (n # ns) =
     (if length arr \<le> n then Wc_out_of_bounds
      else if wc_status (arr ! n) \<noteq> IBV_WC_SUCCESS then Failed_wc
      else check_wcs arr ns)"

text \<open>One round of the outer loop of \<open>dccs_rdma_send_comp\<close>; the inner loop polls until not 0.\<close>

definition send_comp_round ::
  "'e sys \<Rightarrow> cm_id \<Rightarrow> int \<Rightarrow> int \<times> ibv_wc list
    \<Rightarrow> ('e world, (int \<times> ibv_wc list) + (int \<times> ibv_wc list)) prog" where
  "send_comp_round sys cid num = (\<lambda>(sum, wc_arr).
     if sum < num then
       bindP (retry_zero (call_poll sys (Send_cq cid) num)) (\<lambda>(rv, wcs).
       case write_wcs wc_arr (nat sum) wcs of
         None \<Rightarrow> halt (Fault Out_of_bounds)
       | Some wc_arr \<Rightarrow>
         if rv < 0 then
           thenP (log_error ''ibv_poll_cq() failed, error = %d.\<newline>'') (ret (Inl (-1, wc_arr)))
         else
         bindP (add_int sum rv) (\<lambda>sum'.
         case check_wcs wc_arr [nat sum..<nat sum'] of
             Wc_out_of_bounds \<Rightarrow> halt (Fault Out_of_bounds)
           | Failed_wc \<Rightarrow>
               thenP (log_error ''Failed status %s (%d) for wr_id %d\<newline>'') (ret (Inl (-1, wc_arr)))
           | All_success \<Rightarrow> ret (Inr (sum', wc_arr))))
     else ret (Inl (sum, wc_arr)))"

definition dccs_rdma_send_comp ::
  "'e sys \<Rightarrow> cm_id \<Rightarrow> int \<Rightarrow> ibv_wc list \<Rightarrow> ('e world, int \<times> ibv_wc list) prog" where
  "dccs_rdma_send_comp sys cid num wc_arr = loopP (send_comp_round sys cid num) (0, wc_arr)"

definition dccs_rdma_recv_comp ::
  "'e sys \<Rightarrow> cm_id \<Rightarrow> ibv_wc \<Rightarrow> ('e world, int \<times> ibv_wc) prog" where
  "dccs_rdma_recv_comp sys cid wc =
     bindP (retry_zero (call_poll sys (Recv_cq cid) 1)) (\<lambda>(rv, wcs).
     case write_wcs [wc] 0 wcs of
       None \<Rightarrow> halt (Fault Out_of_bounds)
     | Some arr \<Rightarrow>
       (let wc = hd arr in
        if rv < 0 then
          thenP (log_error ''ibv_poll_cq() failed, error = %d.\<newline>'') (ret (-1, wc))
        else if wc_status wc \<noteq> IBV_WC_SUCCESS then
          thenP (log_error ''Failed status %s (%d) for wr_id %d\<newline>'') (ret (-1, wc))
        else ret (rv, wc)))"

text \<open>
  A \<open>struct ibv_wc\<close> on the stack before the library has written it.  Its content is arbitrary in
  C; under the contract of \<open>ibv_poll_cq\<close> it is never read before it is written.
\<close>

definition fresh_wc :: ibv_wc where
  "fresh_wc = \<lparr>wc_wr_id = 0, wc_status = 0\<rparr>"

section \<open>The interface of registration\<close>

text \<open>
  A registration function hands out the region it returns and nothing else.  Its clients
  register, use the region and deregister it on every path, which leaves the ledger as it was.
\<close>

lemma trades_dereg:
  "region mr \<subseteq># P \<Longrightarrow> trades P (dccs_dereg_mr sys mr) (\<lambda>_. P - region mr)"
proof -
  assume sub: "region mr \<subseteq># P"
  have "trades P (ext_call (rdma_dereg_mr (rdma sys) mr) (Ev_dereg mr)) (\<lambda>_. P - region mr)"
    by (rule trades_conseq [OF trades_ext_call]) (simp_all add: sub)
  then have "trades P (thenP (ext_call (rdma_dereg_mr (rdma sys) mr) (Ev_dereg mr)) (ret ())) (\<lambda>_. P - region mr)"
    by (rule trades_thenP) (simp add: trades_ret)
  then show ?thesis unfolding dccs_dereg_mr_def by (rule trades_if [OF trades_halt])
qed

locale registrar =
  fixes reg :: "('e world, ibv_mr option) prog"
  assumes acquires_region: "trades P reg (\<lambda>mr. P + region mr)"
begin

lemma bracket:
  assumes "\<And>mr Q. trades Q (body mr) (\<lambda>_. Q)"
  shows "trades P (bindP reg (\<lambda>mr. if mr = None then ret a
      else bindP (body mr) (\<lambda>rv. thenP (dccs_dereg_mr sys mr) (ret rv)))) (\<lambda>_. P)"
  by (rule trades_bindP [OF acquires_region] trades_if trades_ret)+
    (rule trades_bindP [OF assms] trades_thenP trades_dereg trades_ret | simp)+

end

lemma trades_reg_call: "trades P (reg_call sys k cid a n) (\<lambda>mr. P + region mr)"
  unfolding reg_call_def by (rule trades_conseq [OF trades_ext_call]) simp_all

lemma trades_reg_log:
  "trades P (bindP (reg_call sys k cid a n) (\<lambda>mr. thenP (whenP (mr = None) (log_perror s)) (ret mr)))
     (\<lambda>mr. P + region mr)"
  by (rule trades_bindP [OF trades_reg_call] trades_thenP trades_whenP trades_log trades_ret
      | rule refl)+

interpretation reg_msgs: registrar "dccs_reg_msgs sys cid a n" for sys cid a n
  by unfold_locales (simp add: dccs_reg_msgs_def trades_reg_log)

interpretation reg_read: registrar "dccs_reg_read sys cid a n" for sys cid a n
  by unfold_locales (simp add: dccs_reg_read_def trades_reg_log)

interpretation reg_write: registrar "dccs_reg_write sys cid a n" for sys cid a n
  by unfold_locales (simp add: dccs_reg_write_def trades_reg_log)

section \<open>The interface of posting\<close>

text \<open>A work request as the queue pair sees it.\<close>

record wr =
  wr_verb :: Verb
  wr_addr :: u64
  wr_len :: u64
  wr_mr :: "ibv_mr option"
  wr_flags :: "send_flag set"
  wr_remote :: "u64 \<times> u32"

fun wr_of :: "event \<Rightarrow> wr list" where
  "wr_of (Ev_post_send i a n mr fl p rv) =
     [\<lparr>wr_verb = Send, wr_addr = a, wr_len = n, wr_mr = mr, wr_flags = fl, wr_remote = (0, 0)\<rparr>]"
| "wr_of (Ev_post_read i a n mr fl ra rk rv) =
     [\<lparr>wr_verb = Read, wr_addr = a, wr_len = n, wr_mr = mr, wr_flags = fl, wr_remote = (ra, rk)\<rparr>]"
| "wr_of (Ev_post_write i a n mr fl ra rk rv) =
     [\<lparr>wr_verb = Write, wr_addr = a, wr_len = n, wr_mr = mr, wr_flags = fl, wr_remote = (ra, rk)\<rparr>]"
| "wr_of _ = []"

definition posted :: "event list \<Rightarrow> wr list" where
  "posted es = concat (map wr_of es)"

lemma posted_append [simp]: "posted (es @ fs) = posted es @ posted fs"
  by (simp add: posted_def)

lemma posted_simps [simp]: "posted [] = []" "posted (e # es) = wr_of e @ posted es"
  by (simp_all add: posted_def)

lemma wr_of_log [simp]: "wr_of (log_entry level fmt) = []"
  by (simp add: log_entry_def)

locale poster =
  fixes post :: "('e world, int) prog" and req :: wr
  assumes keeps: "trades P post (\<lambda>_. P)"
    and posts: "wp post (\<lambda>rv w'. posted (trace w') = posted (trace w) @ [req]) (\<lambda>_ _. False) w"
begin

lemma posts_then:
  assumes "\<And>rv w'. posted (trace w') = posted (trace w) @ [req] \<Longrightarrow> wp (k rv) Q E w'"
  shows "wp (bindP post k) Q E w"
  unfolding wp_bindP using posts [of w] by (rule wp_mono) (use assms in auto)

end

lemma trades_post_log:
  assumes "\<And>r. releases (ev r) = {#}" and "\<And>r. acquires (ev r) = {#}"
  shows "trades P (bindP (ext_call f ev) (\<lambda>rv. thenP (whenP (rv \<noteq> (0 :: int)) (log_perror s)) (ret rv)))
     (\<lambda>_. P)"
  by (rule trades_bindP trades_thenP trades_whenP trades_log trades_ret
      trades_neutral_call [where G = "\<lambda>_. P"] refl assms)+

interpretation post_send: poster "dccs_rdma_send_with_flags sys cid a n mr fl"
    "\<lparr>wr_verb = Send, wr_addr = a, wr_len = n, wr_mr = mr, wr_flags = fl, wr_remote = (0, 0)\<rparr>"
    for sys cid a n mr fl
proof unfold_locales
  fix P
  show "trades P (dccs_rdma_send_with_flags sys cid a n mr fl) (\<lambda>_. P)"
    unfolding dccs_rdma_send_with_flags_def
    by (rule trades_bindP [where H = "\<lambda>_. P"] trades_read_mem trades_post_log refl | simp)+
next
  fix w :: "'a world"
  show "wp (dccs_rdma_send_with_flags sys cid a n mr fl) (\<lambda>rv w'. posted (trace w') =
      posted (trace w) @ [\<lparr>wr_verb = Send, wr_addr = a, wr_len = n, wr_mr = mr, wr_flags = fl,
        wr_remote = (0, 0)\<rparr>]) (\<lambda>_ _. False) w"
    by (simp add: dccs_rdma_send_with_flags_def wp_simps split: prod.split)
qed

interpretation post_read: poster "dccs_rdma_read_with_flags sys cid a n mr ra rk fl"
    "\<lparr>wr_verb = Read, wr_addr = a, wr_len = n, wr_mr = mr, wr_flags = fl, wr_remote = (ra, rk)\<rparr>"
    for sys cid a n mr ra rk fl
  by unfold_locales
    (simp_all add: dccs_rdma_read_with_flags_def trades_post_log wp_simps split: prod.split)

interpretation post_write: poster "dccs_rdma_write_with_flags sys cid a n mr ra rk fl"
    "\<lparr>wr_verb = Write, wr_addr = a, wr_len = n, wr_mr = mr, wr_flags = fl, wr_remote = (ra, rk)\<rparr>"
    for sys cid a n mr ra rk fl
  by unfold_locales
    (simp_all add: dccs_rdma_write_with_flags_def trades_post_log wp_simps split: prod.split)

lemma trades_recv: "trades P (dccs_rdma_recv sys cid a n mr) (\<lambda>_. P)"
  unfolding dccs_rdma_recv_def by (rule trades_post_log) simp_all

lemma trades_send: "trades P (dccs_rdma_send sys cid a n mr) (\<lambda>_. P)"
  unfolding dccs_rdma_send_def by (rule post_send.keeps)

section \<open>Completions: results, bounds, progress\<close>

lemma trades_call_poll: "trades P (call_poll sys q num) (\<lambda>_. P)"
  unfolding call_poll_def by (rule trades_neutral_call) auto

lemma trades_wc_check:
  "trades P a G \<Longrightarrow> trades P b G \<Longrightarrow> trades P c G \<Longrightarrow>
   trades P (case x of All_success \<Rightarrow> a | Failed_wc \<Rightarrow> b | Wc_out_of_bounds \<Rightarrow> c) G"
  by (cases x) simp_all

lemmas comp_trades = trades_bindP trades_thenP trades_case_prod trades_case_option trades_if
  trades_halt trades_ret trades_log trades_wc_check trades_retry_zero trades_call_poll

lemma trades_send_comp_round:
  "trades P (send_comp_round sys cid num s) (\<lambda>x. case x of Inl a \<Rightarrow> P | Inr _ \<Rightarrow> P)"
  unfolding send_comp_round_def add_int_def by (rule comp_trades | simp)+

lemma trades_send_comp: "trades P (dccs_rdma_send_comp sys cid num arr) (\<lambda>_. P)"
  unfolding dccs_rdma_send_comp_def by (rule trades_loopP) (rule trades_send_comp_round)

lemma trades_recv_comp: "trades P (dccs_rdma_recv_comp sys cid wc) (\<lambda>_. P)"
  unfolding dccs_rdma_recv_comp_def Let_def by (rule comp_trades | simp)+

text \<open>The documented contract of \<open>ibv_poll_cq\<close>: at most \<open>num\<close> completions, as many as it says.\<close>

definition poll_contract :: "'e sys \<Rightarrow> bool" where
  "poll_contract sys \<longleftrightarrow> (\<forall>q num e m rv wcs e' m'.
     ibv_poll_cq (rdma sys) q num e m = ((rv, wcs), e', m') \<longrightarrow>
     0 < num \<longrightarrow> rv \<le> num \<and> length wcs = nat rv)"

lemma wp_retry_poll:
  assumes "poll_contract sys" and "0 < num"
  shows "wp (retry_zero (call_poll sys q num))
     (\<lambda>(rv, wcs) _. rv \<noteq> 0 \<and> rv \<le> num \<and> length wcs = nat rv) E w"
  by (rule wp_retry_zero [where I = "\<lambda>_. True"])
    (use assms in \<open>auto simp: call_poll_def wp_simps poll_contract_def split: prod.split\<close>)

lemma wp_retry_poll_nonzero:
  "wp (retry_zero (call_poll sys q num)) (\<lambda>x _. fst x \<noteq> 0) E w"
  by (rule wp_retry_zero [where I = "\<lambda>_. True"])
    (auto simp: call_poll_def wp_simps split: prod.split)

text \<open>Without any assumption on the library, neither completion function returns 0.\<close>

lemma wp_wc_check [wp_simps]:
  "wp (case x of All_success \<Rightarrow> a | Failed_wc \<Rightarrow> b | Wc_out_of_bounds \<Rightarrow> c) Q E w =
     (case x of All_success \<Rightarrow> wp a Q E w | Failed_wc \<Rightarrow> wp b Q E w | Wc_out_of_bounds \<Rightarrow> wp c Q E w)"
  by (cases x) simp_all

lemma send_comp_nonzero:
  assumes "0 < num"
  shows "wp (dccs_rdma_send_comp sys cid num arr) (\<lambda>x _. fst x \<noteq> 0) (\<lambda>_ _. True) w"
  unfolding dccs_rdma_send_comp_def
proof (rule wp_loopP [where I = "\<lambda>s _. 0 \<le> fst s"])
  fix s :: "int \<times> ibv_wc list" and w :: "'a world"
  assume s: "0 \<le> fst s"
  show "wp (send_comp_round sys cid num s)
      (\<lambda>x w'. case x of Inl a \<Rightarrow> fst a \<noteq> 0 | Inr s' \<Rightarrow> 0 \<le> fst s') (\<lambda>_ _. True) w"
    unfolding send_comp_round_def add_int_def using s assms
    by (cases s) (auto simp: wp_simps split: option.split wc_check.split prod.split
        intro!: wp_mono [OF wp_retry_poll_nonzero])
qed simp

lemma recv_comp_nonzero:
  "wp (dccs_rdma_recv_comp sys cid wc) (\<lambda>x _. fst x \<noteq> 0) (\<lambda>_ _. True) w"
  unfolding dccs_rdma_recv_comp_def Let_def
  by (auto simp: wp_simps split: option.split prod.split intro!: wp_mono [OF wp_retry_poll_nonzero])

interpretation send_comp: completion "dccs_rdma_send_comp sys cid 1 arr" for sys cid arr
  by unfold_locales (use wpD [OF send_comp_nonzero] in force)

interpretation recv_comp: completion "dccs_rdma_recv_comp sys cid wc" for sys cid wc
  by unfold_locales (use wpD [OF recv_comp_nonzero] in force)

lemma check_wcs_in_bounds:
  "\<forall>n \<in> set ns. n < length arr \<Longrightarrow> check_wcs arr ns \<noteq> Wc_out_of_bounds"
  by (induction arr ns rule: check_wcs.induct) auto

lemma check_wcs_success:
  "check_wcs arr ns = All_success \<Longrightarrow> n \<in> set ns \<Longrightarrow> wc_status (arr ! n) = IBV_WC_SUCCESS"
  by (induction arr ns rule: check_wcs.induct) (auto split: if_splits)

lemma write_wcs_Some:
  assumes "write_wcs arr i wcs = Some arr'"
  shows "length arr' = length arr" and "n < i \<Longrightarrow> arr' ! n = arr ! n"
  using assms by (auto simp: write_wcs_def nth_append split: if_splits)

definition all_success :: "ibv_wc list \<Rightarrow> int \<Rightarrow> bool" where
  "all_success arr k \<longleftrightarrow> (\<forall>n < nat k. wc_status (arr ! n) = IBV_WC_SUCCESS)"

lemma all_success_extend:
  assumes "all_success arr k" and "write_wcs arr (nat k) wcs = Some arr'"
    and "check_wcs arr' [nat k..<nat (k + rv)] = All_success"
  shows "all_success arr' (k + rv)"
  unfolding all_success_def
proof (intro allI impI)
  fix n assume n: "n < nat (k + rv)"
  show "wc_status (arr' ! n) = IBV_WC_SUCCESS"
  proof (cases "n < nat k")
    case True
    then show ?thesis using assms(1) write_wcs_Some(2) [OF assms(2) True] by (simp add: all_success_def)
  next
    case False
    then show ?thesis using n check_wcs_success [OF assms(3)] by simp
  qed
qed

text \<open>What holds between two rounds, with an array of \<open>L\<close> entries.\<close>

definition comp_inv :: "int \<Rightarrow> nat \<Rightarrow> int \<times> ibv_wc list \<Rightarrow> bool" where
  "comp_inv num L s \<longleftrightarrow> 0 \<le> fst s \<and> fst s < 2 * num \<and> length (snd s) = L \<and> all_success (snd s) (fst s)"

definition comp_post :: "int \<Rightarrow> nat \<Rightarrow> int \<times> ibv_wc list \<Rightarrow> bool" where
  "comp_post num L r \<longleftrightarrow> length (snd r) = L \<and>
     (fst r = -1 \<or> num \<le> fst r \<and> fst r < 2 * num \<and> all_success (snd r) (fst r))"

lemma send_comp_round_bounds:
  assumes contract: "poll_contract sys" and num: "0 < num" "num \<le> 2 ^ 30" and L: "nat (2 * num - 1) \<le> L"
    and inv: "comp_inv num L (k, a)"
  shows "wp (send_comp_round sys cid num (k, a)) (\<lambda>x _. case x of
      Inl r \<Rightarrow> comp_post num L r | Inr s' \<Rightarrow> comp_inv num L s') (\<lambda>_ _. False) w"
proof (cases "k < num")
  case True
  have k: "0 \<le> k" "length a = L" "all_success a k" using inv by (simp_all add: comp_inv_def)
  have round: "wp (case write_wcs a (nat k) wcs of
         None \<Rightarrow> halt (Fault Out_of_bounds)
       | Some wc_arr \<Rightarrow>
         if rv < 0 then
           thenP (log_error ''ibv_poll_cq() failed, error = %d.\<newline>'') (ret (Inl (-1, wc_arr)))
         else
         bindP (add_int k rv) (\<lambda>sum'.
         case check_wcs wc_arr [nat k..<nat sum'] of
             Wc_out_of_bounds \<Rightarrow> halt (Fault Out_of_bounds)
           | Failed_wc \<Rightarrow>
               thenP (log_error ''Failed status %s (%d) for wr_id %d\<newline>'') (ret (Inl (-1, wc_arr)))
           | All_success \<Rightarrow> ret (Inr (sum', wc_arr))))
      (\<lambda>x _. case x of Inl r \<Rightarrow> comp_post num L r | Inr s' \<Rightarrow> comp_inv num L s') (\<lambda>_ _. False) w'"
    if "rv \<le> num" "length wcs = nat rv" for rv wcs w'
  proof -
    from that k L True have "nat k + length wcs \<le> length a" by auto
    then obtain a' where a': "write_wcs a (nat k) wcs = Some a'" by (simp add: write_wcs_def)
    have len: "length a' = L" using write_wcs_Some(1) [OF a'] k by simp
    have "check_wcs a' [nat k..<nat (k + rv)] \<noteq> Wc_out_of_bounds"
      by (rule check_wcs_in_bounds) (use that k L True len in auto)
    moreover have "k + rv < 2 ^ 31" using that(1) True num(2) by simp
    ultimately show ?thesis
      using all_success_extend [OF k(3) a'] a' len k that True
      by (auto simp: wp_simps comp_post_def comp_inv_def split: wc_check.split)
  qed
  show ?thesis
    unfolding send_comp_round_def prod.case using True
    by (auto simp: wp_bindP intro!: wp_mono [OF wp_retry_poll [OF contract num(1)]] round)
next
  case False
  then show ?thesis using inv by (simp add: send_comp_round_def wp_simps comp_inv_def comp_post_def)
qed

lemma send_comp_bounds_wp:
  assumes "poll_contract sys" and num: "0 < num" "num \<le> 2 ^ 30" and "nat (2 * num - 1) \<le> length arr"
  shows "wp (dccs_rdma_send_comp sys cid num arr) (\<lambda>r _. comp_post num (length arr) r)
     (\<lambda>_ _. False) w"
  unfolding dccs_rdma_send_comp_def
proof (rule wp_loopP [where I = "\<lambda>s _. comp_inv num (length arr) s"])
  fix s :: "int \<times> ibv_wc list" and w :: "'a world"
  assume "comp_inv num (length arr) s"
  then show "wp (send_comp_round sys cid num s) (\<lambda>x w'. case x of
      Inl r \<Rightarrow> comp_post num (length arr) r | Inr s' \<Rightarrow> comp_inv num (length arr) s') (\<lambda>_ _. False) w"
    using send_comp_round_bounds [OF assms, of "fst s" "snd s"] by simp
qed (use num in \<open>simp add: comp_inv_def all_success_def\<close>)

text \<open>
  Progress.  The queue is ready when polling it over and over gives something other than 0 at
  last; exactly then the polling loop ends.
\<close>

inductive poll_ready :: "'e sys \<Rightarrow> cq \<Rightarrow> int \<Rightarrow> 'e \<Rightarrow> mem \<Rightarrow> bool" for sys q num where
  ready_now: "ibv_poll_cq (rdma sys) q num e m = ((rv, wcs), e', m') \<Longrightarrow> rv \<noteq> 0 \<Longrightarrow>
     poll_ready sys q num e m"
| ready_later: "ibv_poll_cq (rdma sys) q num e m = ((0, wcs), e', m') \<Longrightarrow>
     poll_ready sys q num e' m' \<Longrightarrow> poll_ready sys q num e m"

lemma retry_zero_unfold:
  "retry_zero m = bindP m (\<lambda>x. if fst x = 0 then retry_zero m else ret x)"
  unfolding retry_zero_def
  by (subst loopP_unfold, rule ext) (auto simp: bindP_def ret_def split: option.split res.split)

lemma poll_ready_returns:
  assumes "poll_ready sys q num e m" and "env w = e" and "mem w = m"
  shows "returns (retry_zero (call_poll sys q num)) (\<lambda>_ _. True) w"
  using assms
proof (induction arbitrary: w rule: poll_ready.induct)
  case (ready_now e m rv wcs e' m')
  then show ?case by (subst retry_zero_unfold) (simp add: returns_bindP call_poll_def wp_simps)
next
  case (ready_later e m wcs e' m')
  then show ?case
    by (subst retry_zero_unfold) (simp add: returns_bindP call_poll_def wp_simps)
qed

lemma not_poll_ready_diverges:
  assumes "\<not> poll_ready sys q num (env w) (mem w)"
  shows "wp (retry_zero (call_poll sys q num)) (\<lambda>_ _. False) (\<lambda>_ _. False) w"
  by (rule wp_retry_zero [where I = "\<lambda>w. \<not> poll_ready sys q num (env w) (mem w)"])
    (use assms in \<open>auto simp: call_poll_def wp_simps split: prod.split intro: poll_ready.intros\<close>)

lemma retry_poll_returns_iff:
  "retry_zero (call_poll sys q num) w \<noteq> None \<longleftrightarrow> poll_ready sys q num (env w) (mem w)"
proof
  assume "poll_ready sys q num (env w) (mem w)"
  then show "retry_zero (call_poll sys q num) w \<noteq> None"
    using poll_ready_returns [of sys q num "env w" "mem w" w] by (auto simp: returns_iff)
next
  assume "retry_zero (call_poll sys q num) w \<noteq> None"
  then obtain r w' where "retry_zero (call_poll sys q num) w = Some (r, w')" by auto
  then show "poll_ready sys q num (env w) (mem w)"
    using not_poll_ready_diverges [of sys q num w] by (cases r) (auto simp: wp_def)
qed

text \<open>Waiting for one completion with room for one ends as soon as the queue is ready.\<close>

lemma returns_wp: "returns m (\<lambda>_ _. True) w \<Longrightarrow> wp m Q E w \<Longrightarrow> returns m Q w"
  by (auto simp: returns_def wp_def split: option.splits res.splits)

lemma poll_one_returns:
  assumes "poll_contract sys" and "poll_ready sys q 1 (env w) (mem w)"
  shows "returns (retry_zero (call_poll sys q 1))
     (\<lambda>(rv, wcs) _. rv < 0 \<and> wcs = [] \<or> rv = 1 \<and> (\<exists>x. wcs = [x])) w"
proof -
  have "rv < 0 \<and> wcs = [] \<or> rv = 1 \<and> (\<exists>x. wcs = [x])"
    if "rv \<noteq> 0" "rv \<le> 1" "length wcs = nat rv" for rv and wcs :: "ibv_wc list"
  proof (cases "rv < 0")
    case False
    with that have "rv = 1" by simp
    with that show ?thesis by (simp add: length_Suc_conv)
  qed (use that in simp)
  moreover have "returns (retry_zero (call_poll sys q 1))
      (\<lambda>(rv, wcs) _. rv \<noteq> 0 \<and> rv \<le> 1 \<and> length wcs = nat rv) w"
    by (rule returns_wp, rule poll_ready_returns [OF assms(2) refl refl],
        rule wp_retry_poll [OF assms(1)]) simp
  ultimately show ?thesis by (auto elim!: returns_mono)
qed

lemma send_comp_round_one_returns:
  assumes "poll_contract sys" and "poll_ready sys (Send_cq cid) 1 (env w) (mem w)"
  shows "returns (send_comp_round sys cid 1 (0, [wc]))
     (\<lambda>x _. case x of Inl _ \<Rightarrow> True | Inr s' \<Rightarrow> 1 \<le> fst s') w"
proof -
  from poll_one_returns [OF assms] show ?thesis
    unfolding send_comp_round_def
    by (auto simp: wp_simps write_wcs_def elim!: returns_mono)
qed

lemma send_comp_one_returns:
  assumes "poll_contract sys" and "poll_ready sys (Send_cq cid) 1 (env w) (mem w)"
  shows "returns (dccs_rdma_send_comp sys cid 1 [wc]) (\<lambda>r _. comp_post 1 1 r) w"
proof (rule returns_wp)
  show "returns (dccs_rdma_send_comp sys cid 1 [wc]) (\<lambda>_ _. True) w"
    unfolding dccs_rdma_send_comp_def
    by (subst loopP_unfold, unfold returns_bindP, rule returns_mono [OF send_comp_round_one_returns [OF assms]])
      (auto simp: wp_simps send_comp_round_def loopP_unfold [of _ "(_, _)"] split: sum.splits)
next
  show "wp (dccs_rdma_send_comp sys cid 1 [wc]) (\<lambda>r _. comp_post 1 1 r) (\<lambda>_ _. False) w"
    using send_comp_bounds_wp [OF assms(1), of 1 "[wc]" cid w] by simp
qed

lemma recv_comp_returns:
  assumes "poll_contract sys" and "poll_ready sys (Recv_cq cid) 1 (env w) (mem w)"
  shows "returns (dccs_rdma_recv_comp sys cid wc) (\<lambda>r _. fst r = 1 \<or> fst r = -1) w"
proof -
  from poll_one_returns [OF assms] show ?thesis
    unfolding dccs_rdma_recv_comp_def
    by (auto simp: wp_simps write_wcs_def elim!: returns_mono)
qed

section \<open>Traces of the operations\<close>

lemma grows_reg:
  "grows (dccs_reg_msgs sys cid a n)" "grows (dccs_reg_read sys cid a n)"
  "grows (dccs_reg_write sys cid a n)" "grows (dccs_dereg_mr sys mr)"
  unfolding dccs_reg_msgs_def dccs_reg_read_def dccs_reg_write_def dccs_dereg_mr_def reg_call_def
  by (intro grows_intros grows_log)+

lemma grows_post:
  "grows (dccs_rdma_send_with_flags sys cid a n mr fl)" "grows (dccs_rdma_recv sys cid a n mr)"
  "grows (dccs_rdma_read_with_flags sys cid a n mr ra rk fl)"
  "grows (dccs_rdma_write_with_flags sys cid a n mr ra rk fl)"
  unfolding dccs_rdma_send_with_flags_def dccs_rdma_recv_def dccs_rdma_read_with_flags_def
    dccs_rdma_write_with_flags_def
  by (intro grows_intros grows_log)+

lemma grows_wc_check:
  "grows a \<Longrightarrow> grows b \<Longrightarrow> grows c \<Longrightarrow>
   grows (case x of All_success \<Rightarrow> a | Failed_wc \<Rightarrow> b | Wc_out_of_bounds \<Rightarrow> c)"
  by (cases x) simp_all

lemma grows_comp:
  "grows (dccs_rdma_send_comp sys cid num arr)" "grows (dccs_rdma_recv_comp sys cid wc)"
  unfolding dccs_rdma_send_comp_def dccs_rdma_recv_comp_def send_comp_round_def add_int_def call_poll_def Let_def
  by (intro grows_intros grows_log grows_wc_check)+

lemma total_ops:
  "total (dccs_reg_msgs sys cid a n)" "total (dccs_reg_read sys cid a n)"
  "total (dccs_reg_write sys cid a n)" "total (dccs_dereg_mr sys mr)"
  "total (dccs_rdma_send_with_flags sys cid a n mr fl)" "total (dccs_rdma_recv sys cid a n mr)"
  "total (dccs_rdma_read_with_flags sys cid a n mr ra rk fl)"
  "total (dccs_rdma_write_with_flags sys cid a n mr ra rk fl)"
  unfolding dccs_reg_msgs_def dccs_reg_read_def dccs_reg_write_def dccs_dereg_mr_def reg_call_def
    dccs_rdma_send_with_flags_def dccs_rdma_recv_def dccs_rdma_read_with_flags_def
    dccs_rdma_write_with_flags_def
  by (intro total_intros total_calls total_log)+

lemma total_wc_check:
  "total a \<Longrightarrow> total b \<Longrightarrow> total c \<Longrightarrow>
   total (case x of All_success \<Rightarrow> a | Failed_wc \<Rightarrow> b | Wc_out_of_bounds \<Rightarrow> c)"
  by (cases x) simp_all

lemma send_comp_round_returns:
  assumes C: "poll_contract sys" and ready: "\<And>e m. poll_ready sys (Send_cq cid) num e m"
    and num: "0 < num" "num \<le> 2 ^ 30" and L: "nat (2 * num - 1) \<le> L" and inv: "comp_inv num L (k, a)"
  shows "returns (send_comp_round sys cid num (k, a)) (\<lambda>x _. case x of
      Inl r \<Rightarrow> comp_post num L r | Inr s' \<Rightarrow> comp_inv num L s' \<and> nat (2 * num - fst s') < nat (2 * num - k)) w"
proof -
  have "retry_zero (call_poll sys (Send_cq cid) num) w \<noteq> None" for w
    using ready by (simp only: retry_poll_returns_iff)
  then have "total (send_comp_round sys cid num (k, a))"
    unfolding send_comp_round_def add_int_def
    by (intro total_intros total_log total_wc_check) (simp add: total_def)
  moreover have "wp (send_comp_round sys cid num (k, a))
      (\<lambda>x _. case x of Inl r \<Rightarrow> True | Inr s' \<Rightarrow> k < fst s' \<and> k < num) (\<lambda>_ _. True) w"
    unfolding send_comp_round_def add_int_def
    by (auto simp: wp_simps split: option.split wc_check.split prod.split
      intro!: wp_mono [OF wp_retry_poll_nonzero])
  from wp_conj [OF send_comp_round_bounds [OF C num L inv] this]
  have "wp (send_comp_round sys cid num (k, a)) (\<lambda>x _. case x of
      Inl r \<Rightarrow> comp_post num L r | Inr s' \<Rightarrow> comp_inv num L s' \<and> nat (2 * num - fst s') < nat (2 * num - k))
      (\<lambda>_ _. False) w"
    by (rule wp_mono) (use num in \<open>auto split: sum.splits\<close>)
  ultimately show ?thesis by (rule total_returns)
qed

lemma send_comp_returns:
  assumes C: "poll_contract sys" and ready: "\<And>e m. poll_ready sys (Send_cq cid) num e m"
    and num: "0 < num" "num \<le> 2 ^ 30" and L: "nat (2 * num - 1) \<le> length arr"
  shows "returns (dccs_rdma_send_comp sys cid num arr) (\<lambda>r _. comp_post num (length arr) r) w"
  unfolding dccs_rdma_send_comp_def
proof (rule returns_loopP [where R = "measure (\<lambda>(s, w). nat (2 * num - fst s))"
      and I = "\<lambda>s _. comp_inv num (length arr) s"])
  fix s :: "int \<times> ibv_wc list" and w :: "'a world"
  assume "comp_inv num (length arr) s"
  then have "comp_inv num (length arr) (fst s, snd s)" by simp
  from send_comp_round_returns [OF C ready num L this, of w] show "returns (send_comp_round sys cid num s) (\<lambda>x w'. case x of
      Inl r \<Rightarrow> comp_post num (length arr) r
    | Inr s' \<Rightarrow> comp_inv num (length arr) s' \<and> ((s', w'), (s, w)) \<in> measure (\<lambda>(s, w). nat (2 * num - fst s))) w"
    unfolding prod.collapse by (rule returns_mono) (auto split: sum.splits)
qed (use num in \<open>simp_all add: comp_inv_def all_success_def\<close>)

lemma recv_comp_returns_iff:
  "dccs_rdma_recv_comp sys cid wc w \<noteq> None \<longleftrightarrow> poll_ready sys (Recv_cq cid) 1 (env w) (mem w)"
proof -
  have rest: "bindP m f w = None \<longleftrightarrow> m w = None" if "\<And>x. total (f x)" for m :: "('a world, int \<times> ibv_wc list) prog"
     and f :: "_ \<Rightarrow> ('a world, int \<times> ibv_wc) prog"
    using that by (auto simp: bindP_def total_def split: option.split res.split)
  show ?thesis
    unfolding dccs_rdma_recv_comp_def Let_def
    by (subst rest) (intro total_intros total_log, simp only: retry_poll_returns_iff)
qed

section \<open>Calls that fail\<close>

fun failed_event :: "event \<Rightarrow> bool" where
  "failed_event (Ev_post_send i a n mr fl p rv) = (rv \<noteq> 0)"
| "failed_event (Ev_post_recv i a n mr rv) = (rv \<noteq> 0)"
| "failed_event (Ev_post_read i a n mr fl ra rk rv) = (rv \<noteq> 0)"
| "failed_event (Ev_post_write i a n mr fl ra rk rv) = (rv \<noteq> 0)"
| "failed_event (Ev_poll q num rv wcs) = (rv < 0 \<or> list_ex (\<lambda>wc. wc_status wc \<noteq> IBV_WC_SUCCESS) wcs)"
| "failed_event _ = False"

fun failed_reg :: "event \<Rightarrow> bool" where
  "failed_reg (Ev_reg k i a n mr) = (mr = None)"
| "failed_reg _ = False"

definition failed_call :: "event \<Rightarrow> bool" where
  "failed_call e \<longleftrightarrow> failed_event e \<or> failed_reg e"

text \<open>Between two worlds a fact holds, unless a call failed in between.\<close>

definition excused :: "'e world \<Rightarrow> 'e world \<Rightarrow> bool \<Rightarrow> bool" where
  "excused w w' b \<longleftrightarrow> (\<exists>es. trace w' = trace w @ es \<and> (b \<or> list_ex failed_call es))"

lemma excused_refl: "excused w w True"
  by (simp add: excused_def)

lemma excused_first: "excused w w1 b \<Longrightarrow> excused w1 w2 c \<Longrightarrow> excused w w2 b"
  by (fastforce simp: excused_def)

lemma excused_last: "excused w w1 b \<Longrightarrow> excused w1 w2 c \<Longrightarrow> excused w w2 c"
  by (fastforce simp: excused_def)

lemma excused_call: "trace w' = trace w @ [e] \<Longrightarrow> (b \<or> failed_call e) \<Longrightarrow> excused w w' b"
  by (auto simp: excused_def)

section \<open>The concrete environment\<close>

lemma test_poll_contract: "poll_contract (test_sys e)"
  by (auto simp: poll_contract_def test_defs Let_def split: list.splits cq.splits if_splits)

lemma test_poll_ready: "poll_ready (test_sys en) q 1 e m"
proof (induction "t_polls e" arbitrary: e m)
  case (Nil e m)
  have "fst (fst (ibv_poll_cq (rdma (test_sys en)) q 1 e m)) = 1"
    using Nil by (auto simp: test_sys_def test_rdma_def test_poll_def Let_def split: list.splits cq.splits)
  then show ?case by (cases "ibv_poll_cq (rdma (test_sys en)) q 1 e m") (auto intro: poll_ready.ready_now)
next
  case (Cons k ks e m)
  have polls: "t_polls (fst (snd (ibv_poll_cq (rdma (test_sys en)) q 1 e m))) = ks"
    using Cons.hyps(2) [symmetric]
    by (auto simp: test_sys_def test_rdma_def test_poll_def Let_def split: list.splits cq.splits)
  obtain rv wcs e' m' where poll: "ibv_poll_cq (rdma (test_sys en)) q 1 e m = ((rv, wcs), e', m')"
    by (metis prod.collapse)
  show ?case
  proof (cases "rv = 0")
    case True
    then show ?thesis using poll polls Cons.hyps(1) by (auto intro: poll_ready.ready_later)
  qed (use poll in \<open>auto intro: poll_ready.ready_now\<close>)
qed

lemma test_send_poll:
  assumes "t_polls (env w) = []"
  shows "returns (retry_zero (call_poll (test_sys e) (Send_cq c) 1)) R w =
     R (1, [ok_wc]) (w\<lparr>trace := trace w @ [Ev_poll (Send_cq c) 1 1 [ok_wc]]\<rparr>)"
proof -
  have eq: "w\<lparr>env := env w\<lparr>t_polls := []\<rparr>, trace := t\<rparr> = w\<lparr>trace := t\<rparr>" for t
    using assms by simp
  show ?thesis
    by (subst retry_zero_unfold, simp add: wp_simps call_poll_def test_defs ok_wc_def assms, simp only: eq)
qed

lemma test_send_comp:
  assumes "t_polls (env w) = []"
  shows "returns (dccs_rdma_send_comp (test_sys e) c 1 [wc]) Q w =
     Q (1, [ok_wc]) (w\<lparr>trace := trace w @ [Ev_poll (Send_cq c) 1 1 [ok_wc]]\<rparr>)"
  unfolding dccs_rdma_send_comp_def
  by (subst loopP_unfold, simp add: returns_bindP, subst send_comp_round_def,
      simp add: returns_bindP test_send_poll [OF assms] write_wcs_def ok_wc_def IBV_WC_SUCCESS_def add_int_ret returns_ret,
      subst loopP_unfold, simp add: send_comp_round_def wp_simps)


lemma test_recv_poll:
  assumes "t_polls (env w) = []" and "t_recvs (env w) = a # as" and "t_inbox (env w) = msg # msgs"
  shows "returns (retry_zero (call_poll (test_sys e) (Recv_cq c) 1)) R w =
     R (1, [ok_wc]) (w\<lparr>env := env w\<lparr>t_polls := [], t_recvs := as, t_inbox := msgs\<rparr>,
       mem := store_bytes (mem w) a msg, trace := trace w @ [Ev_poll (Recv_cq c) 1 1 [ok_wc]]\<rparr>)"
  by (subst retry_zero_unfold) (simp add: wp_simps call_poll_def test_defs ok_wc_def assms)

lemma test_recv_comp:
  assumes "t_polls (env w) = []" and "t_recvs (env w) = a # as" and "t_inbox (env w) = msg # msgs"
  shows "returns (dccs_rdma_recv_comp (test_sys e) c wc) Q w =
     Q (1, ok_wc) (w\<lparr>env := env w\<lparr>t_polls := [], t_recvs := as, t_inbox := msgs\<rparr>,
       mem := store_bytes (mem w) a msg, trace := trace w @ [Ev_poll (Recv_cq c) 1 1 [ok_wc]]\<rparr>)"
  unfolding dccs_rdma_recv_comp_def
  by (simp add: returns_bindP test_recv_poll [OF assms] write_wcs_def ok_wc_def IBV_WC_SUCCESS_def returns_ret)

lemma test_poll_script:
  assumes "t_polls (env w) = k # ks" and "k \<noteq> 0" and "k \<le> num"
  shows "retry_zero (call_poll (test_sys e) (Send_cq c) num) w =
     Some (Ret (k, replicate (nat k) ok_wc), w\<lparr>env := env w\<lparr>t_polls := ks\<rparr>,
       trace := trace w @ [Ev_poll (Send_cq c) num k (replicate (nat k) ok_wc)]\<rparr>)"
  using assms
  by (subst retry_zero_unfold)
    (simp add: bindP_def ret_def call_poll_def ext_call_def test_defs ok_wc_def min_def)

section \<open>Properties\<close>

text \<open>
  C15. Waiting for \<open>num\<close> completions, at most \<open>2^30\<close> so that the sum of two replies is an \<open>int\<close>, into an
  array with room for \<open>2 * num - 1\<close> entries returns
  whenever the queue always becomes ready, never writes or reads outside the array, and gives
  either -1 or a number of completions that is at least \<open>num\<close>, less than \<open>2 * num\<close> and all of
  which the array records with the status of success.
\<close>

theorem send_comp_within_bounds:
  assumes "poll_contract sys" and "\<And>e m. poll_ready sys (Send_cq cid) num e m"
    and "0 < num" and "num \<le> 2 ^ 30" and "nat (2 * num - 1) \<le> length arr"
  shows "returns (dccs_rdma_send_comp sys cid num arr) (\<lambda>(rv, arr') _.
     length arr' = length arr \<and>
     (rv = -1 \<or> num \<le> rv \<and> rv < 2 * num \<and>
        (\<forall>n < nat rv. wc_status (arr' ! n) = IBV_WC_SUCCESS))) w"
  by (rule returns_mono [OF send_comp_returns [OF assms]]) (auto simp: comp_post_def all_success_def)

theorem send_comp_within_bounds_witness:
  "returns (dccs_rdma_send_comp (test_sys Little_endian) 5 1 [ok_wc]) (\<lambda>(rv, arr') _.
     length arr' = 1 \<and> (rv = -1 \<or> rv = 1 \<and> wc_status (arr' ! 0) = IBV_WC_SUCCESS)) world0"
proof -
  have "returns (dccs_rdma_send_comp (test_sys Little_endian) 5 1 [ok_wc]) (\<lambda>(rv, arr') _.
     length arr' = 1 \<and> (rv = -1 \<or> 1 \<le> rv \<and> rv < 2 \<and>
       (\<forall>n < nat rv. wc_status (arr' ! n) = IBV_WC_SUCCESS))) world0"
    using send_comp_within_bounds [OF test_poll_contract test_poll_ready, of "[ok_wc]"] by simp
  then show ?thesis by (rule returns_mono) force
qed

text \<open>
  C34. The array has to be that large: each poll asks for \<open>num\<close> completions again and stores them
  behind those it already has.  Whatever \<open>num\<close>, with an array of \<open>num\<close> entries and a NIC that first reports
  some of the completions and then more than are missing (up to \<open>num\<close>, as its documentation
  allows), the second poll writes past the end of the array.
\<close>

theorem send_comp_overrun:
  assumes "ibv_poll_cq (rdma sys) (Send_cq cid) num (env w) (mem w) = ((a, wcs), e', m')"
    and "ibv_poll_cq (rdma sys) (Send_cq cid) num e' m' = ((b, wcs'), e'', m'')"
    and "0 < a" and "a < num" and "num < a + b" and "num < 2 ^ 31"
    and "length arr = nat num" and "length wcs = nat a" and "length wcs' = nat b"
    and "\<forall>wc \<in> set wcs. wc_status wc = IBV_WC_SUCCESS"
  shows "\<exists>w'. dccs_rdma_send_comp sys cid num arr w = Some (Stop (Fault Out_of_bounds), w')"
proof -
  let ?w1 = "w\<lparr>env := e', mem := m', trace := trace w @ [Ev_poll (Send_cq cid) num a wcs]\<rparr>"
  let ?w2 = "?w1\<lparr>env := e'', mem := m'', trace := trace ?w1 @ [Ev_poll (Send_cq cid) num b wcs']\<rparr>"
  let ?arr = "wcs @ drop (nat a) arr"
  have first: "retry_zero (call_poll sys (Send_cq cid) num) w = Some (Ret (a, wcs), ?w1)"
    by (subst retry_zero_unfold) (use assms(1,3) in \<open>simp add: bindP_def ret_def call_poll_def ext_call_def\<close>)
  have second: "retry_zero (call_poll sys (Send_cq cid) num) ?w1 = Some (Ret (b, wcs'), ?w2)"
    by (subst retry_zero_unfold) (use assms(2,4,5) in \<open>simp add: bindP_def ret_def call_poll_def ext_call_def\<close>)
  have fits: "write_wcs arr 0 wcs = Some ?arr"
    using assms(4,7,8) by (simp add: write_wcs_def)
  have over: "write_wcs ?arr (nat a) wcs' = None"
    using assms(3-5,7-9) by (simp add: write_wcs_def)
  have "check_wcs ?arr ns = All_success" if "\<forall>n \<in> set ns. n < nat a" for ns
    using that assms(8,10) by (induction ns) (auto simp: nth_append)
  then have ok: "check_wcs ?arr [0..<nat a] = All_success" by simp
  have add: "add_int 0 a = ret a" using assms(3,4,6) add_int_ret [of 0 a] by simp
  have "send_comp_round sys cid num (0, arr) w = Some (Ret (Inr (a, ?arr)), ?w1)"
    using assms(3,4) by (simp add: send_comp_round_def bindP_def first fits add ok ret_def)
  moreover have "send_comp_round sys cid num (a, ?arr) ?w1 = Some (Stop (Fault Out_of_bounds), ?w2)"
    using assms(4) by (simp add: send_comp_round_def bindP_def second over halt_def)
  ultimately show ?thesis
    unfolding dccs_rdma_send_comp_def
    by (subst loopP.simps, simp add: bindP_def, subst loopP.simps, simp add: bindP_def)
qed

theorem send_comp_overrun_witness:
  "\<exists>w'. dccs_rdma_send_comp (test_sys Little_endian) 5 3 [ok_wc, ok_wc, ok_wc]
     (world0\<lparr>env := env0\<lparr>t_polls := [1, 3]\<rparr>\<rparr>) = Some (Stop (Fault Out_of_bounds), w')"
  by (rule send_comp_overrun [where a = 1 and wcs = "[ok_wc]" and b = 3 and wcs' = "[ok_wc, ok_wc, ok_wc]"])
    (auto simp: test_defs ok_wc_def IBV_WC_SUCCESS_def numeral_3_eq_3)

text \<open>
  C35. The loop in which every caller wraps a completion function, \<open>while ((rv = comp(..)) == 0);\<close>,
  runs its body exactly once: neither function ever returns 0.
\<close>

theorem completion_loops_run_once:
  "retry_zero (dccs_rdma_send_comp sys cid 1 arr) = dccs_rdma_send_comp sys cid 1 arr \<and>
   retry_zero (dccs_rdma_recv_comp sys cid wc) = dccs_rdma_recv_comp sys cid wc"
  by (simp add: send_comp.retry_once recv_comp.retry_once)

text \<open>
  C36. Waiting for a receive completion ends exactly when polling the receive queue over and over
  gives something other than 0 at last; there is no timeout.
\<close>

theorem recv_comp_ends_iff_ready:
  "dccs_rdma_recv_comp sys cid wc w \<noteq> None \<longleftrightarrow> poll_ready sys (Recv_cq cid) 1 (env w) (mem w)"
  by (rule recv_comp_returns_iff)

end
