(* ===== verification/Rdma_Buffers.thy ===== *)
theory Rdma_Buffers
  imports Rdma_Ops
begin

text \<open>
  Allocation and deallocation of the request buffers (\<open>allocate_buffer\<close>, \<open>deallocate_buffer\<close> of
  \<open>dccs_rdma.h\<close>).  The requests are cut into groups of \<open>count / mr_count\<close>; each group shares one
  heap block and one memory region, and request \<open>n\<close> uses the \<open>n mod (count / mr_count)\<close>-th slice.

  The lemmas show that layout, that every slice lies inside the region registered for its group
  when the sizes do not overflow, and that deallocation gives back exactly what allocation took.
  The array of requests is a list; an index past its end is the fault \<open>Out_of_bounds\<close>, and the
  division and the remainder by a zero \<open>count_per_mr\<close> are the fault \<open>Div_by_zero\<close>.
\<close>

section \<open>The functions of the source\<close>

text \<open>The \<open>switch\<close> over the verb; an unknown verb leaves \<open>mr\<close> as it is.\<close>

definition register_for ::
  "'e sys \<Rightarrow> Verb \<Rightarrow> cm_id \<Rightarrow> u64 \<Rightarrow> u64 \<Rightarrow> ibv_mr option \<Rightarrow> ('e world, ibv_mr option) prog" where
  "register_for sys verb cid buf_base buffer_length mr = (case verb of
      Send \<Rightarrow> dccs_reg_msgs sys cid buf_base buffer_length
    | Read \<Rightarrow> dccs_reg_read sys cid buf_base buffer_length
    | Write \<Rightarrow> dccs_reg_write sys cid buf_base buffer_length
    | None_verb \<Rightarrow> thenP (log_error ''Unrecognized verb %d.\<newline>'') (ret mr))"

text \<open>What the loop does at the first request of a group.\<close>

definition alloc_group ::
  "'e sys \<Rightarrow> Verb \<Rightarrow> cm_id \<Rightarrow> u64 \<Rightarrow> ibv_mr option \<Rightarrow> ('e world, ibv_mr option \<times> u64) prog" where
  "alloc_group sys verb cid buffer_length mr =
     bindP (malloc_random sys buffer_length) (\<lambda>buf_base.
     bindP (register_for sys verb cid buf_base buffer_length mr) (\<lambda>mr.
     ret (mr, buf_base)))"

definition alloc_step ::
  "'e sys \<Rightarrow> Verb \<Rightarrow> cm_id \<Rightarrow> u64 \<Rightarrow> u64 \<Rightarrow> nat \<Rightarrow> ibv_mr option \<times> u64 \<times> dccs_request list
    \<Rightarrow> ('e world, ibv_mr option \<times> u64 \<times> dccs_request list) prog" where
  "alloc_step sys verb cid len count_per_mr n = (\<lambda>(mr, buf_base, requests).
     if count_per_mr = 0 then halt (Fault Div_by_zero) else
     (let offset = of_nat n mod count_per_mr in
      bindP (if offset = 0 then alloc_group sys verb cid (count_per_mr * len) mr
             else ret (mr, buf_base)) (\<lambda>(mr, buf_base).
      if length requests \<le> n then halt (Fault Out_of_bounds) else
      ret (mr, buf_base, requests[n := (requests ! n)\<lparr>rq_verb := verb,
         rq_buf := buf_base + offset * len, rq_length := len, rq_mr := mr\<rparr>]))))"

definition allocate_buffer ::
  "'e sys \<Rightarrow> cm_id \<Rightarrow> dccs_request list \<Rightarrow> dccs_parameters
    \<Rightarrow> ('e world, int \<times> dccs_request list) prog" where
  "allocate_buffer sys cid requests params =
     (if p_mr_count params = 0 then halt (Fault Div_by_zero) else
      bindP (forP [0..<unat (p_count params)]
               (alloc_step sys (p_verb params) cid (p_length params)
                  (p_count params div p_mr_count params))
               (None, 0, requests)) (\<lambda>(mr, buf_base, requests).
      ret (0, requests)))"

definition dealloc_step ::
  "'e sys \<Rightarrow> u64 \<Rightarrow> dccs_request list \<Rightarrow> nat \<Rightarrow> unit \<Rightarrow> ('e world, unit) prog" where
  "dealloc_step sys count_per_mr requests n _ =
     (if count_per_mr = 0 then halt (Fault Div_by_zero)
      else if of_nat n mod count_per_mr \<noteq> 0 then ret ()
      else if length requests \<le> n then halt (Fault Out_of_bounds)
      else thenP (dccs_dereg_mr sys (rq_mr (requests ! n)))
          (call_free sys (rq_buf (requests ! n))))"

definition deallocate_buffer ::
  "'e sys \<Rightarrow> dccs_request list \<Rightarrow> dccs_parameters \<Rightarrow> ('e world, unit) prog" where
  "deallocate_buffer sys requests params =
     (if p_mr_count params = 0 then halt (Fault Div_by_zero) else
      forP [0..<unat (p_count params)]
        (dealloc_step sys (p_count params div p_mr_count params) requests) ())"

section \<open>What a group holds\<close>

text \<open>The resources of the groups that start before index \<open>i\<close>, in groups of \<open>c\<close>.\<close>

fun group_resources :: "nat \<Rightarrow> dccs_request list \<Rightarrow> nat \<Rightarrow> resource multiset" where
  "group_resources c reqs 0 = {#}"
| "group_resources c reqs (Suc n) = group_resources c reqs n +
     (if n mod c = 0 then heap_block (rq_buf (reqs ! n)) + region (rq_mr (reqs ! n)) else {#})"

lemma group_resources_cong:
  "(\<And>n. n < i \<Longrightarrow> rq_buf (xs ! n) = rq_buf (ys ! n) \<and> rq_mr (xs ! n) = rq_mr (ys ! n)) \<Longrightarrow>
   group_resources c xs i = group_resources c ys i"
  by (induction i) auto

lemma group_resources_update:
  "i \<le> n \<Longrightarrow> group_resources c (reqs[n := r]) i = group_resources c reqs i"
  by (rule group_resources_cong) simp

lemma unat_of_nat_mod:
  fixes c :: u64
  assumes "n < 2 ^ 64"
  shows "unat (of_nat n mod c) = n mod unat c"
  using assms by (simp add: unat_mod unat_of_nat)

lemma of_nat_mod_eq_0:
  fixes c :: u64
  assumes "n < 2 ^ 64"
  shows "of_nat n mod c = 0 \<longleftrightarrow> n mod unat c = 0"
  using unat_of_nat_mod [OF assms, of c] by (metis unat_eq_zero)

lemma of_nat_mod_word:
  fixes c :: u64
  assumes "n < 2 ^ 64"
  shows "of_nat n mod c = of_nat (n mod unat c)"
proof -
  have "n mod unat c < 2 ^ 64" using assms by (meson le_less_trans mod_less_eq_dividend)
  then show ?thesis
    using unat_of_nat_mod [OF assms, of c] by (simp add: word_unat_eq_iff unat_of_nat)
qed

lemma div_nonzero: "(a :: u64) div b \<noteq> 0 \<Longrightarrow> b \<noteq> 0"
  by (metis word_div_def unsigned_0 div_by_0 of_int_0)

section \<open>Deallocation\<close>

lemma dealloc_step_trades:
  assumes "n < 2 ^ 64"
  shows "trades (if n mod unat c = 0 then heap_block (rq_buf (reqs ! n)) + region (rq_mr (reqs ! n)) else {#})
     (dealloc_step sys c reqs n u) (\<lambda>_. {#})"
  unfolding dealloc_step_def of_nat_mod_eq_0 [OF assms]
  by (rule trades_if trades_halt trades_ret trades_thenP trades_dereg trades_conseq [OF trades_call_free]
      | simp)+

lemma dealloc_loop_trades:
  assumes "k \<le> 2 ^ 64"
  shows "trades (group_resources (unat c) reqs k)
     (forP [0..<k] (dealloc_step sys c reqs) ()) (\<lambda>_. {#})"
  unfolding trades_def
proof (intro allI impI)
  fix w :: "'a world" and L
  assume own: "owns (L + group_resources (unat c) reqs k) w"
  define rest where "rest i = group_resources (unat c) reqs k - group_resources (unat c) reqs i" for i
  have mono: "group_resources (unat c) reqs i \<subseteq># group_resources (unat c) reqs j" if "i \<le> j" for i j
    using that by (induction j) (auto simp: le_Suc_eq intro: subset_mset.add_increasing2)
  have "wp (forP [0..<k] (dealloc_step sys c reqs) ()) (\<lambda>_ w'. owns (L + rest k) w') (\<lambda>_ _. True) w"
  proof (rule wp_forP [where I = "\<lambda>i _ w'. owns (L + rest i) w'"])
    fix i s and w' :: "'a world"
    assume i: "i < k" and own': "owns (L + rest i) w'"
    let ?g = "if i mod unat c = 0 then heap_block (rq_buf (reqs ! i)) + region (rq_mr (reqs ! i)) else {#}"
    have "group_resources (unat c) reqs i + ?g \<subseteq># group_resources (unat c) reqs k"
      using mono [of "Suc i" k] i by simp
    then have "rest i = rest (Suc i) + ?g"
      unfolding rest_def by (auto simp: subset_mset.le_iff_add)
    with own' have "owns ((L + rest (Suc i)) + ?g) w'" by (simp only: add.assoc)
    moreover have "i < 2 ^ 64" using i assms by simp
    ultimately show "wp (dealloc_step sys c reqs i s) (\<lambda>_ w'. owns (L + rest (Suc i)) w') (\<lambda>_ _. True) w'"
      using dealloc_step_trades [of i c reqs sys s] unfolding trades_def by fastforce
  qed (use own in \<open>simp add: rest_def\<close>)
  then show "wp (forP [0..<k] (dealloc_step sys c reqs) ()) (\<lambda>_. owns (L + {#})) (\<lambda>_ _. True) w"
    by (simp add: rest_def)
qed

lemma deallocate_buffer_trades:
  "trades (group_resources (unat (p_count params div p_mr_count params)) reqs (unat (p_count params)))
     (deallocate_buffer sys reqs params) (\<lambda>_. {#})"
  unfolding deallocate_buffer_def
  by (rule trades_if trades_halt)+ (rule dealloc_loop_trades [OF less_imp_le [OF unat_lt_64]])

section \<open>Allocation\<close>

fun reg_kind_of :: "Verb \<Rightarrow> reg_kind" where
  "reg_kind_of Read = Reg_read"
| "reg_kind_of Write = Reg_write"
| "reg_kind_of _ = Reg_msgs"

lemma malloc_random_effect:
  "owns L w \<Longrightarrow> wp (malloc_random sys sz)
     (\<lambda>b w'. owns (L + heap_block b) w' \<and> set (trace w) \<subseteq> set (trace w')) (\<lambda>_ _. False) w"
proof -
  assume own: "owns L w"
  have "wp (malloc_random sys sz) (\<lambda>b. owns (L + heap_block b)) (\<lambda>_ _. True) w"
    using malloc_random_trades [of "{#}" sys sz] own by (simp add: trades_def)
  from wp_conj [OF grows_wp [OF grows_malloc_random this] malloc_random_wp]
  show ?thesis by (rule wp_mono) auto
qed

definition reg_post ::
  "resource multiset \<Rightarrow> Verb \<Rightarrow> cm_id \<Rightarrow> u64 \<Rightarrow> u64 \<Rightarrow> 'e world \<Rightarrow> ibv_mr option \<Rightarrow> 'e world \<Rightarrow> bool" where
  "reg_post L verb cid b bl w mr w' \<longleftrightarrow>
     owns (L + region mr) w' \<and> set (trace w) \<subseteq> set (trace w') \<and> (verb = None_verb \<longrightarrow> mr = None) \<and>
     (verb \<noteq> None_verb \<longrightarrow> Ev_reg (reg_kind_of verb) cid b bl mr \<in> set (trace w'))"

lemma register_for_effect:
  assumes "owns L w" and "verb = None_verb \<longrightarrow> mr = None"
  shows "wp (register_for sys verb cid b bl mr) (reg_post L verb cid b bl w) (\<lambda>_ _. False) w"
  using assms
  by (cases verb)
    (auto simp: register_for_def reg_post_def dccs_reg_msgs_def dccs_reg_read_def dccs_reg_write_def
      reg_call_def wp_simps owns_def own_append split: prod.split)

lemma alloc_group_effect:
  assumes "owns L w" and "verb = None_verb \<longrightarrow> mr = None"
  shows "wp (alloc_group sys verb cid bl mr)
     (\<lambda>(mr', b). reg_post (L + heap_block b) verb cid b bl w mr') (\<lambda>_ _. False) w"
proof -
  have "wp (register_for sys verb cid b bl mr) (\<lambda>mr' w''. reg_post (L + heap_block b) verb cid b bl w mr' w'')
      (\<lambda>_ _. False) w'"
    if "owns (L + heap_block b) w' \<and> set (trace w) \<subseteq> set (trace w')" for b w'
    by (rule wp_mono [OF register_for_effect [OF conjunct1 [OF that] assms(2)]])
      (use that in \<open>auto simp: reg_post_def\<close>)
  then show ?thesis
    unfolding alloc_group_def wp_bindP
    by (rule_tac wp_mono [OF malloc_random_effect [OF assms(1)]]) (simp_all add: wp_bindP wp_ret_fun)
qed

text \<open>Request \<open>n\<close> is the slice of its group's block that its position in the group says.\<close>

definition slice_of :: "Verb \<Rightarrow> u64 \<Rightarrow> nat \<Rightarrow> dccs_request list \<Rightarrow> nat \<Rightarrow> bool" where
  "slice_of verb len c reqs n \<longleftrightarrow>
     rq_verb (reqs ! n) = verb \<and> rq_length (reqs ! n) = len \<and>
     rq_mr (reqs ! n) = rq_mr (reqs ! (n div c * c)) \<and>
     rq_buf (reqs ! n) = rq_buf (reqs ! (n div c * c)) + of_nat (n mod c) * len"

definition registered :: "Verb \<Rightarrow> cm_id \<Rightarrow> u64 \<Rightarrow> nat \<Rightarrow> dccs_request list \<Rightarrow> event list \<Rightarrow> nat \<Rightarrow> bool" where
  "registered verb cid bl c reqs es n \<longleftrightarrow>
     Ev_reg (reg_kind_of verb) cid (rq_buf (reqs ! (n div c * c))) bl (rq_mr (reqs ! (n div c * c))) \<in> set es"

definition alloc_inv ::
  "Verb \<Rightarrow> cm_id \<Rightarrow> u64 \<Rightarrow> u64 \<Rightarrow> resource multiset \<Rightarrow> nat \<Rightarrow> nat
    \<Rightarrow> ibv_mr option \<times> u64 \<times> dccs_request list \<Rightarrow> 'e world \<Rightarrow> bool" where
  "alloc_inv verb cid len cpm L N i = (\<lambda>(mr, b, reqs) w.
     owns (L + group_resources (unat cpm) reqs i) w \<and> length reqs = N \<and>
     (verb = None_verb \<longrightarrow> mr = None) \<and>
     (i mod unat cpm \<noteq> 0 \<longrightarrow> mr = rq_mr (reqs ! (i div unat cpm * unat cpm)) \<and>
                           b = rq_buf (reqs ! (i div unat cpm * unat cpm))) \<and>
     (\<forall>n < i. slice_of verb len (unat cpm) reqs n) \<and>
     (\<forall>n < i. verb \<noteq> None_verb \<longrightarrow> registered verb cid (cpm * len) (unat cpm) reqs (trace w) n))"

lemma head_neq: "n < i \<Longrightarrow> i \<noteq> n div c * (c :: nat)"
  using div_times_less_eq_dividend [of n c] by linarith

lemma slice_of_update:
  "n < i \<Longrightarrow> slice_of verb len c (reqs[i := r]) n = slice_of verb len c reqs n"
  by (simp add: slice_of_def head_neq)

lemma registered_update:
  "n < i \<Longrightarrow> registered verb cid bl c (reqs[i := r]) es n = registered verb cid bl c reqs es n"
  by (simp add: registered_def head_neq)

lemma registered_mono:
  "registered verb cid bl c reqs es n \<Longrightarrow> set es \<subseteq> set fs \<Longrightarrow> registered verb cid bl c reqs fs n"
  by (auto simp: registered_def)

lemma alloc_step_inv:
  assumes inv: "alloc_inv verb cid len cpm L N i st w" and i: "i < N" "i < 2 ^ 64" and c: "cpm \<noteq> 0"
  shows "wp (alloc_step sys verb cid len cpm i st) (alloc_inv verb cid len cpm L N (Suc i))
     (\<lambda>_ _. False) w"
proof -
  obtain mr b reqs where st: "st = (mr, b, reqs)" by (cases st)
  let ?c = "unat cpm" and ?h = "i div unat cpm * unat cpm"
  let ?off = "(of_nat i mod cpm) :: u64"
  have len: "length reqs = N" and own: "owns (L + group_resources ?c reqs i) w"
    and noverb: "verb = None_verb \<longrightarrow> mr = None"
    using inv by (simp_all add: alloc_inv_def st)
  have off: "?off = of_nat (i mod ?c)" "?off = 0 \<longleftrightarrow> i mod ?c = 0"
    by (rule of_nat_mod_word [OF i(2)], rule of_nat_mod_eq_0 [OF i(2)])
  have c0: "?c \<noteq> 0" using c by (simp add: unat_eq_zero)
  have next_head: "Suc i div ?c * ?c = ?h" if "Suc i mod ?c \<noteq> 0"
    using that by (simp add: div_Suc)
  have head: "?h = i" if "i mod ?c = 0"
    using that by (metis div_mult_mod_eq add_0_right)
  let ?upd = "\<lambda>mr b. reqs[i := (reqs ! i)\<lparr>rq_verb := verb, rq_buf := b + ?off * len,
      rq_length := len, rq_mr := mr\<rparr>]"
  have fresh: "alloc_inv verb cid len cpm L N (Suc i) (mr', b', ?upd mr' b') w'"
    if "i mod ?c = 0" and "reg_post (L + group_resources ?c reqs i + heap_block b') verb cid b' (cpm * len) w mr' w'"
    for mr' b' w'
    using that inv i len next_head head off
    by (auto simp: alloc_inv_def st reg_post_def group_resources_update ac_simps less_Suc_eq
        slice_of_update registered_update slice_of_def [of _ _ _ _ i] registered_def [of _ _ _ _ _ _ i]
        intro: registered_mono)
  have same: "alloc_inv verb cid len cpm L N (Suc i) (mr, b, ?upd mr b) w" if "i mod ?c \<noteq> 0"
  proof -
    have "?h < i" using that by (metis div_times_less_eq_dividend le_neq_implies_less mod_mult_self2_is_0)
    then show ?thesis
      using that inv i len next_head off c0 registered_def [of verb cid "cpm * len" ?c reqs "trace w" ?h]
      by (auto simp: alloc_inv_def st group_resources_update less_Suc_eq slice_of_update registered_update
          slice_of_def [of _ _ _ _ i] registered_def [of _ _ _ _ _ _ i])
  qed
  have grp: "wp (alloc_group sys verb cid (cpm * len) mr)
      (\<lambda>(mr', b'). reg_post (L + group_resources ?c reqs i + heap_block b') verb cid b' (cpm * len) w mr')
      (\<lambda>_ _. False) w"
    by (rule alloc_group_effect [OF own noverb])
  show ?thesis
    unfolding alloc_step_def st prod.case Let_def
    using c len i same fresh off
    by (auto simp: wp_simps intro!: wp_mono [OF grp])
qed

lemma allocate_buffer_inv:
  assumes "owns L w" and c: "p_count params div p_mr_count params \<noteq> 0"
    and "length reqs = unat (p_count params)"
  shows "wp (allocate_buffer sys cid reqs params)
     (\<lambda>(rv, reqs') w'. rv = 0 \<and> (\<exists>mr b. alloc_inv (p_verb params) cid (p_length params)
         (p_count params div p_mr_count params) L (unat (p_count params)) (unat (p_count params)) (mr, b, reqs') w'))
     (\<lambda>_ _. False) w"
proof -
  have mr: "p_mr_count params \<noteq> 0" using c by (rule div_nonzero)
  have "wp (forP [0..<unat (p_count params)] (alloc_step sys (p_verb params) cid (p_length params)
      (p_count params div p_mr_count params)) (None, 0, reqs))
    (alloc_inv (p_verb params) cid (p_length params) (p_count params div p_mr_count params) L
      (unat (p_count params)) (unat (p_count params))) (\<lambda>_ _. False) w"
  proof (rule wp_forP [where I = "alloc_inv (p_verb params) cid (p_length params)
      (p_count params div p_mr_count params) L (unat (p_count params))"])
    fix i st and w :: "'a world"
    assume "i < unat (p_count params)" and "alloc_inv (p_verb params) cid (p_length params)
        (p_count params div p_mr_count params) L (unat (p_count params)) i st w"
    then show "wp (alloc_step sys (p_verb params) cid (p_length params)
        (p_count params div p_mr_count params) i st) (alloc_inv (p_verb params) cid (p_length params)
        (p_count params div p_mr_count params) L (unat (p_count params)) (Suc i)) (\<lambda>_ _. False) w"
      using c unat_lt_64 [of "p_count params"] by (auto intro!: alloc_step_inv)
  qed (use assms in \<open>simp add: alloc_inv_def\<close>)
  then show ?thesis
    unfolding allocate_buffer_def if_not_P [OF mr] wp_bindP
    by (rule wp_mono) (clarsimp simp: wp_ret, blast)
qed

lemma total_register_for: "total (register_for sys verb cid b bl mr)"
  unfolding register_for_def
  by (cases verb) (simp_all add: total_ops total_thenP total_log total_ret)

lemma total_allocate_buffer: "total (allocate_buffer sys cid reqs params)"
  unfolding allocate_buffer_def alloc_step_def alloc_group_def Let_def
  by (intro total_intros total_malloc_random total_register_for)

lemma total_deallocate_buffer: "total (deallocate_buffer sys reqs params)"
  unfolding deallocate_buffer_def dealloc_step_def call_free_def
  by (intro total_intros total_ops total_calls)

section \<open>Slices and regions\<close>




text \<open>Allocation and what it leaves behind, as one postcondition.\<close>

definition laid_out :: "resource multiset \<Rightarrow> cm_id \<Rightarrow> dccs_parameters \<Rightarrow> dccs_request list \<Rightarrow> 'e world \<Rightarrow> bool" where
  "laid_out L cid params reqs w \<longleftrightarrow>
     (let cpm = p_count params div p_mr_count params in
      length reqs = unat (p_count params) \<and>
      owns (L + group_resources (unat cpm) reqs (unat (p_count params))) w \<and>
      (\<forall>n < unat (p_count params).
         slice_of (p_verb params) (p_length params) (unat cpm) reqs n \<and>
         (p_verb params \<noteq> None_verb \<longrightarrow>
            registered (p_verb params) cid (cpm * p_length params) (unat cpm) reqs (trace w) n)))"


lemma allocate_buffer_returns:
  assumes "owns L w" and "p_count params div p_mr_count params \<noteq> 0"
    and "length reqs = unat (p_count params)"
  shows "returns (allocate_buffer sys cid reqs params)
     (\<lambda>(rv, reqs') w'. rv = 0 \<and> laid_out L cid params reqs' w') w"
  by (rule total_returns [OF total_allocate_buffer], rule wp_mono [OF allocate_buffer_inv [OF assms]])
    (auto simp: alloc_inv_def laid_out_def)

text \<open>Deallocation follows the region of every group: it faults exactly when one was not registered.\<close>

definition all_regions :: "dccs_parameters \<Rightarrow> dccs_request list \<Rightarrow> bool" where
  "all_regions params reqs \<longleftrightarrow> (\<forall>n < unat (p_count params). rq_mr (reqs ! n) \<noteq> None)"

lemma dealloc_step_outcome:
  "c \<noteq> 0 \<Longrightarrow> n < length reqs \<Longrightarrow>
   wp (dealloc_step sys c reqs n u) (\<lambda>_ _. of_nat n mod c = 0 \<longrightarrow> rq_mr (reqs ! n) \<noteq> None)
     (\<lambda>s _. s = Fault Null_deref \<and> rq_mr (reqs ! n) = None) w"
  by (auto simp: dealloc_step_def dccs_dereg_mr_def call_free_def wp_simps split: prod.split)

lemma deallocate_buffer_outcome:
  assumes "laid_out L cid params reqs w" and c: "p_count params div p_mr_count params \<noteq> 0"
  shows "wp (deallocate_buffer sys reqs params) (\<lambda>_ w'. owns L w' \<and> all_regions params reqs)
     (\<lambda>s _. s = Fault Null_deref \<and> \<not> all_regions params reqs) w"
proof -
  let ?c = "p_count params div p_mr_count params" and ?N = "unat (p_count params)"
  have own: "owns (L + group_resources (unat ?c) reqs ?N) w" and len: "length reqs = ?N"
    and slices: "\<And>n. n < ?N \<Longrightarrow> rq_mr (reqs ! n) = rq_mr (reqs ! (n div unat ?c * unat ?c))"
    using assms(1) by (simp_all add: laid_out_def slice_of_def Let_def)
  have loop: "wp (forP [0..<?N] (dealloc_step sys ?c reqs) ())
      (\<lambda>_ _. \<forall>n < ?N. of_nat n mod ?c = 0 \<longrightarrow> rq_mr (reqs ! n) \<noteq> None)
      (\<lambda>s _. s = Fault Null_deref \<and> \<not> all_regions params reqs) w"
    by (rule wp_forP [where I = "\<lambda>i _ _. \<forall>n < i. of_nat n mod ?c = 0 \<longrightarrow> rq_mr (reqs ! n) \<noteq> None"])
      (use c len in \<open>auto simp: all_regions_def less_Suc_eq intro!: wp_mono [OF dealloc_step_outcome]\<close>)
  have all: "all_regions params reqs" if heads: "\<forall>n < ?N. of_nat n mod ?c = 0 \<longrightarrow> rq_mr (reqs ! n) \<noteq> None"
    unfolding all_regions_def
  proof (intro allI impI)
    fix n assume n: "n < ?N"
    let ?h = "n div unat ?c * unat ?c"
    have "?h < ?N" using n by (meson div_times_less_eq_dividend le_less_trans)
    moreover have "of_nat ?h mod ?c = 0"
      using of_nat_mod_eq_0 [of ?h ?c] \<open>?h < ?N\<close> unat_lt_64 [of "p_count params"] by simp
    ultimately show "rq_mr (reqs ! n) \<noteq> None" using heads slices [OF n] by simp
  qed
  have "p_mr_count params \<noteq> 0" using c by (rule div_nonzero)
  then have dealloc: "deallocate_buffer sys reqs params = forP [0..<?N] (dealloc_step sys ?c reqs) ()"
    by (simp add: deallocate_buffer_def)
  have "wp (deallocate_buffer sys reqs params) (\<lambda>_. owns L) (\<lambda>_ _. True) w"
    using deallocate_buffer_trades [of params reqs sys] own by (auto simp: trades_def)
  from wp_conj [OF this loop [folded dealloc]] show ?thesis
    by (rule wp_mono) (use all in auto)
qed

lemma deallocate_buffer_returns:
  assumes "laid_out L cid params reqs w" and "p_count params div p_mr_count params \<noteq> 0"
    and "all_regions params reqs"
  shows "returns (deallocate_buffer sys reqs params) (\<lambda>_ w'. owns L w') w"
  by (rule total_returns [OF total_deallocate_buffer], rule wp_mono [OF deallocate_buffer_outcome [OF assms(1,2)]])
    (use assms(3) in auto)

section \<open>Properties\<close>

definition example_params :: dccs_parameters where
  "example_params = \<lparr>p_verb = Write, p_count = 4, p_length = 3, p_repeat = 1, p_server = None,
     p_port = ''1234'', p_mode = MODE_LATENCY, p_warmup_count = 0, p_mr_count = 2, p_direction = 0,
     p_index = 0, p_tos = 0, p_slot = 0, p_verbose = False\<rparr>"

lemma example_params_simps:
  "p_count example_params = 4" "p_length example_params = 3" "p_verb example_params = Write"
  "p_mr_count example_params = 2"
  by (simp_all add: example_params_def)

text \<open>
  C9. Allocation always returns 0, whatever the libraries answer, and lays the requests out in
  groups of \<open>count / mr_count\<close>: request \<open>n\<close> has the verb and length of the parameters, shares the
  memory region of the first request of its group, and starts \<open>n mod (count / mr_count)\<close> lengths
  after it; that region was registered, with the kind the verb asks for, on the group's block.  The
  ledger grows by exactly one block and one region per group.
\<close>

theorem allocate_buffer_layout:
  assumes "owns L w" and "p_count params div p_mr_count params \<noteq> 0"
    and "length reqs = unat (p_count params)" and "p_verb params \<noteq> None_verb"
  shows "returns (allocate_buffer sys cid reqs params) (\<lambda>(rv, reqs') w'.
     let c = p_count params div p_mr_count params in
     rv = 0 \<and> length reqs' = unat (p_count params) \<and>
     owns (L + group_resources (unat c) reqs' (unat (p_count params))) w' \<and>
     (\<forall>n < unat (p_count params).
        slice_of (p_verb params) (p_length params) (unat c) reqs' n \<and>
        registered (p_verb params) cid (c * p_length params) (unat c) reqs' (trace w') n)) w"
  by (rule returns_mono [OF allocate_buffer_returns [OF assms(1-3)]])
    (use assms(4) in \<open>auto simp: laid_out_def Let_def\<close>)

theorem allocate_buffer_layout_witness:
  "returns (allocate_buffer (test_sys Little_endian) 5 (replicate 4 zero_request) example_params)
     (\<lambda>(rv, reqs') w'. rv = 0 \<and> length reqs' = 4 \<and> owns (group_resources 2 reqs' 4) w' \<and>
        slice_of Write 3 2 reqs' 3 \<and> registered Write 5 6 2 reqs' (trace w') 3) world0"
proof -
  have "returns (allocate_buffer (test_sys Little_endian) 5 (replicate 4 zero_request) example_params)
     (\<lambda>(rv, reqs') w'. rv = 0 \<and> length reqs' = 4 \<and> owns (group_resources 2 reqs' 4) w' \<and>
        (\<forall>n < 4. slice_of Write 3 2 reqs' n \<and> registered Write 5 6 2 reqs' (trace w') n)) world0"
    using allocate_buffer_layout [of "{#}" world0 example_params "replicate 4 zero_request"
        "test_sys Little_endian" 5]
    by (simp add: example_params_simps owns_world0)
  then show ?thesis by (rule returns_mono) auto
qed



text \<open>
  C10. Allocating the request buffers and deallocating them again, with the same parameters, gives
  back every block and every region exactly once and touches nothing else the process holds, when every
  request has got its region.  When one has not, which the result of the allocation does not tell, the
  deallocation hands a null pointer to the library.
\<close>

theorem allocate_deallocate_balanced:
  fixes sys :: "'e sys"
  assumes "owns L w" and "p_count params div p_mr_count params \<noteq> 0"
    and "length reqs = unat (p_count params)"
  shows "returns (allocate_buffer sys cid reqs params) (\<lambda>(rv, reqs') w1. rv = 0 \<and>
     (if \<forall>n < unat (p_count params). rq_mr (reqs' ! n) \<noteq> None
      then returns (deallocate_buffer sys reqs' params) (\<lambda>_ w'. owns L w') w1
      else \<exists>w'. deallocate_buffer sys reqs' params w1 = Some (Stop (Fault Null_deref), w'))) w"
proof (rule returns_mono [OF allocate_buffer_returns [OF assms]], clarify, intro conjI)
  fix reqs' and w1 :: "'e world"
  assume lo: "laid_out L cid params reqs' w1"
  obtain r w' where "deallocate_buffer sys reqs' params w1 = Some (r, w')"
    and "case r of Ret _ \<Rightarrow> owns L w' \<and> all_regions params reqs'
      | Stop s \<Rightarrow> s = Fault Null_deref \<and> \<not> all_regions params reqs'"
    using total_outcome [OF total_deallocate_buffer deallocate_buffer_outcome [OF lo assms(2)]] by blast
  then show "if \<forall>n < unat (p_count params). rq_mr (reqs' ! n) \<noteq> None
      then returns (deallocate_buffer sys reqs' params) (\<lambda>_ w'. owns L w') w1
      else \<exists>w'. deallocate_buffer sys reqs' params w1 = Some (Stop (Fault Null_deref), w')"
    using deallocate_buffer_returns [OF lo assms(2)]
    by (cases r) (auto simp: all_regions_def)
qed simp

theorem allocate_deallocate_balanced_witness:
  "returns (allocate_buffer (test_sys Big_endian) 5 (replicate 4 zero_request) example_params) (\<lambda>(rv, reqs') w1. rv = 0 \<and>
     (if \<forall>n < 4. rq_mr (reqs' ! n) \<noteq> None
      then returns (deallocate_buffer (test_sys Big_endian) reqs' example_params) (\<lambda>_ w'. owns {#} w') w1
      else \<exists>w'. deallocate_buffer (test_sys Big_endian) reqs' example_params w1 = Some (Stop (Fault Null_deref), w'))) world0"
  using allocate_deallocate_balanced [of "{#}" world0 example_params "replicate 4 zero_request" "test_sys Big_endian" 5]
  by (simp add: example_params_simps owns_world0)

end
