(* ===== verification/Mr_Exchange.thy ===== *)
theory Mr_Exchange
  imports Rdma_Buffers
begin

text \<open>
  The exchange of memory-region information and of single messages of \<open>dccs_rdma.h\<close>
  (\<open>get_remote_mr_info\<close>, \<open>send_local_mr_info\<close>, \<open>send_message\<close>, \<open>recv_message\<close>).

  The array \<open>mr_infos\<close> and the two counts that are sent or received live in the byte memory, since
  the NIC reads and writes them there; \<open>&rcount\<close> and \<open>&count\<close> are stack addresses.  A
  \<open>struct dccs_mr_info\<close> is 16 bytes: the address, the key and four bytes of padding.  The \<open>goto\<close>
  labels at the end of the C functions are the continuations here: what the code does between the
  registrations and the label \<open>failure\<close> is a definition of its own.

  The lemmas show that every path that returns gives back the block and the regions it took, that
  both functions return whenever the NIC answers, and that what a sender puts on the wire is what
  the receiver stores into its requests, for any pair of byte orders as far as the descriptors are
  concerned, but only for equal byte orders as far as the count is concerned.
\<close>

section \<open>The functions of the source\<close>

subsection \<open>Receiving\<close>

text \<open>The loop that processes the received descriptors.\<close>

definition load_info ::
  "'e sys \<Rightarrow> u64 \<Rightarrow> u64 \<Rightarrow> nat \<Rightarrow> dccs_request list \<Rightarrow> ('e world, dccs_request list) prog" where
  "load_info sys mr_infos array_size n requests =
     (if mr_infos = 0 then halt (Fault Null_deref)
      else if unat array_size < 16 * n + 16 \<or> length requests \<le> n then halt (Fault Out_of_bounds)
      else
      bindP (read_mem (mr_infos + of_nat (16 * n)) 8) (\<lambda>addr.
      bindP (read_mem (mr_infos + of_nat (16 * n) + 8) 4) (\<lambda>rkey.
      ret (requests[n := (requests ! n)\<lparr>
        rq_remote_addr := ntohll (host_endian sys) (of_nat (dec_host (host_endian sys) addr)),
        rq_remote_rkey := ntohl (host_endian sys) (of_nat (dec_host (host_endian sys) rkey))\<rparr>]))))"

text \<open>From the first receive to the label \<open>failure\<close>.\<close>

definition recv_infos ::
  "'e sys \<Rightarrow> cm_id \<Rightarrow> dccs_request list \<Rightarrow> u64 \<Rightarrow> u64 \<Rightarrow> u64 \<Rightarrow> ibv_mr option \<Rightarrow> ibv_mr option
    \<Rightarrow> ('e world, int \<times> dccs_request list) prog" where
  "recv_infos sys cid requests cnt mr_infos array_size mr_count mr_array =
     bindP (dccs_rdma_recv sys cid (local_addr sys ''rcount'') 8 mr_count) (\<lambda>rv.
     if rv \<noteq> 0 then
       thenP (log_error ''Failed to recv # of RDMA requests to remote side.\<newline>'') (ret (rv, requests))
     else
     bindP (retry_zero (dccs_rdma_recv_comp sys cid fresh_wc)) (\<lambda>(rv, wc).
     if rv < 0 then
       thenP (log_error ''Failed to recv comp # of RDMA requests to remote side.\<newline>'') (ret (rv, requests))
     else
     bindP (read_mem (local_addr sys ''rcount'') 8) (\<lambda>bs.
     if of_nat (dec_host (host_endian sys) bs) \<noteq> cnt then
       thenP (log_error ''Inconsistent request count: local is %zu, remote is %zu.\<newline>'') (ret (rv, requests))
     else
     bindP (dccs_rdma_recv sys cid mr_infos array_size mr_array) (\<lambda>rv.
     if rv \<noteq> 0 then
       thenP (log_error ''Failed to recv RDMA read/write request info to remote side.\<newline>'') (ret (rv, requests))
     else
     bindP (retry_zero (dccs_rdma_recv_comp sys cid wc)) (\<lambda>(rv, wc).
     if rv < 0 then
       thenP (log_error ''Failed to recv comp RDMA read/write request info to remote side.\<newline>'') (ret (rv, requests))
     else
     bindP (forP [0..<unat cnt] (load_info sys mr_infos array_size) requests) (\<lambda>requests.
     ret (rv, requests)))))))"

definition get_remote_mr_info ::
  "'e sys \<Rightarrow> cm_id \<Rightarrow> dccs_request list \<Rightarrow> u64 \<Rightarrow> ('e world, int \<times> dccs_request list) prog" where
  "get_remote_mr_info sys cid requests cnt =
     (let array_size = cnt * sizeof_mr_info in
      bindP (call_malloc sys array_size) (\<lambda>mr_infos.
      if mr_infos = 0 \<and> array_size \<noteq> 0 then halt (Fault Null_deref) else
      bindP
       (thenP (write_mem mr_infos (replicate (unat array_size) 0))
       (thenP (write_mem (local_addr sys ''rcount'') (enc_host (host_endian sys) 8 0))
       (bindP (dccs_reg_msgs sys cid (local_addr sys ''rcount'') 8) (\<lambda>mr_count.
        if mr_count = None then ret (-1, requests) else
        bindP
         (bindP (dccs_reg_msgs sys cid mr_infos array_size) (\<lambda>mr_array.
          if mr_array = None then ret (-1, requests) else
          bindP (recv_infos sys cid requests cnt mr_infos array_size mr_count mr_array) (\<lambda>res.
          thenP (dccs_dereg_mr sys mr_array) (ret res)))) (\<lambda>res.
        thenP (dccs_dereg_mr sys mr_count) (ret res)))))) (\<lambda>res.
      thenP (call_free sys mr_infos) (ret res))))"

subsection \<open>Sending\<close>

text \<open>The loop that fills in the descriptors.\<close>

definition store_info ::
  "'e sys \<Rightarrow> dccs_request list \<Rightarrow> u64 \<Rightarrow> u64 \<Rightarrow> nat \<Rightarrow> unit \<Rightarrow> ('e world, unit) prog" where
  "store_info sys requests mr_infos array_size n _ =
     (if mr_infos = 0 then halt (Fault Null_deref)
      else if unat array_size < 16 * n + 16 \<or> length requests \<le> n then halt (Fault Out_of_bounds)
      else
      thenP (write_mem (mr_infos + of_nat (16 * n)) (enc_host (host_endian sys) 8
              (unat (htonll (host_endian sys) (rq_buf (requests ! n))))))
     (case rq_mr (requests ! n) of
        None \<Rightarrow> halt (Fault Null_deref)
      | Some mr \<Rightarrow> write_mem (mr_infos + of_nat (16 * n) + 8) (enc_host (host_endian sys) 4
              (unat (htonl (host_endian sys) (mr_rkey mr))))))"

text \<open>From the first send to the label \<open>failure\<close>.\<close>

definition send_infos ::
  "'e sys \<Rightarrow> cm_id \<Rightarrow> u64 \<Rightarrow> u64 \<Rightarrow> ibv_mr option \<Rightarrow> ibv_mr option \<Rightarrow> ('e world, int) prog" where
  "send_infos sys cid mr_infos array_size mr_count mr_array =
     bindP (dccs_rdma_send sys cid (local_addr sys ''count'') 8 mr_count) (\<lambda>rv.
     if rv \<noteq> 0 then
       thenP (log_error ''Failed to send # of RDMA requests to remote side.\<newline>'') (ret rv)
     else
     bindP (retry_zero (dccs_rdma_send_comp sys cid 1 [fresh_wc])) (\<lambda>(rv, wcs).
     if rv < 0 then
       thenP (log_error ''Failed to send comp # of RDMA requests to remote side.\<newline>'') (ret rv)
     else
     bindP (dccs_rdma_send sys cid mr_infos array_size mr_array) (\<lambda>rv.
     if rv \<noteq> 0 then
       thenP (log_error ''Failed to send RDMA read/write request info to remote side.\<newline>'') (ret rv)
     else
     bindP (retry_zero (dccs_rdma_send_comp sys cid 1 wcs)) (\<lambda>(rv, wcs).
     if rv < 0 then
       thenP (log_error ''Failed to send comp RDMA read/write request info to remote side.\<newline>'') (ret rv)
     else ret rv))))"

text \<open>The parameter \<open>count\<close> has an address, so it is in memory from the start.\<close>

definition send_local_mr_info ::
  "'e sys \<Rightarrow> cm_id \<Rightarrow> dccs_request list \<Rightarrow> u64 \<Rightarrow> ('e world, int) prog" where
  "send_local_mr_info sys cid requests cnt =
     (let array_size = cnt * sizeof_mr_info in
      thenP (write_mem (local_addr sys ''count'') (enc_host (host_endian sys) 8 (unat cnt)))
     (bindP (call_malloc sys array_size) (\<lambda>mr_infos.
      if mr_infos = 0 \<and> array_size \<noteq> 0 then halt (Fault Null_deref) else
      bindP
       (thenP (write_mem mr_infos (replicate (unat array_size) 0))
       (thenP (forP [0..<unat cnt] (store_info sys requests mr_infos array_size) ())
       (bindP (dccs_reg_msgs sys cid (local_addr sys ''count'') 8) (\<lambda>mr_count.
        if mr_count = None then ret (-1) else
        bindP
         (bindP (dccs_reg_msgs sys cid mr_infos array_size) (\<lambda>mr_array.
          if mr_array = None then ret (-1) else
          bindP (send_infos sys cid mr_infos array_size mr_count mr_array) (\<lambda>rv.
          thenP (dccs_dereg_mr sys mr_array) (ret rv)))) (\<lambda>rv.
        thenP (dccs_dereg_mr sys mr_count) (ret rv)))))) (\<lambda>rv.
      thenP (call_free sys mr_infos) (ret rv)))))"

subsection \<open>Single messages\<close>

definition send_message :: "'e sys \<Rightarrow> cm_id \<Rightarrow> u64 \<Rightarrow> u64 \<Rightarrow> ('e world, int) prog" where
  "send_message sys cid buf len =
     bindP (dccs_reg_msgs sys cid buf len) (\<lambda>mr.
     if mr = None then ret (-1) else
     bindP (bindP (dccs_rdma_send sys cid buf len mr) (\<lambda>rv.
       if rv \<noteq> 0 then thenP (log_error ''Failed to send message.\<newline>'') (ret rv) else
       bindP (retry_zero (dccs_rdma_send_comp sys cid 1 [fresh_wc])) (\<lambda>(rv, wcs).
       thenP (whenP (rv < 0) (log_error ''Failed to send comp message.\<newline>'')) (ret rv)))) (\<lambda>rv.
     thenP (dccs_dereg_mr sys mr) (ret rv)))"

definition recv_message :: "'e sys \<Rightarrow> cm_id \<Rightarrow> u64 \<Rightarrow> u64 \<Rightarrow> ('e world, int) prog" where
  "recv_message sys cid buf len =
     bindP (dccs_reg_msgs sys cid buf len) (\<lambda>mr.
     if mr = None then ret (-1) else
     bindP (bindP (dccs_rdma_recv sys cid buf len mr) (\<lambda>rv.
       if rv \<noteq> 0 then thenP (log_error ''Failed to recv message.\<newline>'') (ret rv) else
       bindP (retry_zero (dccs_rdma_recv_comp sys cid fresh_wc)) (\<lambda>(rv, wc).
       thenP (whenP (rv < 0) (log_error ''Failed to recv comp message.\<newline>'')) (ret rv)))) (\<lambda>rv.
     thenP (dccs_dereg_mr sys mr) (ret rv)))"

section \<open>Ledger\<close>

lemmas comm_trades = trades_recv trades_send trades_retry_zero trades_send_comp trades_recv_comp
  trades_log trades_ret trades_halt trades_if trades_whenP trades_case_prod trades_read_mem
  trades_write_mem trades_thenP trades_bindP trades_forP

lemma trades_load_info: "trades P (load_info sys a sz n reqs) (\<lambda>_. P)"
  unfolding load_info_def by (rule comm_trades | simp)+

lemma trades_recv_infos: "trades P (recv_infos sys cid reqs cnt a sz mrc mra) (\<lambda>_. P)"
  unfolding recv_infos_def by (rule trades_load_info comm_trades | simp)+

lemma trades_store_info: "trades P (store_info sys reqs a sz n u) (\<lambda>_. P)"
  unfolding store_info_def by (rule comm_trades trades_case_option | simp)+

lemma trades_send_infos: "trades P (send_infos sys cid a sz mrc mra) (\<lambda>_. P)"
  unfolding send_infos_def by (rule comm_trades | simp)+

lemma trades_with_block:
  assumes "\<And>p Q. trades Q (body p) (\<lambda>_. Q)"
  shows "trades P (bindP (call_malloc sys sz) (\<lambda>p. if b p then halt s else
      bindP (body p) (\<lambda>res. thenP (call_free sys p) (ret res)))) (\<lambda>_. P)"
  by (rule trades_bindP [OF trades_call_malloc] trades_if trades_halt)+
    (rule trades_bindP [OF assms] trades_thenP trades_call_free trades_ret | simp)+

lemma trades_get_remote_mr_info: "trades P (get_remote_mr_info sys cid reqs cnt) (\<lambda>_. P)"
  unfolding get_remote_mr_info_def Let_def
  by (rule trades_with_block)
    (rule trades_thenP trades_write_mem reg_msgs.bracket trades_recv_infos refl)+

lemma trades_send_local_mr_info: "trades P (send_local_mr_info sys cid reqs cnt) (\<lambda>_. P)"
  unfolding send_local_mr_info_def Let_def
  by (rule trades_thenP, rule trades_write_mem, rule refl, rule trades_with_block)
    (rule trades_thenP trades_write_mem trades_forP trades_store_info
      reg_msgs.bracket trades_send_infos refl)+

lemma trades_message:
  "trades P (send_message sys cid a n) (\<lambda>_. P)" "trades P (recv_message sys cid a n) (\<lambda>_. P)"
  unfolding send_message_def recv_message_def
  by (rule reg_msgs.bracket comm_trades | simp)+

section \<open>Termination and safety\<close>

text \<open>
  A NIC that answers: polling reports at most what was asked for, and polling a queue over and
  over gives a completion or an error at last.
\<close>

definition live_nic :: "'e sys \<Rightarrow> bool" where
  "live_nic sys \<longleftrightarrow> poll_contract sys \<and> (\<forall>q e m. poll_ready sys q 1 e m)"

lemma total_retry_poll: "live_nic sys \<Longrightarrow> total (retry_zero (call_poll sys q 1))"
  unfolding total_def retry_poll_returns_iff by (simp add: live_nic_def)

lemma total_send_comp_round: "live_nic sys \<Longrightarrow> total (send_comp_round sys cid 1 s)"
  unfolding send_comp_round_def
  by (intro total_intros total_retry_poll total_log total_wc_check total_add_int)

lemma send_comp_round_progress:
  "wp (send_comp_round sys cid 1 (0, arr))
     (\<lambda>x _. case x of Inl _ \<Rightarrow> True | Inr s' \<Rightarrow> 1 \<le> fst s') (\<lambda>_ _. True) w"
  unfolding send_comp_round_def add_int_def
  by (auto simp: wp_simps split: option.split wc_check.split prod.split
      intro!: wp_mono [OF wp_retry_poll_nonzero])

lemma total_send_comp:
  assumes "live_nic sys"
  shows "total (dccs_rdma_send_comp sys cid 1 arr)"
  unfolding total_def
proof
  fix w
  obtain r w' where r: "send_comp_round sys cid 1 (0, arr) w = Some (r, w')"
    using total_send_comp_round [OF assms] by (fastforce simp: total_def)
  have "loopP (send_comp_round sys cid 1) (k, a) w' \<noteq> None" if "1 \<le> k" for k a
    using that by (subst loopP_unfold) (simp add: send_comp_round_def bindP_def ret_def)
  then show "dccs_rdma_send_comp sys cid 1 arr w \<noteq> None"
    using send_comp_round_progress [of sys cid arr w] r unfolding dccs_rdma_send_comp_def
    by (subst loopP_unfold) (auto simp: bindP_def ret_def wp_def split: res.split sum.splits)
qed

lemma total_comp:
  assumes "live_nic sys"
  shows "total (dccs_rdma_recv_comp sys cid wc)" "total (dccs_rdma_send_comp sys cid 1 arr)"
  unfolding dccs_rdma_recv_comp_def Let_def
  by (intro total_intros total_retry_poll total_log total_send_comp assms)+

text \<open>What a waiting caller sees, whatever the NIC delivers: 1 or -1, and an array of the same size.\<close>

lemma wp_retry_recv_compI:
  assumes "poll_contract sys" and "\<And>rv wc w'. rv = 1 \<or> rv = -1 \<Longrightarrow> Q (rv, wc) w'"
  shows "wp (retry_zero (dccs_rdma_recv_comp sys cid wc)) Q E w"
  unfolding recv_comp.retry_once
  unfolding dccs_rdma_recv_comp_def wp_bindP
  by (rule wp_mono [OF wp_retry_poll [OF assms(1), of 1]])
    (auto simp: write_wcs_def wp_simps Let_def intro!: assms(2))

lemma wp_retry_send_compI:
  assumes "poll_contract sys" and "length arr = 1"
    and "\<And>rv arr' w'. rv = 1 \<or> rv = -1 \<Longrightarrow> length arr' = 1 \<Longrightarrow> Q (rv, arr') w'"
  shows "wp (retry_zero (dccs_rdma_send_comp sys cid 1 arr)) Q E w"
  unfolding send_comp.retry_once
  by (rule wp_mono [OF send_comp_bounds_wp [OF assms(1), of 1 arr cid w]])
    (use assms(2,3) in \<open>auto simp: comp_post_def\<close>)

lemma total_exchange:
  assumes "live_nic sys"
  shows "total (get_remote_mr_info sys cid reqs cnt)" "total (send_local_mr_info sys cid reqs cnt)"
    "total (send_message sys cid a n)" "total (recv_message sys cid a n)"
  unfolding get_remote_mr_info_def send_local_mr_info_def send_message_def recv_message_def
    recv_infos_def load_info_def send_infos_def store_info_def call_malloc_def call_free_def Let_def
    dccs_rdma_send_def send_comp.retry_once recv_comp.retry_once
  by (intro total_intros total_calls total_log total_ops total_comp [OF assms])+

section \<open>What is put on the wire\<close>

text \<open>A descriptor as it travels: address and key in network byte order, then the padding.\<close>

definition info_image :: "u64 \<Rightarrow> u32 \<Rightarrow> u8 list" where
  "info_image addr rkey =
     rev (enc_le 8 (unat addr)) @ rev (enc_le 4 (unat rkey)) @ replicate 4 0"

definition request_image :: "dccs_request \<Rightarrow> u8 list" where
  "request_image r = info_image (rq_buf r) (mr_rkey (the (rq_mr r)))"

definition infos_image :: "dccs_request list \<Rightarrow> u8 list" where
  "infos_image rs = concat (map request_image rs)"

lemma length_images [simp]:
  "length (info_image a k) = 16" "length (request_image r) = 16"
  "length (infos_image rs) = 16 * length rs"
  by (simp_all add: info_image_def request_image_def infos_image_def)
    (induction rs, simp_all add: request_image_def info_image_def)

text \<open>The messages a trace has put on the wire, in order.\<close>

fun sent_of :: "event \<Rightarrow> u8 list list" where
  "sent_of (Ev_post_send i a n mr fl p rv) = (if rv = 0 then [p] else [])"
| "sent_of _ = []"

definition sent :: "event list \<Rightarrow> u8 list list" where
  "sent es = concat (map sent_of es)"

lemma sent_simps [simp]:
  "sent [] = []" "sent (e # es) = sent_of e @ sent es" "sent (es @ fs) = sent es @ sent fs"
  by (simp_all add: sent_def)

lemma sent_of_log [simp]: "sent_of (log_entry level fmt) = []"
  by (simp add: log_entry_def)

text \<open>Overwriting one zeroed descriptor.\<close>

lemma store_info_image:
  assumes "16 * i + 16 \<le> 16 * k" and "16 * k \<le> 2 ^ 64" and xs: "length xs = 16 * i"
  shows "store_bytes (store_bytes (store_bytes m p (xs @ replicate (16 * (k - i)) 0))
      (p + of_nat (16 * i)) (rev (enc_le 8 a))) (p + of_nat (16 * i) + 8) (rev (enc_le 4 b)) =
    store_bytes m p ((xs @ rev (enc_le 8 a) @ rev (enc_le 4 b) @ replicate 4 0) @
      replicate (16 * (k - Suc i)) 0)"
proof -
  have k: "16 * (k - i) = 8 + (8 + 16 * (k - Suc i))" using assms(1) by simp
  have "store_bytes (store_bytes m p (xs @ replicate (16 * (k - i)) 0))
      (p + of_nat (16 * i)) (rev (enc_le 8 a)) =
    store_bytes m p (xs @ rev (enc_le 8 a) @ replicate (8 + 16 * (k - Suc i)) 0)"
    using store_bytes_overwrite [of "16 * i" "rev (enc_le 8 a)" "xs @ replicate (16 * (k - i)) 0" m p] assms
    by (simp add: k drop_replicate)
  moreover have "p + of_nat (16 * i) + 8 = p + of_nat (16 * i + 8)" by (simp add: add.assoc)
  moreover have "store_bytes (store_bytes m p (xs @ rev (enc_le 8 a) @ replicate (8 + 16 * (k - Suc i)) 0))
      (p + of_nat (16 * i + 8)) (rev (enc_le 4 b)) =
    store_bytes m p (xs @ rev (enc_le 8 a) @ rev (enc_le 4 b) @ replicate (4 + 16 * (k - Suc i)) 0)"
    using store_bytes_overwrite [of "16 * i + 8" "rev (enc_le 4 b)"
        "xs @ rev (enc_le 8 a) @ replicate (8 + 16 * (k - Suc i)) 0" m p] assms
    by simp
  ultimately show ?thesis by (simp add: replicate_add add.assoc)
qed

lemma store_infos_wp:
  assumes p: "p \<noteq> 0" and sz: "unat sz = 16 * k" and k: "k \<le> length reqs"
    and mrs: "\<forall>n < k. rq_mr (reqs ! n) \<noteq> None"
    and m: "mem w = store_bytes base p (replicate (16 * k) 0)"
  shows "wp (forP [0..<k] (store_info sys reqs p sz) ())
     (\<lambda>_ w'. w' = w\<lparr>mem := store_bytes base p (infos_image (take k reqs))\<rparr>) E w"
proof -
  let ?im = "\<lambda>i. infos_image (take i reqs) @ replicate (16 * (k - i)) 0"
  have "wp (forP [0..<k] (store_info sys reqs p sz) ())
     (\<lambda>_ w'. w' = w\<lparr>mem := store_bytes base p (?im k)\<rparr>) E w"
  proof (rule wp_forP [where I = "\<lambda>i _ w'. w' = w\<lparr>mem := store_bytes base p (?im i)\<rparr>"])
    fix i s w'
    assume i: "i < k" and w': "w' = w\<lparr>mem := store_bytes base p (?im i)\<rparr>"
    obtain mr where mr: "rq_mr (reqs ! i) = Some mr" using mrs i by auto
    have "16 * k \<le> 2 ^ 64" using sz unat_lt_64 [of sz] by simp
    moreover have "infos_image (take (Suc i) reqs) = infos_image (take i reqs) @ request_image (reqs ! i)"
      using i k by (simp add: take_Suc_conv_app_nth infos_image_def)
    ultimately have
      "store_bytes (store_bytes (store_bytes base p (?im i)) (p + of_nat (16 * i))
          (rev (enc_le 8 (unat (rq_buf (reqs ! i)))))) (p + of_nat (16 * i) + 8)
          (rev (enc_le 4 (unat (mr_rkey mr)))) = store_bytes base p (?im (Suc i))"
      using store_info_image [of i k "infos_image (take i reqs)"] i k mr
      by (simp add: request_image_def info_image_def)
    then show "wp (store_info sys reqs p sz i s)
       (\<lambda>_ w'. w' = w\<lparr>mem := store_bytes base p (?im (Suc i))\<rparr>) E w'"
      using p i k sz mr
      by (simp add: store_info_def wp_simps w' nll.store_image nl.store_image)
  qed (use m in \<open>simp add: infos_image_def\<close>)
  then show ?thesis by simp
qed

text \<open>
  A library that leaves the sender's memory alone: registering, posting a send and polling the
  send queue write no memory of the process.
\<close>

definition quiet_sender :: "'e sys \<Rightarrow> bool" where
  "quiet_sender sys \<longleftrightarrow>
     (\<forall>k i a n e m. snd (snd (rdma_reg (rdma sys) k i a n e m)) = m) \<and>
     (\<forall>i a n mr fl e m. snd (snd (rdma_post_send (rdma sys) i a n mr fl e m)) = m) \<and>
     (\<forall>i num e m. snd (snd (ibv_poll_cq (rdma sys) (Send_cq i) num e m)) = m)"

text \<open>The documented results of the posting functions: 0, or -1 with \<open>errno\<close> set.\<close>

definition post_contract :: "'e sys \<Rightarrow> bool" where
  "post_contract sys \<longleftrightarrow>
     (\<forall>i a n mr fl e m. fst (rdma_post_send (rdma sys) i a n mr fl e m) \<in> {0, -1}) \<and>
     (\<forall>i a n mr e m. fst (rdma_post_recv (rdma sys) i a n mr e m) \<in> {0, -1})"

lemma wp_quiet_regI:
  assumes "quiet_sender sys"
    and "\<And>mr w'. mem w' = mem w \<Longrightarrow> sent (trace w') = sent (trace w) \<Longrightarrow> Q mr w'"
  shows "wp (dccs_reg_msgs sys cid a n) Q E w"
  using assms(1)
  by (auto simp: dccs_reg_msgs_def reg_call_def wp_simps quiet_sender_def intro!: assms(2)
      split: prod.split dest: arg_cong [where f = "\<lambda>x. snd (snd x)"])

lemma wp_quiet_sendI:
  assumes "quiet_sender sys"
    and "post_contract sys"
    and "\<And>w'. mem w' = mem w \<Longrightarrow> sent (trace w') = sent (trace w) @ [load_bytes (mem w) a (unat n)] \<Longrightarrow>
        Q 0 w'"
    and "\<And>w'. Q (-1) w'"
  shows "wp (dccs_rdma_send sys cid a n mr) Q E w"
proof (cases "rdma_post_send (rdma sys) cid a n mr {IBV_SEND_SIGNALED} (env w) (mem w)")
  case (fields rv e' m')
  have "m' = mem w"
    using assms(1) fields unfolding quiet_sender_def by (metis snd_conv)
  moreover have "rv = 0 \<or> rv = -1"
    using assms(2) fields unfolding post_contract_def by (metis fst_conv insert_iff empty_iff)
  ultimately show ?thesis
    by (auto simp: dccs_rdma_send_def dccs_rdma_send_with_flags_def wp_simps fields intro!: assms(3,4))
qed

lemma wp_quiet_retry_poll:
  assumes "quiet_sender sys"
  shows "wp (retry_zero (call_poll sys (Send_cq cid) num))
     (\<lambda>_ w'. mem w' = mem w \<and> sent (trace w') = sent (trace w)) E w"
  by (rule wp_retry_zero [where I = "\<lambda>w'. mem w' = mem w \<and> sent (trace w') = sent (trace w)"])
    (use assms in \<open>auto simp: call_poll_def wp_simps quiet_sender_def split: prod.split
      dest: arg_cong [where f = "\<lambda>x. snd (snd x)"]\<close>)

lemma wp_quiet_send_comp:
  assumes "quiet_sender sys"
  shows "wp (dccs_rdma_send_comp sys cid num arr)
     (\<lambda>_ w'. mem w' = mem w \<and> sent (trace w') = sent (trace w)) (\<lambda>_ _. True) w"
  unfolding dccs_rdma_send_comp_def
proof (rule wp_loopP [where I = "\<lambda>_ w'. mem w' = mem w \<and> sent (trace w') = sent (trace w)"])
  fix s and w1 :: "'a world"
  assume w1: "mem w1 = mem w \<and> sent (trace w1) = sent (trace w)"
  show "wp (send_comp_round sys cid num s) (\<lambda>x w'. case x of
      Inl a \<Rightarrow> mem w' = mem w \<and> sent (trace w') = sent (trace w)
    | Inr s' \<Rightarrow> mem w' = mem w \<and> sent (trace w') = sent (trace w)) (\<lambda>_ _. True) w1"
    unfolding send_comp_round_def add_int_def using w1
    by (cases s) (auto simp: wp_simps split: option.split wc_check.split prod.split
        intro!: wp_mono [OF wp_quiet_retry_poll [OF assms]])
qed simp

lemma wp_quiet_retry_send_compI:
  assumes "quiet_sender sys" and "poll_contract sys" and "length arr = 1"
    and "\<And>rv arr' w'. rv = 1 \<or> rv = -1 \<Longrightarrow> length arr' = 1 \<Longrightarrow> mem w' = mem w \<Longrightarrow>
        sent (trace w') = sent (trace w) \<Longrightarrow> Q (rv, arr') w'"
  shows "wp (retry_zero (dccs_rdma_send_comp sys cid 1 arr)) Q E w"
  unfolding send_comp.retry_once
proof (rule wp_mono)
  show "wp (dccs_rdma_send_comp sys cid 1 arr) (\<lambda>r w'. comp_post 1 1 r \<and> mem w' = mem w \<and>
      sent (trace w') = sent (trace w)) (\<lambda>_ _. False) w"
    using wp_conj [OF send_comp_bounds_wp [OF assms(2), of 1 arr cid w] wp_quiet_send_comp [OF assms(1)]]
      assms(3) by simp
qed (use assms(4) in \<open>auto simp: comp_post_def\<close>)

lemma wp_sent_deregI:
  "mr \<noteq> None \<Longrightarrow> (\<And>w'. sent (trace w') = sent (trace w) \<Longrightarrow> Q () w') \<Longrightarrow> wp (dccs_dereg_mr sys mr) Q E w"
  by (auto simp: dccs_dereg_mr_def wp_simps split: prod.split)

lemma wp_sent_freeI:
  "(\<And>w'. sent (trace w') = sent (trace w) \<Longrightarrow> Q () w') \<Longrightarrow> wp (call_free sys p) Q E w"
  by (auto simp: call_free_def wp_simps split: prod.split)

text \<open>
  An allocator that has room: the block it hands out is not null, does not overlap the stack slot,
  and handing it out changes no memory.
\<close>

definition alloc_ok :: "'e sys \<Rightarrow> u64 \<Rightarrow> u64 \<Rightarrow> 'e \<Rightarrow> bool" where
  "alloc_ok sys sz slot e \<longleftrightarrow> (\<forall>m. case sys_malloc (libc sys) sz e m of (p, e', m') \<Rightarrow>
     p \<noteq> 0 \<and> m' = m \<and> disjoint_ranges p (unat sz) slot 8)"

text \<open>Requests whose descriptors can be sent: enough of them, each with a region, and no overflow.\<close>

definition sendable :: "dccs_request list \<Rightarrow> u64 \<Rightarrow> bool" where
  "sendable reqs cnt \<longleftrightarrow> 16 * unat cnt < 2 ^ 64 \<and> unat cnt \<le> length reqs \<and>
     (\<forall>n < unat cnt. rq_mr (reqs ! n) \<noteq> None)"

lemma unat_array_size:
  "16 * unat cnt < 2 ^ 64 \<Longrightarrow> unat (cnt * sizeof_mr_info) = 16 * unat cnt"
  using unat_mult_lem [of cnt sizeof_mr_info] by (simp add: sizeof_mr_info_def mult.commute)

lemma send_infos_wp:
  assumes "quiet_sender sys" and "poll_contract sys" and "post_contract sys"
  shows "wp (send_infos sys cid p sz mrc mra) (\<lambda>rv w'. (rv = 1 \<or> rv = -1) \<and>
      (rv = 1 \<longrightarrow> sent (trace w') = sent (trace w) @
         [load_bytes (mem w) (local_addr sys ''count'') 8, load_bytes (mem w) p (unat sz)])) E w"
  unfolding send_infos_def
  by (intro wp_intros wp_quiet_sendI wp_quiet_retry_send_compI assms) auto

lemma send_registered_wp:
  assumes "quiet_sender sys" and "poll_contract sys" and "post_contract sys"
  shows "wp (bindP (dccs_reg_msgs sys cid (local_addr sys ''count'') 8) (\<lambda>mrc.
      if mrc = None then ret (-1) else
      bindP
       (bindP (dccs_reg_msgs sys cid p sz) (\<lambda>mra.
        if mra = None then ret (-1) else
        bindP (send_infos sys cid p sz mrc mra) (\<lambda>rv.
        thenP (dccs_dereg_mr sys mra) (ret rv)))) (\<lambda>rv.
      thenP (dccs_dereg_mr sys mrc) (ret rv)))) (\<lambda>rv w'. (rv = 1 \<or> rv = -1) \<and>
      (rv = 1 \<longrightarrow> sent (trace w') = sent (trace w) @
         [load_bytes (mem w) (local_addr sys ''count'') 8, load_bytes (mem w) p (unat sz)])) E w"
  by (intro wp_intros wp_quiet_regI wp_sent_deregI wp_mono [OF send_infos_wp] assms) auto

lemma send_local_mr_info_wp:
  assumes "quiet_sender sys" and "poll_contract sys" and "post_contract sys"
    and alloc: "alloc_ok sys (cnt * sizeof_mr_info) (local_addr sys ''count'') (env w)"
    and reqs: "sendable reqs cnt"
  shows "wp (send_local_mr_info sys cid reqs cnt) (\<lambda>rv w'. (rv = 1 \<or> rv = -1) \<and>
      (rv = 1 \<longrightarrow> sent (trace w') = sent (trace w) @
         [enc_host (host_endian sys) 8 (unat cnt), infos_image (take (unat cnt) reqs)]))
    (\<lambda>_ _. False) w"
proof -
  let ?sz = "cnt * sizeof_mr_info" and ?a = "local_addr sys ''count''"
  let ?m = "store_bytes (mem w) ?a (enc_host (host_endian sys) 8 (unat cnt))"
  have sz: "unat ?sz = 16 * unat cnt" using reqs by (simp add: sendable_def unat_array_size)
  obtain p e' where p: "sys_malloc (libc sys) ?sz (env w) ?m = (p, e', ?m)" "p \<noteq> 0"
    and dis: "disjoint_ranges p (16 * unat cnt) ?a 8"
    using alloc sz by (fastforce simp: alloc_ok_def)
  let ?im = "infos_image (take (unat cnt) reqs)"
  have len: "length ?im = 16 * unat cnt" using reqs by (simp add: sendable_def min_def)
  have count_image: "load_bytes (store_bytes ?m p ?im) ?a 8 = enc_host (host_endian sys) 8 (unat cnt)"
    using load_store_disjoint [of p ?im ?a 8 ?m] dis len
      load_store_bytes [of "enc_host (host_endian sys) 8 (unat cnt)" "mem w" ?a] by simp
  have infos: "load_bytes (store_bytes ?m p ?im) p (unat ?sz) = ?im"
    using load_store_bytes [of ?im ?m p] len sz unat_lt_64 [of ?sz] by simp
  let ?w2 = "w\<lparr>env := e', trace := trace w @ [Ev_malloc ?sz p],
      mem := store_bytes ?m p (replicate (unat ?sz) 0)\<rparr>"
  have loop: "wp (forP [0..<unat cnt] (store_info sys reqs p ?sz) ())
      (\<lambda>_ w'. w' = ?w2\<lparr>mem := store_bytes ?m p ?im\<rparr>) E ?w2" for E
    by (rule wp_mono [OF store_infos_wp [OF p(2) sz, where base = "?m"]])
      (use reqs sz in \<open>simp_all add: sendable_def\<close>)
  show ?thesis
    unfolding send_local_mr_info_def Let_def call_malloc_def
    by (simp add: wp_thenP wp_bindP wp_write_mem wp_ext_call p,
        rule wp_mono [OF loop [where E = "\<lambda>_ _. False"]], simp,
        rule wp_mono [OF send_registered_wp [OF assms(1-3), where E = "\<lambda>_ _. False"]],
        simp add: wp_thenP count_image infos, rule wp_sent_freeI, simp_all add: wp_ret)
qed

section \<open>What is learned from the wire\<close>

text \<open>The receiver's request \<open>r\<close> after it has read the descriptor of the sender's request \<open>s\<close>.\<close>

definition learn :: "dccs_request \<Rightarrow> dccs_request \<Rightarrow> dccs_request" where
  "learn r s = r\<lparr>rq_remote_addr := rq_buf s, rq_remote_rkey := mr_rkey (the (rq_mr s))\<rparr>"

definition learned :: "dccs_request list \<Rightarrow> dccs_request list \<Rightarrow> dccs_request list" where
  "learned rs reqs = map2 learn reqs rs @ drop (length rs) reqs"

lemma learned_Nil [simp]: "learned [] reqs = reqs"
  by (simp add: learned_def)

lemma length_learned [simp]: "length rs \<le> length reqs \<Longrightarrow> length (learned rs reqs) = length reqs"
  by (simp add: learned_def)

lemma nth_learned:
  "length rs \<le> length reqs \<Longrightarrow> n < length reqs \<Longrightarrow>
   learned rs reqs ! n = (if n < length rs then learn (reqs ! n) (rs ! n) else reqs ! n)"
  by (auto simp: learned_def nth_append)

lemma learned_step:
  assumes "i < length rs" and "length rs \<le> length reqs"
  shows "(learned (take i rs) reqs)[i := learn (reqs ! i) (rs ! i)] = learned (take (Suc i) rs) reqs"
  by (rule nth_equalityI) (use assms in \<open>auto simp: nth_learned nth_list_update min_def less_Suc_eq\<close>)

lemma load_bytes_slice:
  "i + j \<le> n \<Longrightarrow> load_bytes m (a + of_nat i) j = take j (drop i (load_bytes m a n))"
  by (rule nth_equalityI) (auto simp: add.assoc simp flip: of_nat_add)

lemma drop_infos_image: "i \<le> length rs \<Longrightarrow> drop (16 * i) (infos_image rs) = infos_image (drop i rs)"
proof (induction i arbitrary: rs)
  case (Suc i)
  then obtain r rs' where "rs = r # rs'" by (cases rs) auto
  then show ?case using Suc by (simp add: infos_image_def)
qed simp

lemma info_fields:
  assumes "load_bytes m p (16 * k) = infos_image rs" and "length rs = k" and "i < k"
  shows "load_bytes m (p + of_nat (16 * i)) 8 = rev (enc_le 8 (unat (rq_buf (rs ! i))))"
    and "load_bytes m (p + of_nat (16 * i) + 8) 4 = rev (enc_le 4 (unat (mr_rkey (the (rq_mr (rs ! i))))))"
proof -
  have "infos_image (drop i rs) = request_image (rs ! i) @ infos_image (drop (Suc i) rs)"
    using assms by (simp add: infos_image_def flip: Cons_nth_drop_Suc)
  then have "drop (16 * i) (infos_image rs) = request_image (rs ! i) @ infos_image (drop (Suc i) rs)"
    using assms by (simp add: drop_infos_image)
  then have d: "drop (16 * i) (load_bytes m p (16 * k)) = request_image (rs ! i) @ infos_image (drop (Suc i) rs)"
    using assms(1) by simp
  show "load_bytes m (p + of_nat (16 * i)) 8 = rev (enc_le 8 (unat (rq_buf (rs ! i))))"
    using load_bytes_slice [of "16 * i" 8 "16 * k" m p] d assms(3)
    by (simp add: request_image_def info_image_def)
  have "drop (16 * i + 8) (load_bytes m p (16 * k)) = drop 8 (drop (16 * i) (load_bytes m p (16 * k)))"
    by (simp add: add.commute)
  then show "load_bytes m (p + of_nat (16 * i) + 8) 4 = rev (enc_le 4 (unat (mr_rkey (the (rq_mr (rs ! i))))))"
    using load_bytes_slice [of "16 * i + 8" 4 "16 * k" m p] d assms(3)
    by (simp add: request_image_def info_image_def add.assoc)
qed

lemma net_decode:
  "ntohll e (of_nat (dec_host e (rev (enc_le 8 (unat x))))) = x"
  "ntohl e (of_nat (dec_host e (rev (enc_le 4 (unat y))))) = y"
  using nll.image_cross_host [of e e x] nl.image_cross_host [of e e y]
  by (simp_all add: nll.store_image nl.store_image)

lemma load_infos_wp:
  assumes p: "p \<noteq> 0" and sz: "unat sz = 16 * k" and k: "k \<le> length reqs" "length rs = k"
    and m: "load_bytes (mem w) p (16 * k) = infos_image rs"
  shows "wp (forP [0..<k] (load_info sys p sz) reqs)
     (\<lambda>reqs' w'. w' = w \<and> reqs' = learned rs reqs) E w"
proof -
  have "wp (forP [0..<k] (load_info sys p sz) reqs)
     (\<lambda>reqs' w'. w' = w \<and> reqs' = learned (take k rs) reqs) E w"
  proof (rule wp_forP [where I = "\<lambda>i reqs' w'. w' = w \<and> reqs' = learned (take i rs) reqs"])
    fix i reqs' w'
    assume i: "i < k" and inv: "w' = w \<and> reqs' = learned (take i rs) reqs"
    then have "reqs' ! i = reqs ! i" and "length reqs' = length reqs"
      using k by (simp_all add: nth_learned)
    then show "wp (load_info sys p sz i reqs')
       (\<lambda>reqs' w'. w' = w \<and> reqs' = learned (take (Suc i) rs) reqs) E w'"
      using learned_step [of i rs reqs] info_fields [OF m k(2) i] p sz k i inv
      by (simp add: load_info_def wp_simps net_decode learn_def)
  qed simp
  then show ?thesis using k by simp
qed

text \<open>
  A transport that delivers: \<open>inbox\<close> are the messages under way, \<open>bufs\<close> the posted receive
  buffers.  A successful receive completion puts the oldest message into the oldest buffer; the
  other calls of the receiving function disturb neither the two queues nor the memory.
\<close>

definition undisturbed ::
  "('e \<Rightarrow> u8 list list) \<Rightarrow> ('e \<Rightarrow> u64 list) \<Rightarrow> 'e \<Rightarrow> mem \<Rightarrow> 'e \<Rightarrow> mem \<Rightarrow> bool" where
  "undisturbed inbox bufs e m e' m' \<longleftrightarrow> inbox e' = inbox e \<and> bufs e' = bufs e \<and> m' = m"

definition delivers :: "'e sys \<Rightarrow> ('e \<Rightarrow> u8 list list) \<Rightarrow> ('e \<Rightarrow> u64 list) \<Rightarrow> bool" where
  "delivers sys inbox bufs \<longleftrightarrow>
     (\<forall>k i a n e m mr e' m'. rdma_reg (rdma sys) k i a n e m = (mr, e', m') \<longrightarrow>
        undisturbed inbox bufs e m e' m') \<and>
     (\<forall>n e m p e' m'. sys_malloc (libc sys) n e m = (p, e', m') \<longrightarrow> undisturbed inbox bufs e m e' m') \<and>
     (\<forall>i a n mr e m e' m'. rdma_post_recv (rdma sys) i a n mr e m = (0, e', m') \<longrightarrow>
        inbox e' = inbox e \<and> bufs e' = bufs e @ [a] \<and> m' = m) \<and>
     (\<forall>i e m wcs e' m'. ibv_poll_cq (rdma sys) (Recv_cq i) 1 e m = ((0, wcs), e', m') \<longrightarrow>
        undisturbed inbox bufs e m e' m') \<and>
     (\<forall>i e m wc e' m' a as msg msgs.
        ibv_poll_cq (rdma sys) (Recv_cq i) 1 e m = ((1, [wc]), e', m') \<longrightarrow>
        wc_status wc = IBV_WC_SUCCESS \<longrightarrow> bufs e = a # as \<longrightarrow> inbox e = msg # msgs \<longrightarrow>
        inbox e' = msgs \<and> bufs e' = as \<and> m' = store_bytes m a msg)"

lemma wp_deliver_regI:
  assumes "delivers sys inbox bufs"
    and "\<And>mr w'. undisturbed inbox bufs (env w) (mem w) (env w') (mem w') \<Longrightarrow> excused w w' (mr \<noteq> None) \<Longrightarrow> Q mr w'"
  shows "wp (dccs_reg_msgs sys cid a n) Q E w"
proof (cases "rdma_reg (rdma sys) Reg_msgs cid a n (env w) (mem w)")
  case (fields mr e' m')
  then have "undisturbed inbox bufs (env w) (mem w) e' m'"
    using assms(1) unfolding delivers_def by metis
  then show ?thesis
    by (auto simp: dccs_reg_msgs_def reg_call_def wp_simps fields excused_def failed_call_def intro!: assms(2))
qed

lemma wp_deliver_recvI:
  assumes "delivers sys inbox bufs" and "post_contract sys"
    and "\<And>w'. inbox (env w') = inbox (env w) \<Longrightarrow> bufs (env w') = bufs (env w) @ [a] \<Longrightarrow>
        mem w' = mem w \<Longrightarrow> excused w w' True \<Longrightarrow> Q 0 w'"
    and "\<And>w'. excused w w' False \<Longrightarrow> Q (-1) w'"
  shows "wp (dccs_rdma_recv sys cid a n mr) Q E w"
proof (cases "rdma_post_recv (rdma sys) cid a n mr (env w) (mem w)")
  case (fields rv e' m')
  have "rv = 0 \<or> rv = -1"
    using assms(2) fields unfolding post_contract_def by (metis fst_conv insert_iff empty_iff)
  moreover have "rv = 0 \<Longrightarrow> inbox e' = inbox (env w) \<and> bufs e' = bufs (env w) @ [a] \<and> m' = mem w"
    using assms(1) fields unfolding delivers_def by metis
  ultimately show ?thesis
    by (auto simp: dccs_rdma_recv_def wp_simps fields excused_def failed_call_def intro!: assms(3,4))
qed

lemma one_poll_cases:
  assumes "rv \<le> (1 :: int)" and "length wcs = nat rv"
  shows "rv < 0 \<and> wcs = [] \<or> rv = 0 \<or> rv = 1 \<and> (\<exists>wc. wcs = [wc])"
proof -
  consider "rv < 0" | "rv = 0" | "rv = 1" using assms(1) by linarith
  then show ?thesis using assms(2) by cases (auto simp: length_Suc_conv)
qed

lemma wp_deliver_poll:
  assumes D: "delivers sys inbox bufs" and C: "poll_contract sys"
    and q: "bufs (env w) = a # as" "inbox (env w) = msg # msgs"
  shows "wp (retry_zero (call_poll sys (Recv_cq cid) 1)) (\<lambda>(rv, wcs) w'.
     (rv < 0 \<and> wcs = [] \<or>
     rv = 1 \<and> (\<exists>wc. wcs = [wc] \<and> (wc_status wc = IBV_WC_SUCCESS \<longrightarrow>
        inbox (env w') = msgs \<and> bufs (env w') = as \<and> mem w' = store_bytes (mem w) a msg))) \<and>
     excused w w' (0 \<le> rv \<and> (\<forall>wc \<in> set wcs. wc_status wc = IBV_WC_SUCCESS))) E w"
proof (rule wp_retry_zero [where I = "\<lambda>w'. undisturbed inbox bufs (env w) (mem w) (env w') (mem w') \<and> excused w w' True"])
  fix w1 :: "'a world"
  assume "undisturbed inbox bufs (env w) (mem w) (env w1) (mem w1) \<and> excused w w1 True"
  then have I: "undisturbed inbox bufs (env w) (mem w) (env w1) (mem w1)" and more: "excused w w1 True"
    by simp_all
  obtain rv wcs e' m' where poll: "ibv_poll_cq (rdma sys) (Recv_cq cid) 1 (env w1) (mem w1) = ((rv, wcs), e', m')"
    by (metis prod.collapse)
  have rv: "rv \<le> 1" "length wcs = nat rv"
    using C poll unfolding poll_contract_def by force+
  consider "rv < 0" "wcs = []" | "rv = 0" | wc where "rv = 1" "wcs = [wc]"
    using one_poll_cases [OF rv] by blast
  then have "if rv = 0 then undisturbed inbox bufs (env w) (mem w) e' m' else
      rv < 0 \<and> wcs = [] \<or> rv = 1 \<and> (\<exists>wc. wcs = [wc] \<and> (wc_status wc = IBV_WC_SUCCESS \<longrightarrow>
        inbox e' = msgs \<and> bufs e' = as \<and> m' = store_bytes (mem w) a msg))"
  proof cases
    case 2
    then have "undisturbed inbox bufs (env w1) (mem w1) e' m'"
      using D poll unfolding delivers_def by metis
    with 2 I show ?thesis by (simp add: undisturbed_def)
  next
    case (3 wc)
    have "bufs (env w1) = a # as" "inbox (env w1) = msg # msgs" "mem w1 = mem w"
      using I q by (simp_all add: undisturbed_def)
    with 3 D poll have "wc_status wc = IBV_WC_SUCCESS \<Longrightarrow>
        inbox e' = msgs \<and> bufs e' = as \<and> m' = store_bytes (mem w) a msg"
      unfolding delivers_def by metis
    with 3 show ?thesis by simp
  qed simp
  moreover have "excused w (w1\<lparr>env := e', mem := m', trace := trace w1 @ [Ev_poll (Recv_cq cid) 1 rv wcs]\<rparr>)
      (0 \<le> rv \<and> (\<forall>wc \<in> set wcs. wc_status wc = IBV_WC_SUCCESS))"
    by (rule excused_last [OF more excused_call]) (auto simp: failed_call_def list_ex_iff)
  moreover from excused_last [OF more excused_call [where b = True]]
  have "excused w (w1\<lparr>env := e', mem := m', trace := trace w1 @ [Ev_poll (Recv_cq cid) 1 rv wcs]\<rparr>) True"
    by simp
  ultimately show "wp (call_poll sys (Recv_cq cid) 1) (\<lambda>x w'. if fst x = 0
      then undisturbed inbox bufs (env w) (mem w) (env w') (mem w') \<and> excused w w' True
      else (case x of (rv, wcs) \<Rightarrow> \<lambda>w'. (rv < 0 \<and> wcs = [] \<or> rv = 1 \<and> (\<exists>wc. wcs = [wc] \<and>
        (wc_status wc = IBV_WC_SUCCESS \<longrightarrow> inbox (env w') = msgs \<and> bufs (env w') = as \<and>
         mem w' = store_bytes (mem w) a msg))) \<and>
        excused w w' (0 \<le> rv \<and> (\<forall>wc \<in> set wcs. wc_status wc = IBV_WC_SUCCESS))) w') E w1"
    by (simp add: call_poll_def wp_simps poll split: if_splits)
qed (simp add: undisturbed_def excused_refl)

lemma wp_deliver_compI:
  assumes "delivers sys inbox bufs" and "poll_contract sys"
    and "bufs (env w) = a # as" and "inbox (env w) = msg # msgs"
    and "\<And>wc w'. inbox (env w') = msgs \<Longrightarrow> bufs (env w') = as \<Longrightarrow>
        mem w' = store_bytes (mem w) a msg \<Longrightarrow> excused w w' True \<Longrightarrow> Q (1, wc) w'"
    and "\<And>wc w'. excused w w' False \<Longrightarrow> Q (-1, wc) w'"
  shows "wp (retry_zero (dccs_rdma_recv_comp sys cid wc)) Q E w"
  unfolding recv_comp.retry_once
  unfolding dccs_rdma_recv_comp_def wp_bindP
  by (rule wp_mono [OF wp_deliver_poll [OF assms(1-4)]])
    (auto simp: write_wcs_def wp_simps Let_def excused_def intro!: assms(5,6))

text \<open>Posting a receive and waiting for it.\<close>

lemma wp_deliver_oneI:
  assumes D: "delivers sys inbox bufs" and C: "poll_contract sys" and P: "post_contract sys"
    and q: "bufs (env w) = []" "inbox (env w) = msg # msgs"
    and ok: "\<And>wc w'. inbox (env w') = msgs \<Longrightarrow> bufs (env w') = [] \<Longrightarrow>
        mem w' = store_bytes (mem w) a msg \<Longrightarrow> excused w w' True \<Longrightarrow> wp (G (1, wc)) Q E w'"
    and failed: "\<And>w'. excused w w' False \<Longrightarrow> wp (F (-1)) Q E w'"
      "\<And>wc w'. excused w w' False \<Longrightarrow> wp (G (-1, wc)) Q E w'"
  shows "wp (bindP (dccs_rdma_recv sys cid a n mr) (\<lambda>rv. if rv \<noteq> 0 then F rv else
     bindP (retry_zero (dccs_rdma_recv_comp sys cid wc)) G)) Q E w"
  unfolding wp_bindP
proof (rule wp_deliver_recvI [OF D P])
  fix w1 :: "'a world"
  assume w1: "inbox (env w1) = inbox (env w)" "bufs (env w1) = bufs (env w) @ [a]" "mem w1 = mem w"
    "excused w w1 True"
  have "wp (retry_zero (dccs_rdma_recv_comp sys cid wc)) (\<lambda>x. wp (G x) Q E) E w1"
    by (rule wp_deliver_compI [OF D C, where a = a and as = "[]" and msg = msg and msgs = msgs])
      (use w1 q ok failed excused_last [OF w1(4)] in auto)
  then show "wp (if 0 \<noteq> 0 then F 0 else bindP (retry_zero (dccs_rdma_recv_comp sys cid wc)) G) Q E w1"
    by (simp add: wp_bindP)
qed (simp add: failed)

text \<open>
  What the receiver makes of two messages: descriptors of \<open>rs\<close> when the count decodes to its own,
  nothing when it does not.
\<close>

definition received :: "endian \<Rightarrow> u64 \<Rightarrow> u8 list \<Rightarrow> dccs_request list \<Rightarrow> dccs_request list \<Rightarrow> dccs_request list" where
  "received e cnt msg rs reqs = (if of_nat (dec_host e msg) = cnt then learned rs reqs else reqs)"

lemma recv_infos_wp:
  assumes D: "delivers sys inbox bufs" and C: "poll_contract sys" and P: "post_contract sys"
    and p: "p \<noteq> 0" "unat sz = 16 * unat cnt" and k: "unat cnt \<le> length reqs" "length rs = unat cnt"
    and q: "bufs (env w) = []" "inbox (env w) = msg # infos_image rs # later" and msg: "length msg = 8"
  shows "wp (recv_infos sys cid reqs cnt p sz mrc mra) (\<lambda>(rv, reqs') w'. (rv = 1 \<or> rv = -1) \<and>
      reqs' = (if rv = 1 then received (host_endian sys) cnt msg rs reqs else reqs)) E w"
proof -
  have count: "load_bytes (store_bytes m a msg) a 8 = msg" for m a
    using load_store_bytes [of msg m a] msg by simp
  have infos: "load_bytes (store_bytes m p (infos_image rs)) p (16 * unat cnt) = infos_image rs" for m
    using load_store_bytes [of "infos_image rs" m p] k p(2) unat_lt_64 [of sz] by simp
  show ?thesis
    unfolding recv_infos_def
    by (intro wp_deliver_oneI [OF D C P, where a = "local_addr sys ''rcount''" and msg = msg]
        wp_deliver_oneI [OF D C P, where a = p and msg = "infos_image rs"] wp_intros wp_read_mem [THEN iffD2]
        wp_mono [OF load_infos_wp [OF p k]])
      (auto simp: q received_def count infos p)
qed

definition has_room :: "'e sys \<Rightarrow> u64 \<Rightarrow> 'e \<Rightarrow> bool" where
  "has_room sys sz e \<longleftrightarrow> (\<forall>m. fst (sys_malloc (libc sys) sz e m) \<noteq> 0)"

lemma wp_freeI: "(\<And>w'. excused w w' True \<Longrightarrow> Q () w') \<Longrightarrow> wp (call_free sys p) Q E w"
  by (simp add: call_free_def wp_simps excused_call split: prod.split)

lemma wp_deregI: "mr \<noteq> None \<Longrightarrow> (\<And>w'. excused w w' True \<Longrightarrow> Q () w') \<Longrightarrow> wp (dccs_dereg_mr sys mr) Q E w"
  by (cases mr) (simp_all add: dccs_dereg_mr_def wp_simps excused_call split: prod.split)

lemma recv_registered_wp:
  assumes D: "delivers sys inbox bufs" and C: "poll_contract sys" and P: "post_contract sys"
    and p: "p \<noteq> 0" "unat sz = 16 * unat cnt" and k: "unat cnt \<le> length reqs" "length rs = unat cnt"
    and q: "bufs (env w) = []" "inbox (env w) = msg # infos_image rs # later" and msg: "length msg = 8"
  shows "wp (bindP (dccs_reg_msgs sys cid (local_addr sys ''rcount'') 8) (\<lambda>mrc.
      if mrc = None then ret (-1, reqs) else
      bindP
       (bindP (dccs_reg_msgs sys cid p sz) (\<lambda>mra.
        if mra = None then ret (-1, reqs) else
        bindP (recv_infos sys cid reqs cnt p sz mrc mra) (\<lambda>res.
        thenP (dccs_dereg_mr sys mra) (ret res)))) (\<lambda>res.
      thenP (dccs_dereg_mr sys mrc) (ret res)))) (\<lambda>(rv, reqs') w'. (rv = 1 \<or> rv = -1) \<and>
      reqs' = (if rv = 1 then received (host_endian sys) cnt msg rs reqs else reqs)) E w"
  by (intro wp_intros wp_deliver_regI [OF D] wp_deregI
      wp_mono [OF recv_infos_wp [OF D C P p k _ _ msg]])
    (auto simp: undisturbed_def q)

lemma get_remote_mr_info_wp:
  assumes "delivers sys inbox bufs" and "poll_contract sys" and "post_contract sys"
    and room: "has_room sys (cnt * sizeof_mr_info) (env w)"
    and k: "16 * unat cnt < 2 ^ 64" "unat cnt \<le> length reqs" "length rs = unat cnt"
    and q: "bufs (env w) = []" "inbox (env w) = msg # infos_image rs # later" and msg: "length msg = 8"
  shows "wp (get_remote_mr_info sys cid reqs cnt) (\<lambda>(rv, reqs') w'. (rv = 1 \<or> rv = -1) \<and>
      reqs' = (if rv = 1 then received (host_endian sys) cnt msg rs reqs else reqs)) (\<lambda>_ _. False) w"
proof -
  let ?sz = "cnt * sizeof_mr_info"
  obtain p e' m' where p: "sys_malloc (libc sys) ?sz (env w) (mem w) = (p, e', m')"
    by (cases "sys_malloc (libc sys) ?sz (env w) (mem w)")
  have p0: "p \<noteq> 0" using room p unfolding has_room_def by (metis fst_conv)
  have "undisturbed inbox bufs (env w) (mem w) e' m'"
    using assms(1) p unfolding delivers_def by metis
  then have q': "bufs e' = []" "inbox e' = msg # infos_image rs # later"
    using q by (simp_all add: undisturbed_def)
  show ?thesis
    unfolding get_remote_mr_info_def Let_def call_malloc_def
    by (rule wp_bindP [THEN iffD2], simp add: wp_ext_call p p0, rule wp_bindP [THEN iffD2],
        (rule wp_thenP [THEN iffD2] wp_write_mem [THEN iffD2])+,
        rule wp_mono [OF recv_registered_wp [OF assms(1-3) p0 unat_array_size [OF k(1)] k(2,3) _ _ msg,
          where E = "\<lambda>_ _. False"]])
      (auto simp: q' wp_simps intro!: wp_freeI)
qed

text \<open>A count that is not the local one: the second message is never asked for.\<close>

lemma recv_infos_mismatch_wp:
  assumes D: "delivers sys inbox bufs" and C: "poll_contract sys" and P: "post_contract sys"
    and q: "bufs (env w) = []" "inbox (env w) = msg # later" and msg: "length msg = 8"
    and mismatch: "of_nat (dec_host (host_endian sys) msg) \<noteq> cnt"
  shows "wp (recv_infos sys cid reqs cnt p sz mrc mra) (\<lambda>(rv, reqs') w'. reqs' = reqs \<and> excused w w' (rv = 1)) E w"
proof -
  have count: "load_bytes (store_bytes m a msg) a 8 = msg" for m a
    using load_store_bytes [of msg m a] msg by simp
  have log: "excused w (w1\<lparr>trace := trace w1 @ [e]\<rparr>) b" if "excused w w1 b" for w1 e b
    by (rule excused_first [OF that excused_call [where b = True]]) simp_all
  show ?thesis
    unfolding recv_infos_def
    by (rule wp_deliver_oneI [OF D C P q])
      (auto simp: wp_simps count mismatch intro!: log elim: excused_first [OF _ excused_refl])
qed

lemma recv_registered_mismatch_wp:
  assumes D: "delivers sys inbox bufs" and C: "poll_contract sys" and P: "post_contract sys"
    and q: "bufs (env w) = []" "inbox (env w) = msg # later" and msg: "length msg = 8"
    and mismatch: "of_nat (dec_host (host_endian sys) msg) \<noteq> cnt"
  shows "wp (bindP (dccs_reg_msgs sys cid (local_addr sys ''rcount'') 8) (\<lambda>mrc.
      if mrc = None then ret (-1, reqs) else
      bindP
       (bindP (dccs_reg_msgs sys cid p sz) (\<lambda>mra.
        if mra = None then ret (-1, reqs) else
        bindP (recv_infos sys cid reqs cnt p sz mrc mra) (\<lambda>res.
        thenP (dccs_dereg_mr sys mra) (ret res)))) (\<lambda>res.
      thenP (dccs_dereg_mr sys mrc) (ret res)))) (\<lambda>(rv, reqs') w'. reqs' = reqs \<and> excused w w' (rv = 1)) E w"
  by (intro wp_intros wp_deliver_regI [OF D] wp_deregI
      wp_mono [OF recv_infos_mismatch_wp [OF D C P _ _ msg mismatch]])
    (auto simp: undisturbed_def q elim: excused_first excused_last,
     erule excused_first [rotated], erule excused_first [rotated], erule excused_last, erule excused_last, assumption)

lemma get_remote_mr_info_mismatch_wp:
  assumes "delivers sys inbox bufs" and "poll_contract sys" and "post_contract sys"
    and room: "has_room sys (cnt * sizeof_mr_info) (env w)" and k: "16 * unat cnt < 2 ^ 64"
    and q: "bufs (env w) = []" "inbox (env w) = msg # later" and msg: "length msg = 8"
    and mismatch: "of_nat (dec_host (host_endian sys) msg) \<noteq> cnt"
  shows "wp (get_remote_mr_info sys cid reqs cnt) (\<lambda>(rv, reqs') w'. reqs' = reqs \<and> excused w w' (rv = 1))
     (\<lambda>_ _. False) w"
proof -
  let ?sz = "cnt * sizeof_mr_info"
  obtain p e' m' where p: "sys_malloc (libc sys) ?sz (env w) (mem w) = (p, e', m')"
    by (cases "sys_malloc (libc sys) ?sz (env w) (mem w)")
  have p0: "p \<noteq> 0" using room p unfolding has_room_def by (metis fst_conv)
  have "undisturbed inbox bufs (env w) (mem w) e' m'"
    using assms(1) p unfolding delivers_def by metis
  then have q': "bufs e' = []" "inbox e' = msg # later"
    using q by (simp_all add: undisturbed_def)
  have start: "excused w w2 b" if "excused (w\<lparr>env := e', trace := trace w @ [Ev_malloc ?sz p], mem := m''\<rparr>) w2 b" for w2 m'' b
    by (rule excused_last [OF excused_call [where b = True] that]) simp_all
  show ?thesis
    unfolding get_remote_mr_info_def Let_def call_malloc_def
    by (rule wp_bindP [THEN iffD2], simp add: wp_ext_call p p0, rule wp_bindP [THEN iffD2],
        (rule wp_thenP [THEN iffD2] wp_write_mem [THEN iffD2])+,
        rule wp_mono [OF recv_registered_mismatch_wp [OF assms(1-3) _ _ msg mismatch, where E = "\<lambda>_ _. False"]])
      (auto simp: q' wp_simps intro!: wp_freeI excused_first [OF start])
qed

section \<open>Safety without assumptions on delivery\<close>

lemma wp_regI: "(\<And>mr w'. Q mr w') \<Longrightarrow> wp (dccs_reg_msgs sys cid a n) Q E w"
  by (simp add: dccs_reg_msgs_def reg_call_def wp_simps split: prod.split)

lemma wp_recvI: "(\<And>rv w'. Q rv w') \<Longrightarrow> wp (dccs_rdma_recv sys cid a n mr) Q E w"
  by (simp add: dccs_rdma_recv_def wp_simps split: prod.split)

lemma wp_sendI: "(\<And>rv w'. Q rv w') \<Longrightarrow> wp (dccs_rdma_send sys cid a n mr) Q E w"
  by (simp add: dccs_rdma_send_def dccs_rdma_send_with_flags_def wp_simps split: prod.split)

lemmas comm_safe = wp_regI wp_recvI wp_sendI wp_freeI wp_deregI wp_retry_recv_compI wp_retry_send_compI

lemma load_infos_safe:
  assumes "p \<noteq> 0" and "unat sz = 16 * k" and "k \<le> length reqs"
  shows "wp (forP [0..<k] (load_info sys p sz) reqs) (\<lambda>reqs' _. length reqs' = length reqs) E w"
  by (rule wp_forP [where I = "\<lambda>_ reqs' _. length reqs' = length reqs"])
    (use assms in \<open>auto simp: load_info_def wp_simps\<close>)

lemma store_infos_safe:
  assumes "p \<noteq> 0" and "unat sz = 16 * k" and "k \<le> length reqs" and "\<forall>n < k. rq_mr (reqs ! n) \<noteq> None"
  shows "wp (forP [0..<k] (store_info sys reqs p sz) ()) (\<lambda>_ _. True) E w"
  by (rule wp_forP [where I = "\<lambda>_ _ _. True"])
    (use assms in \<open>auto simp: store_info_def wp_simps\<close>)

lemma wp_mallocI:
  assumes "has_room sys sz (env w)" and "\<And>p w'. p \<noteq> 0 \<Longrightarrow> Q p w'"
  shows "wp (call_malloc sys sz) Q E w"
proof (cases "sys_malloc (libc sys) sz (env w) (mem w)")
  case (fields p e' m')
  then have "p \<noteq> 0" using assms(1) unfolding has_room_def by (metis fst_conv)
  then show ?thesis by (simp add: call_malloc_def wp_simps fields assms(2))
qed

lemma get_remote_mr_info_safe:
  assumes C: "poll_contract sys" and room: "has_room sys (cnt * sizeof_mr_info) (env w)"
    and k: "16 * unat cnt < 2 ^ 64" "unat cnt \<le> length reqs"
  shows "wp (get_remote_mr_info sys cid reqs cnt) (\<lambda>(rv, reqs') _. length reqs' = length reqs)
     (\<lambda>_ _. False) w"
  unfolding get_remote_mr_info_def Let_def recv_infos_def
  by (intro wp_intros wp_mallocI wp_write_mem [THEN iffD2] wp_read_mem [THEN iffD2] comm_safe C
      wp_mono [OF load_infos_safe [OF _ unat_array_size [OF k(1)] k(2)]])
    (auto simp: room)

lemma send_local_mr_info_safe:
  assumes C: "poll_contract sys" and room: "has_room sys (cnt * sizeof_mr_info) (env w)"
    and reqs: "sendable reqs cnt"
  shows "wp (send_local_mr_info sys cid reqs cnt) (\<lambda>_ _. True) (\<lambda>_ _. False) w"
  unfolding send_local_mr_info_def Let_def send_infos_def
  by (intro wp_intros wp_mallocI wp_write_mem [THEN iffD2] comm_safe C
      wp_mono [OF store_infos_safe [OF _ unat_array_size]])
    (use reqs in \<open>auto simp: room sendable_def\<close>)

section \<open>The concrete environment\<close>

lemma test_contracts:
  "live_nic (test_sys e)" "post_contract (test_sys e)" "quiet_sender (test_sys e)"
  "delivers (test_sys e) t_inbox t_recvs"
  by (auto simp: live_nic_def test_poll_contract test_poll_ready)
    (auto simp: post_contract_def quiet_sender_def delivers_def undisturbed_def test_defs Let_def
      split: list.splits cq.splits if_splits)

lemma test_allocator:
  "has_room (test_sys e) sz env0" "unat sz \<le> 2 ^ 63 \<Longrightarrow> alloc_ok (test_sys e) sz 0x200 env0"
  by (auto simp: has_room_def alloc_ok_def disjoint_ranges_def test_defs)

lemmas exchange_run = send_local_mr_info_def get_remote_mr_info_def Let_def send_infos_def recv_infos_def
  wp_simps test_run sizeof_mr_info_def call_malloc_def store_info_def load_info_def dccs_reg_msgs_def
  reg_call_def upt_2 dccs_rdma_send_def dccs_rdma_send_with_flags_def dccs_rdma_recv_def dccs_dereg_mr_def
  call_free_def send_comp.retry_once recv_comp.retry_once test_send_comp test_recv_comp

lemma load_store_same: "length bs = n \<Longrightarrow> n \<le> 2 ^ 64 \<Longrightarrow> load_bytes (store_bytes m a bs) a n = bs"
  using load_store_bytes [of bs m a] by simp

section \<open>Properties\<close>

lemma trades_owns: "trades {#} m (\<lambda>_. {#}) \<Longrightarrow> owns L w \<Longrightarrow> wp m (\<lambda>_. owns L) (\<lambda>_ _. True) w"
  by (auto simp: trades_def)

text \<open>
  C27. With a NIC that answers and an allocator that has room, receiving the remote descriptors
  returns on every path, failed ones included, without a fault; it keeps the number of requests
  and gives back the array and both memory regions.
\<close>

theorem get_remote_mr_info_returns:
  assumes "live_nic sys" and "owns L w" and "has_room sys (cnt * sizeof_mr_info) (env w)"
    and "16 * unat cnt < 2 ^ 64" and "unat cnt \<le> length reqs"
  shows "returns (get_remote_mr_info sys cid reqs cnt)
     (\<lambda>(rv, reqs') w'. length reqs' = length reqs \<and> owns L w') w"
proof (rule total_returns [OF total_exchange(1) [OF assms(1)]])
  have "poll_contract sys" using assms(1) by (simp add: live_nic_def)
  from wp_conj [OF get_remote_mr_info_safe [OF this assms(3-5)]
      trades_owns [OF trades_get_remote_mr_info assms(2)]]
  show "wp (get_remote_mr_info sys cid reqs cnt)
     (\<lambda>(rv, reqs') w'. length reqs' = length reqs \<and> owns L w') (\<lambda>_ _. False) w"
    by (rule wp_mono) auto
qed

theorem get_remote_mr_info_returns_witness:
  "returns (get_remote_mr_info (test_sys Little_endian) 5 (replicate 2 zero_request) 2)
     (\<lambda>(rv, reqs') w'. length reqs' = 2 \<and> owns {#} w')
     (world0\<lparr>env := env0\<lparr>t_fail := [''post_recv'']\<rparr>\<rparr>)"
  using get_remote_mr_info_returns [OF test_contracts(1) owns_world0(1),
      where cnt = 2 and reqs = "replicate 2 zero_request" and cid = 5]
  by (simp add: has_room_def test_defs)

text \<open>
  C28. Under the same conditions, and when every request that is to be described has a memory
  region, sending the local descriptors returns on every path without a fault and gives back the
  array and both memory regions.
\<close>

theorem send_local_mr_info_returns:
  assumes "live_nic sys" and "owns L w" and "has_room sys (cnt * sizeof_mr_info) (env w)"
    and "sendable reqs cnt"
  shows "returns (send_local_mr_info sys cid reqs cnt) (\<lambda>rv w'. owns L w') w"
proof (rule total_returns [OF total_exchange(2) [OF assms(1)]])
  have "poll_contract sys" using assms(1) by (simp add: live_nic_def)
  from wp_no_stop [OF trades_owns [OF trades_send_local_mr_info assms(2)]
      send_local_mr_info_safe [OF this assms(3,4)]]
  show "wp (send_local_mr_info sys cid reqs cnt) (\<lambda>rv w'. owns L w') (\<lambda>_ _. False) w" .
qed

text \<open>A request with a buffer and a region, and two of them.\<close>

definition example_request :: dccs_request where
  "example_request = zero_request\<lparr>rq_verb := Write, rq_buf := 0x7f0012345678,
     rq_mr := Some \<lparr>mr_handle = 9, mr_rkey = 0xCAFE\<rparr>\<rparr>"

lemma example_sendable: "sendable [example_request, example_request] 2"
  by (simp add: sendable_def example_request_def less_2_cases_iff)

theorem send_local_mr_info_returns_witness:
  "returns (send_local_mr_info (test_sys Big_endian) 5 [example_request, example_request] 2)
     (\<lambda>rv w'. owns {#} w') world0"
  by (rule send_local_mr_info_returns [OF test_contracts(1) owns_world0(2) _ example_sendable])
    (simp add: has_room_def test_defs)

lemma live_contract: "live_nic sys \<Longrightarrow> poll_contract sys"
  by (simp add: live_nic_def)

lemma count_image_same_order: "of_nat (dec_host e (enc_host e 8 (unat cnt))) = (cnt :: u64)"
  using unat_lt_64 [of cnt] by (simp add: dec_enc_host)

text \<open>What two such requests look like on the wire of a big-endian host, and runs on both sides.\<close>

definition example_inbox :: "u8 list list" where
  "example_inbox = [enc_host Big_endian 8 2, infos_image [example_request, example_request]]"

lemma example_send: "returns (send_local_mr_info (test_sys Big_endian) 5 [example_request, example_request] 2)
     (\<lambda>rv w'. rv = 1) world0"
  by (simp add: exchange_run example_request_def)

lemma example_get: "returns (get_remote_mr_info (test_sys Big_endian) 7 (replicate 2 zero_request) 2)
     (\<lambda>(rv, _) w'. rv = 1) (world0\<lparr>env := env0\<lparr>t_inbox := example_inbox\<rparr>\<rparr>)"
  by (simp add: exchange_run example_inbox_def load_store_same dec_enc_host)

text \<open>
  C1. The exchange of descriptors is a round trip.  When the sender reports success and the two
  messages it put on the wire are what the receiver's transport delivers, the receiver returns,
  and if it reports success too, each of its requests holds the buffer address and the remote key
  of the sender's request of the same index, its other fields unchanged.  Both hosts have the same
  byte order; the addresses and keys themselves travel in network byte order.
\<close>

theorem mr_exchange_roundtrip:
  assumes "live_nic s1" and "post_contract s1" and "quiet_sender s1"
    and "alloc_ok s1 (cnt * sizeof_mr_info) (local_addr s1 ''count'') (env w1)" and "sendable reqs1 cnt"
    and "live_nic s2" and "post_contract s2" and "delivers s2 inbox bufs"
    and "has_room s2 (cnt * sizeof_mr_info) (env w2)" and "unat cnt \<le> length reqs2"
    and "bufs (env w2) = []" and "host_endian s1 = host_endian s2"
  shows "returns (send_local_mr_info s1 c1 reqs1 cnt) (\<lambda>rv1 w1'.
     rv1 = 1 \<longrightarrow> sent (trace w1') = sent (trace w1) @ inbox (env w2) \<longrightarrow>
     returns (get_remote_mr_info s2 c2 reqs2 cnt) (\<lambda>(rv2, reqs2') _. (rv2 = 1 \<or> rv2 = -1) \<and>
       (rv2 = 1 \<longrightarrow> (\<forall>n < unat cnt. reqs2' ! n = learn (reqs2 ! n) (reqs1 ! n)))) w2) w1"
proof (rule total_returns [OF total_exchange(2) [OF assms(1)]],
    rule wp_mono [OF send_local_mr_info_wp [OF assms(3) live_contract [OF assms(1)] assms(2,4,5)]],
    intro impI)
  fix rv1 :: int and w1'
  assume "(rv1 = 1 \<or> rv1 = -1) \<and> (rv1 = 1 \<longrightarrow> sent (trace w1') = sent (trace w1) @
      [enc_host (host_endian s1) 8 (unat cnt), infos_image (take (unat cnt) reqs1)])"
    and "rv1 = 1" and "sent (trace w1') = sent (trace w1) @ inbox (env w2)"
  then have inbox: "inbox (env w2) =
      enc_host (host_endian s1) 8 (unat cnt) # infos_image (take (unat cnt) reqs1) # []"
    by simp
  have k: "16 * unat cnt < 2 ^ 64" "length (take (unat cnt) reqs1) = unat cnt"
    using assms(5) by (simp_all add: sendable_def)
  show "returns (get_remote_mr_info s2 c2 reqs2 cnt) (\<lambda>(rv2, reqs2') _. (rv2 = 1 \<or> rv2 = -1) \<and>
       (rv2 = 1 \<longrightarrow> (\<forall>n < unat cnt. reqs2' ! n = learn (reqs2 ! n) (reqs1 ! n)))) w2"
    by (rule total_returns [OF total_exchange(1) [OF assms(6)]],
        rule wp_mono [OF get_remote_mr_info_wp [OF assms(8) live_contract [OF assms(6)] assms(7,9)
          k(1) assms(10) k(2) assms(11) inbox]])
      (use assms(10,12) k(2) in \<open>auto simp: received_def count_image_same_order nth_learned split: if_splits\<close>)
qed simp

theorem mr_exchange_roundtrip_witness:
  "returns (send_local_mr_info (test_sys Big_endian) 5 [example_request, example_request] 2)
     (\<lambda>rv1 w1'. rv1 = 1 \<and> sent (trace w1') = example_inbox \<and>
       returns (get_remote_mr_info (test_sys Big_endian) 7 (replicate 2 zero_request) 2)
         (\<lambda>(rv2, reqs2') _. rv2 = 1 \<and> reqs2' ! 1 = learn zero_request example_request)
         (world0\<lparr>env := env0\<lparr>t_inbox := example_inbox\<rparr>\<rparr>)) world0"
proof -
  let ?s = "test_sys Big_endian" and ?w2 = "world0\<lparr>env := env0\<lparr>t_inbox := example_inbox\<rparr>\<rparr>"
  have env0: "env world0 = env0" by (simp add: world0_def)
  have alloc: "alloc_ok ?s (2 * sizeof_mr_info) (local_addr ?s ''count'') (env world0)"
    by (simp add: env0 test_select test_allocator sizeof_mr_info_def)
  have sent: "wp (send_local_mr_info ?s 5 [example_request, example_request] 2)
      (\<lambda>rv w'. rv = 1 \<longrightarrow> sent (trace w') = example_inbox) (\<lambda>_ _. False) world0"
    by (rule wp_mono [OF send_local_mr_info_wp [OF test_contracts(3) test_poll_contract
          test_contracts(2) alloc example_sendable]])
      (auto simp: world0_def example_inbox_def test_select)
  have room: "has_room ?s (2 * sizeof_mr_info) (env ?w2)" by (simp add: has_room_def test_run)
  note trip = mr_exchange_roundtrip [OF test_contracts(1,2,3) alloc example_sendable
      test_contracts(1,2,4) room, where ?reqs2.0 = "replicate 2 zero_request" and ?c1.0 = 5 and ?c2.0 = 7]
  have all: "returns (send_local_mr_info ?s 5 [example_request, example_request] 2)
     (\<lambda>rv1 w1'. rv1 = 1 \<longrightarrow> sent (trace w1') = example_inbox \<longrightarrow>
       returns (get_remote_mr_info ?s 7 (replicate 2 zero_request) 2) (\<lambda>(rv2, reqs2') _.
         rv2 = 1 \<longrightarrow> (\<forall>n < 2. reqs2' ! n = learn (replicate 2 zero_request ! n) example_request)) ?w2) world0"
    by (rule returns_mono [OF trip]) (auto simp: world0_def env0_def less_2_cases_iff elim!: returns_mono)
  have fin: "returns (get_remote_mr_info ?s 7 (replicate 2 zero_request) 2)
      (\<lambda>(rv2, reqs2') _. rv2 = 1 \<and> reqs2' ! 1 = learn zero_request example_request) ?w2"
    if "returns (get_remote_mr_info ?s 7 (replicate 2 zero_request) 2) (\<lambda>(rv2, reqs2') _.
      rv2 = 1 \<longrightarrow> (\<forall>n < 2. reqs2' ! n = learn (replicate 2 zero_request ! n) example_request)) ?w2"
    using returns_conj [OF example_get that] by (rule returns_mono) auto
  from returns_conj [OF all returns_wp_conj [OF example_send sent]] show ?thesis
    by (rule returns_mono) (use fin in blast)
qed

text \<open>
  C29. When the count the peer announces is not the local one (a different number of requests, or
  the same number sent by a host of the other byte order, since the count is not converted), no
  request is touched, whatever else the peer sends, but the result is 1, the same as after a complete
  exchange, unless a registration, a receive or a completion failed on the way; callers that test for
  a negative result do not notice.
\<close>

theorem get_remote_mr_info_count_mismatch:
  assumes "live_nic sys" and "post_contract sys" and "delivers sys inbox bufs"
    and "has_room sys (cnt * sizeof_mr_info) (env w)" and "16 * unat cnt < 2 ^ 64"
    and "bufs (env w) = []" and "inbox (env w) = msg # later" and "length msg = 8"
    and "of_nat (dec_host (host_endian sys) msg) \<noteq> cnt"
  shows "returns (get_remote_mr_info sys cid reqs cnt) (\<lambda>(rv, reqs') w'. reqs' = reqs \<and>
     (\<exists>es. trace w' = trace w @ es \<and> (rv = 1 \<or> list_ex failed_call es))) w"
  by (rule total_returns [OF total_exchange(1) [OF assms(1)]],
      rule wp_mono [OF get_remote_mr_info_mismatch_wp [OF assms(3) live_contract [OF assms(1)] assms(2,4-9)]])
    (auto simp: excused_def)

lemma enc_le_0: "enc_le k 0 = replicate k 0"
  by (induction k) simp_all

lemma enc_le_small: "n < 256 \<Longrightarrow> enc_le (Suc k) n = of_nat n # replicate k 0"
  by (simp add: enc_le_0)

lemma cross_order_count:
  "(of_nat (dec_host Little_endian (enc_host Big_endian 8 2)) :: u64) \<noteq> 2"
proof
  assume eq: "(of_nat (dec_host Little_endian (enc_host Big_endian 8 2)) :: u64) = 2"
  let ?bs = "enc_host Big_endian 8 2"
  have "unat (of_nat (dec_host Little_endian ?bs) :: u64) = dec_host Little_endian ?bs"
    by (rule dec_host_unat [where k = 8]) simp_all
  with eq have "dec_host Little_endian ?bs = 2" by simp
  then have "enc_host Little_endian (length ?bs) 2 = ?bs" by (metis enc_dec_host)
  then have "enc_le (Suc 7) 2 = rev (enc_le (Suc 7) 2)" by (simp add: enc_host_def)
  then have "hd (enc_le (Suc 7) 2) = hd (rev (enc_le (Suc 7) 2))" by simp
  moreover have "enc_le (Suc 7) 2 = 2 # replicate 7 0" by (subst enc_le_small) simp_all
  ultimately show False by (simp add: hd_append)
qed
text \<open>A little-endian receiver of the two descriptors a big-endian host sent.\<close>

lemma example_mismatch:
  "returns (get_remote_mr_info (test_sys Little_endian) 7 (replicate 2 zero_request) 2)
     (\<lambda>(rv, _) w'. rv = 1) (world0\<lparr>env := env0\<lparr>t_inbox := example_inbox\<rparr>\<rparr>)"
  by (simp add: exchange_run example_inbox_def load_store_same cross_order_count)

theorem get_remote_mr_info_count_mismatch_witness:
  "returns (get_remote_mr_info (test_sys Little_endian) 7 (replicate 2 zero_request) 2)
     (\<lambda>(rv, reqs') _. rv = 1 \<and> reqs' = replicate 2 zero_request)
     (world0\<lparr>env := env0\<lparr>t_inbox := example_inbox\<rparr>\<rparr>)"
proof -
  let ?w = "world0\<lparr>env := env0\<lparr>t_inbox := example_inbox\<rparr>\<rparr>"
  have "returns (get_remote_mr_info (test_sys Little_endian) 7 (replicate 2 zero_request) 2)
     (\<lambda>(rv, reqs') w'. reqs' = replicate 2 zero_request \<and>
        (\<exists>es. trace w' = trace ?w @ es \<and> (rv = 1 \<or> list_ex failed_call es))) ?w"
    by (rule get_remote_mr_info_count_mismatch [OF test_contracts(1,2,4), where
          msg = "enc_host Big_endian 8 2" and later = "[infos_image [example_request, example_request]]"])
      (simp_all add: has_room_def test_run example_inbox_def cross_order_count sizeof_mr_info_def)
  from returns_conj [OF this example_mismatch] show ?thesis
    by (rule returns_mono) auto
qed

end
