(* ===== verification/Requests.thy ===== *)
theory Requests
  imports Mr_Exchange
begin

text \<open>
  Batches of requests of \<open>dccs_rdma.h\<close>: \<open>send_requests\<close>, \<open>wait_requests\<close>, \<open>recv_requests\<close> and
  \<open>send_and_wait_requests\<close>.  The array of requests is a list, returned with the time stamps the
  functions store into it; the counter of failures is an \<open>int\<close> whose overflow ends the run.

  The lemmas relate the result of each function to the trace: which work requests were posted, in
  which order and with which flags, how many completions were waited for, and that the result
  counts the failures.  In latency mode no more than one work request is outstanding unless a poll fails.
\<close>

section \<open>The functions of the source\<close>

text \<open>\<open>failed_count++\<close> under its guard.\<close>

definition count_failed :: "bool \<Rightarrow> int \<Rightarrow> ('w, int) prog" where
  "count_failed failed failed_count = (if failed then add_int failed_count 1 else ret failed_count)"

lemma wp_count_failed [wp_simps]:
  "0 \<le> k \<Longrightarrow> k + 1 < 2 ^ 31 \<Longrightarrow> wp (count_failed b k) Q E w = Q (if b then k + 1 else k) w"
  by (simp add: count_failed_def wp_simps)

lemma wp_count_failedI:
  "0 \<le> k \<Longrightarrow> k + 1 < 2 ^ 31 \<Longrightarrow> Q (if b then k + 1 else k) w \<Longrightarrow> wp (count_failed b k) Q E w"
  by (simp add: wp_count_failed)

lemma total_count_failed: "total (count_failed b k)"
  by (simp add: count_failed_def total_ret total_add_int)

text \<open>One round of \<open>send_requests\<close>.\<close>

definition send_step ::
  "'e sys \<Rightarrow> cm_id \<Rightarrow> nat \<Rightarrow> int \<times> dccs_request list \<Rightarrow> ('e world, int \<times> dccs_request list) prog" where
  "send_step sys cid n = (\<lambda>(failed_count, requests).
     if length requests \<le> n then halt (Fault Out_of_bounds) else
     (let request = requests ! n in
      case rq_verb request of
        Send \<Rightarrow>
          bindP (dccs_rdma_send sys cid (rq_buf request) (rq_length request) (rq_mr request)) (\<lambda>rv.
          bindP (get_cycles sys) (\<lambda>t.
          bindP (count_failed (rv \<noteq> 0) failed_count) (\<lambda>failed_count.
          ret (failed_count, requests[n := request\<lparr>rq_start := t\<rparr>]))))
      | Read \<Rightarrow>
          bindP (dccs_rdma_read sys cid (rq_buf request) (rq_length request) (rq_mr request)
                   (rq_remote_addr request) (rq_remote_rkey request)) (\<lambda>rv.
          bindP (get_cycles sys) (\<lambda>t.
          bindP (count_failed (rv \<noteq> 0) failed_count) (\<lambda>failed_count.
          ret (failed_count, requests[n := request\<lparr>rq_start := t\<rparr>]))))
      | Write \<Rightarrow>
          bindP (dccs_rdma_write sys cid (rq_buf request) (rq_length request) (rq_mr request)
                   (rq_remote_addr request) (rq_remote_rkey request)) (\<lambda>rv.
          bindP (get_cycles sys) (\<lambda>t.
          bindP (count_failed (rv \<noteq> 0) failed_count) (\<lambda>failed_count.
          ret (failed_count, requests[n := request\<lparr>rq_start := t\<rparr>]))))
      | None_verb \<Rightarrow>
          thenP (log_warning ''Unrecognized request (n = %zu).'') (ret (failed_count, requests))))"

definition sent_message :: string where
  "sent_message = ''Time elapsed to send all requests: %.3f '' @ micro_sec @ ''.\<newline>''"

definition send_requests ::
  "'e sys \<Rightarrow> cm_id \<Rightarrow> dccs_request list \<Rightarrow> u64 \<Rightarrow> ('e world, int \<times> dccs_request list) prog" where
  "send_requests sys cid requests cnt =
     bindP (get_cycles sys) (\<lambda>start.
     bindP (forP [0..<unat cnt] (send_step sys cid) (0, requests)) (\<lambda>(failed_count, requests).
     bindP (get_cycles sys) (\<lambda>stop.
     thenP (log_debug sent_message)
    (ret (- failed_count, requests)))))"

text \<open>One round of \<open>wait_requests\<close>; \<open>&wc\<close> is an array of one entry.\<close>

definition wait_step ::
  "'e sys \<Rightarrow> cm_id \<Rightarrow> nat \<Rightarrow> int \<times> ibv_wc list \<times> dccs_request list
    \<Rightarrow> ('e world, int \<times> ibv_wc list \<times> dccs_request list) prog" where
  "wait_step sys cid n = (\<lambda>(failed_count, wc, requests).
     bindP (dccs_rdma_send_comp sys cid 1 wc) (\<lambda>(rv, wc).
     bindP (get_cycles sys) (\<lambda>t.
     if length requests \<le> n then halt (Fault Out_of_bounds) else
     bindP (count_failed (rv < 0) failed_count) (\<lambda>failed_count.
     ret (failed_count, wc, requests[n := (requests ! n)\<lparr>rq_end := t\<rparr>])))))"

definition wait_requests ::
  "'e sys \<Rightarrow> cm_id \<Rightarrow> dccs_request list \<Rightarrow> u64 \<Rightarrow> ('e world, int \<times> dccs_request list) prog" where
  "wait_requests sys cid requests cnt =
     bindP (forP [0..<unat cnt] (wait_step sys cid) (0, [fresh_wc], requests))
       (\<lambda>(failed_count, wc, requests). ret (- failed_count, requests))"

definition recv_step ::
  "'e sys \<Rightarrow> cm_id \<Rightarrow> dccs_request list \<Rightarrow> nat \<Rightarrow> int \<times> ibv_wc \<Rightarrow> ('e world, int \<times> ibv_wc) prog" where
  "recv_step sys cid requests n = (\<lambda>(failed_count, wc).
     if length requests \<le> n then halt (Fault Out_of_bounds) else
     (let request = requests ! n in
      bindP (dccs_rdma_recv sys cid (rq_buf request) (rq_length request) (rq_mr request)) (\<lambda>rv.
      thenP (whenP (rv \<noteq> 0) (log_error ''Failed to recv messages.\<newline>''))
     (bindP (count_failed (rv \<noteq> 0) failed_count) (\<lambda>failed_count.
      bindP (retry_zero (dccs_rdma_recv_comp sys cid wc)) (\<lambda>(rv, wc).
      thenP (whenP (rv < 0) (log_error ''Failed to recv messages.\<newline>''))
     (bindP (count_failed (rv < 0) failed_count) (\<lambda>failed_count.
      ret (failed_count, wc)))))))))"

definition recv_requests ::
  "'e sys \<Rightarrow> cm_id \<Rightarrow> dccs_request list \<Rightarrow> dccs_parameters \<Rightarrow> ('e world, int) prog" where
  "recv_requests sys cid requests params =
     bindP (forP [0..<unat (p_count params)] (recv_step sys cid requests) (0, fresh_wc))
       (\<lambda>(failed_count, wc). ret (- failed_count))"

text \<open>The \<open>switch\<close> of \<open>send_and_wait_requests\<close>; an unknown verb leaves \<open>rv\<close> at 0.\<close>

definition post_request ::
  "'e sys \<Rightarrow> cm_id \<Rightarrow> send_flag set \<Rightarrow> dccs_request \<Rightarrow> ('e world, int) prog" where
  "post_request sys cid flags request = (case rq_verb request of
      Send \<Rightarrow> dccs_rdma_send_with_flags sys cid (rq_buf request) (rq_length request) (rq_mr request) flags
    | Read \<Rightarrow> dccs_rdma_read_with_flags sys cid (rq_buf request) (rq_length request) (rq_mr request)
                (rq_remote_addr request) (rq_remote_rkey request) flags
    | Write \<Rightarrow> dccs_rdma_write_with_flags sys cid (rq_buf request) (rq_length request) (rq_mr request)
                (rq_remote_addr request) (rq_remote_rkey request) flags
    | None_verb \<Rightarrow> thenP (log_warning ''Unrecognized request (n = %zu).'') (ret 0))"

text \<open>One round of its loop; the locals are the flags, the counter, \<open>wc\<close> and the requests.\<close>

definition send_wait_step ::
  "'e sys \<Rightarrow> cm_id \<Rightarrow> nat \<Rightarrow> nat \<Rightarrow> send_flag set \<times> int \<times> ibv_wc list \<times> dccs_request list
    \<Rightarrow> ('e world, send_flag set \<times> int \<times> ibv_wc list \<times> dccs_request list) prog" where
  "send_wait_step sys cid cnt n = (\<lambda>(flags, failed_count, wc, requests).
     if length requests \<le> n then halt (Fault Out_of_bounds) else
     (let flags = (if n = cnt - 1 then insert IBV_SEND_SIGNALED flags else flags) in
      bindP (post_request sys cid flags (requests ! n)) (\<lambda>rv.
      bindP (get_cycles sys) (\<lambda>t.
      let requests = requests[n := (requests ! n)\<lparr>rq_start := t\<rparr>]; failed = (rv \<noteq> 0) in
      bindP (if IBV_SEND_SIGNALED \<in> flags then
               bindP (dccs_rdma_send_comp sys cid 1 wc) (\<lambda>(rv, wc).
               bindP (get_cycles sys) (\<lambda>t.
               ret (failed \<or> rv < 0, wc, requests[n := (requests ! n)\<lparr>rq_end := t\<rparr>])))
             else ret (failed, wc, requests)) (\<lambda>(failed, wc, requests).
      bindP (count_failed failed failed_count) (\<lambda>failed_count.
      ret (flags, failed_count, wc, requests)))))))"

definition sent_and_waited_message :: string where
  "sent_and_waited_message =
     ''Time elapsed to send and wait all requests: %.3f '' @ micro_sec @ ''.\<newline>''"

definition send_and_wait_requests ::
  "'e sys \<Rightarrow> cm_id \<Rightarrow> dccs_request list \<Rightarrow> dccs_parameters
    \<Rightarrow> ('e world, int \<times> dccs_request list) prog" where
  "send_and_wait_requests sys cid requests params =
     (let flags = (case p_mode params of MODE_LATENCY \<Rightarrow> {IBV_SEND_SIGNALED} | MODE_THROUGHPUT \<Rightarrow> {}) in
      bindP (get_cycles sys) (\<lambda>start.
      bindP (forP [0..<unat (p_count params)] (send_wait_step sys cid (unat (p_count params)))
               (flags, 0, [fresh_wc], requests)) (\<lambda>(flags, failed_count, wc, requests).
      bindP (get_cycles sys) (\<lambda>stop.
      thenP (log_debug sent_and_waited_message)
     (ret (- failed_count, requests))))))"

section \<open>What a trace says\<close>

text \<open>
  The completions a poll reported, the polls that failed and so reported none, and all calls that
  failed: a posting that was refused, a failed poll, a completion with an error status.
\<close>

fun completions :: "event \<Rightarrow> nat" where
  "completions (Ev_poll q num rv wcs) = nat rv"
| "completions _ = 0"

definition reaped :: "event list \<Rightarrow> nat" where
  "reaped es = sum_list (map completions es)"

fun failed_poll :: "event \<Rightarrow> bool" where
  "failed_poll (Ev_poll q num rv wcs) = (rv < 0)"
| "failed_poll _ = False"

definition poll_errors :: "event list \<Rightarrow> nat" where
  "poll_errors es = length (filter failed_poll es)"

definition failures :: "event list \<Rightarrow> nat" where
  "failures es = length (filter failed_event es)"

lemma tally_simps [simp]:
  "reaped [] = 0" "reaped (e # es) = completions e + reaped es"
  "reaped (es @ fs) = reaped es + reaped fs"
  "poll_errors [] = 0" "poll_errors (e # es) = (if failed_poll e then 1 else 0) + poll_errors es"
  "poll_errors (es @ fs) = poll_errors es + poll_errors fs"
  "failures [] = 0" "failures (e # es) = (if failed_event e then 1 else 0) + failures es"
  "failures (es @ fs) = failures es + failures fs"
  by (simp_all add: reaped_def poll_errors_def failures_def)

lemma tally_log [simp]: "completions (log_entry level fmt) = 0" "\<not> failed_poll (log_entry level fmt)"
  "\<not> failed_event (log_entry level fmt)"
  by (simp_all add: log_entry_def)

text \<open>The work requests a request asks for, and a request without its time stamps.\<close>

fun wr_for :: "send_flag set \<Rightarrow> dccs_request \<Rightarrow> wr list" where
  "wr_for fl r = (case rq_verb r of
      None_verb \<Rightarrow> []
    | Send \<Rightarrow> [\<lparr>wr_verb = Send, wr_addr = rq_buf r, wr_len = rq_length r, wr_mr = rq_mr r,
        wr_flags = fl, wr_remote = (0, 0)\<rparr>]
    | v \<Rightarrow> [\<lparr>wr_verb = v, wr_addr = rq_buf r, wr_len = rq_length r, wr_mr = rq_mr r,
        wr_flags = fl, wr_remote = (rq_remote_addr r, rq_remote_rkey r)\<rparr>])"

definition untimed :: "dccs_request \<Rightarrow> dccs_request" where
  "untimed r = r\<lparr>rq_start := 0, rq_end := 0\<rparr>"

declare wr_for.simps [simp del]

lemma untimed_simps [simp]:
  "untimed (r\<lparr>rq_start := t\<rparr>) = untimed r" "untimed (r\<lparr>rq_end := t\<rparr>) = untimed r"
  "wr_for fl (untimed r) = wr_for fl r" "length (wr_for fl r) \<le> 1"
  by (simp_all add: untimed_def wr_for.simps split: Verb.split)

text \<open>
  Between two worlds: what was posted, how often a completion or a failed poll ended a wait, and
  how many calls failed.
\<close>

definition logged :: "'e world \<Rightarrow> 'e world \<Rightarrow> wr list \<Rightarrow> nat \<Rightarrow> nat \<Rightarrow> bool" where
  "logged w w' ps r f \<longleftrightarrow>
     (\<exists>es. trace w' = trace w @ es \<and> posted es = ps \<and> reaped es + poll_errors es = r \<and> failures es = f)"

lemma logged_refl: "logged w w [] 0 0"
  by (simp add: logged_def)

lemma logged_trans:
  "logged w w1 ps r f \<Longrightarrow> logged w1 w2 qs s g \<Longrightarrow> logged w w2 (ps @ qs) (r + s) (f + g)"
  by (fastforce simp: logged_def)

lemma logged_log:
  "logged w w1 ps r f \<Longrightarrow> logged w (w1\<lparr>trace := trace w1 @ [log_entry level fmt]\<rparr>) ps r f"
  by (fastforce simp: logged_def)

section \<open>Symbolic execution with tallies\<close>

lemma wp_clockI:
  assumes "\<And>t w'. logged w w' [] 0 0 \<Longrightarrow> Q t w'"
  shows "wp (get_cycles sys) Q E w"
  unfolding get_cycles_def by (intro wp_intros assms) (simp add: logged_def)

lemma wp_post_requestI:
  assumes "\<And>rv w'. logged w w' (wr_for fl r) 0 (if rv \<noteq> 0 then 1 else 0) \<Longrightarrow> Q rv w'"
  shows "wp (post_request sys cid fl r) Q E w"
proof -
  have "wp (post_request sys cid fl r)
      (\<lambda>rv w'. logged w w' (wr_for fl r) 0 (if rv \<noteq> 0 then 1 else 0)) E w"
    by (auto simp: post_request_def dccs_rdma_send_with_flags_def dccs_rdma_read_with_flags_def
        dccs_rdma_write_with_flags_def wp_simps wr_for.simps logged_def split: Verb.split prod.split)
  then show ?thesis by (rule wp_mono) (use assms in auto)
qed

lemma wp_logged_recvI:
  assumes "\<And>rv w'. logged w w' [] 0 (if rv \<noteq> 0 then 1 else 0) \<Longrightarrow> Q rv w'"
  shows "wp (dccs_rdma_recv sys cid a n mr) Q E w"
proof -
  have "wp (dccs_rdma_recv sys cid a n mr) (\<lambda>rv w'. logged w w' [] 0 (if rv \<noteq> 0 then 1 else 0)) E w"
    by (auto simp: dccs_rdma_recv_def wp_simps logged_def split: prod.split)
  then show ?thesis by (rule wp_mono) (use assms in auto)
qed

text \<open>Polling until something is reported ends with exactly one completion or one failed poll.\<close>

definition bad_reply :: "int \<Rightarrow> ibv_wc list \<Rightarrow> bool" where
  "bad_reply rv wcs \<longleftrightarrow> rv < 0 \<or> list_ex (\<lambda>wc. wc_status wc \<noteq> IBV_WC_SUCCESS) wcs"

lemma wp_logged_poll:
  assumes C: "poll_contract sys"
  shows "wp (retry_zero (call_poll sys q 1)) (\<lambda>(rv, wcs) w'.
     (rv < 0 \<and> wcs = [] \<or> rv = 1 \<and> (\<exists>wc. wcs = [wc])) \<and>
     logged w w' [] 1 (if bad_reply rv wcs then 1 else 0)) E w"
proof (rule wp_retry_zero [where I = "\<lambda>w'. logged w w' [] 0 0"])
  fix w1 :: "'a world"
  assume I: "logged w w1 [] 0 0"
  obtain rv wcs e' m' where poll: "ibv_poll_cq (rdma sys) q 1 (env w1) (mem w1) = ((rv, wcs), e', m')"
    by (metis prod.collapse)
  have rv: "rv \<le> 1" "length wcs = nat rv"
    using C poll unfolding poll_contract_def by force+
  let ?w2 = "w1\<lparr>env := e', mem := m', trace := trace w1 @ [Ev_poll q 1 rv wcs]\<rparr>"
  have "logged w1 ?w2 [] (if rv = 0 then 0 else 1) (if bad_reply rv wcs then 1 else 0)"
    by (use rv in \<open>auto simp: logged_def bad_reply_def\<close>)
  from logged_trans [OF I this] show "wp (call_poll sys q 1) (\<lambda>x w'. if fst x = 0 then logged w w' [] 0 0
      else (case x of (rv, wcs) \<Rightarrow> \<lambda>w'. (rv < 0 \<and> wcs = [] \<or> rv = 1 \<and> (\<exists>wc. wcs = [wc])) \<and>
        logged w w' [] 1 (if bad_reply rv wcs then 1 else 0)) w') E w1"
    using one_poll_cases [OF rv] rv by (auto simp: call_poll_def wp_simps poll bad_reply_def)
qed (rule logged_refl)

lemma logged_send_comp_round:
  assumes C: "poll_contract sys" and s: "length (snd s) = 1" "fst s = 0 \<and> w1 = w \<or> fst s = 1 \<and> logged w w1 [] 1 0"
  shows "wp (send_comp_round sys cid 1 s) (\<lambda>x w'. case x of
      Inl (rv, arr) \<Rightarrow> length arr = 1 \<and> (rv = 1 \<or> rv = -1) \<and> logged w w' [] 1 (if rv < 0 then 1 else 0)
    | Inr s' \<Rightarrow> length (snd s') = 1 \<and> (fst s' = 0 \<and> w' = w \<or> fst s' = 1 \<and> logged w w' [] 1 0)) E w1"
proof (cases s)
  case (Pair k arr)
  then obtain wc where arr: "arr = [wc]" using s(1) by (auto simp: length_Suc_conv)
  show ?thesis
  proof (cases "k = 0")
    case True
    then have w1: "w1 = w" using s(2) Pair by auto
    show ?thesis
      unfolding Pair arr True w1 send_comp_round_def prod.case
      by (simp add: wp_bindP, rule wp_mono [OF wp_logged_poll [OF C]])
        (auto simp: write_wcs_def wp_simps bad_reply_def intro!: logged_log)
  next
    case False
    then show ?thesis using s Pair by (simp add: send_comp_round_def wp_simps)
  qed
qed

lemma wp_logged_send_compI:
  assumes C: "poll_contract sys" and arr: "length arr = 1"
    and Q: "\<And>rv arr' w'. length arr' = 1 \<Longrightarrow> rv = 1 \<or> rv = -1 \<Longrightarrow>
        logged w w' [] 1 (if rv < 0 then 1 else 0) \<Longrightarrow> Q (rv, arr') w'"
  shows "wp (dccs_rdma_send_comp sys cid 1 arr) Q E w"
  unfolding dccs_rdma_send_comp_def
proof (rule wp_loopP [where I = "\<lambda>s w'. length (snd s) = 1 \<and>
      (fst s = 0 \<and> w' = w \<or> fst s = 1 \<and> logged w w' [] 1 0)"])
  fix s :: "int \<times> ibv_wc list" and w1 :: "'a world"
  assume "length (snd s) = 1 \<and> (fst s = 0 \<and> w1 = w \<or> fst s = 1 \<and> logged w w1 [] 1 0)"
  from logged_send_comp_round [OF C, of s w1 w] this
  have "wp (send_comp_round sys cid 1 s) (\<lambda>x w'. case x of
      Inl (rv, arr) \<Rightarrow> length arr = 1 \<and> (rv = 1 \<or> rv = -1) \<and> logged w w' [] 1 (if rv < 0 then 1 else 0)
    | Inr s' \<Rightarrow> length (snd s') = 1 \<and> (fst s' = 0 \<and> w' = w \<or> fst s' = 1 \<and> logged w w' [] 1 0)) E w1"
    by blast
  then show "wp (send_comp_round sys cid 1 s) (\<lambda>x w'. case x of Inl r \<Rightarrow> Q r w' | Inr s' \<Rightarrow>
      length (snd s') = 1 \<and> (fst s' = 0 \<and> w' = w \<or> fst s' = 1 \<and> logged w w' [] 1 0)) E w1"
    by (rule wp_mono) (auto split: sum.splits intro: Q)
qed (use arr in simp)

lemma wp_logged_recv_compI:
  assumes C: "poll_contract sys"
    and Q: "\<And>rv wc w'. rv = 1 \<or> rv = -1 \<Longrightarrow> logged w w' [] 1 (if rv < 0 then 1 else 0) \<Longrightarrow> Q (rv, wc) w'"
  shows "wp (retry_zero (dccs_rdma_recv_comp sys cid wc)) Q E w"
  unfolding recv_comp.retry_once
  unfolding dccs_rdma_recv_comp_def wp_bindP
  by (rule wp_mono [OF wp_logged_poll [OF C]])
    (auto simp: write_wcs_def wp_simps Let_def bad_reply_def intro!: Q logged_log)

section \<open>Batches\<close>

text \<open>The requests after a batch, up to time stamps.\<close>

definition same_requests :: "dccs_request list \<Rightarrow> dccs_request list \<Rightarrow> bool" where
  "same_requests xs ys \<longleftrightarrow> map untimed xs = map untimed ys"

lemma same_requests_length: "same_requests xs ys \<Longrightarrow> length xs = length ys"
  unfolding same_requests_def by (rule map_eq_imp_length_eq)

lemma same_requests_refl [simp]: "same_requests xs xs"
  by (simp add: same_requests_def)

lemma same_requests_nth:
  assumes "same_requests xs ys" and "n < length ys"
  shows "wr_for fl (xs ! n) = wr_for fl (ys ! n)"
proof -
  have "untimed (xs ! n) = untimed (ys ! n)"
    using assms same_requests_length [OF assms(1)] unfolding same_requests_def by (metis nth_map)
  then show ?thesis by (metis untimed_simps(3))
qed

lemma same_requests_update:
  assumes "same_requests xs ys" and "n < length ys" and "untimed r = untimed (xs ! n)"
  shows "same_requests (xs[n := r]) ys"
  using assms same_requests_length [OF assms(1)]
  by (simp add: same_requests_def map_update) (metis list_update_id nth_map)

lemma send_step_eq:
  "send_step sys cid n (k, reqs) =
     (if length reqs \<le> n then halt (Fault Out_of_bounds)
      else if rq_verb (reqs ! n) = None_verb then
        thenP (log_warning ''Unrecognized request (n = %zu).'') (ret (k, reqs))
      else bindP (post_request sys cid {IBV_SEND_SIGNALED} (reqs ! n)) (\<lambda>rv.
        bindP (get_cycles sys) (\<lambda>t.
        bindP (count_failed (rv \<noteq> 0) k) (\<lambda>k.
        ret (k, reqs[n := (reqs ! n)\<lparr>rq_start := t\<rparr>])))))"
  by (cases "rq_verb (reqs ! n)")
    (simp_all add: send_step_def post_request_def dccs_rdma_send_def dccs_rdma_read_def
      dccs_rdma_write_def Let_def)

definition send_inv ::
  "'e world \<Rightarrow> dccs_request list \<Rightarrow> nat \<Rightarrow> int \<times> dccs_request list \<Rightarrow> 'e world \<Rightarrow> bool" where
  "send_inv w reqs i s w' \<longleftrightarrow> same_requests (snd s) reqs \<and> 0 \<le> fst s \<and> fst s \<le> int i \<and>
     logged w w' (concat (map (wr_for {IBV_SEND_SIGNALED}) (take i reqs))) 0 (nat (fst s))"

lemma send_step_inv:
  assumes inv: "send_inv w reqs i s w1" and i: "i < length reqs" "i + 1 < 2 ^ 31"
  shows "wp (send_step sys cid i s) (send_inv w reqs (Suc i)) (\<lambda>_ _. False) w1"
proof (cases s)
  case (Pair k xs)
  let ?fl = "{IBV_SEND_SIGNALED}"
  have same: "same_requests xs reqs" and k: "0 \<le> k" "k \<le> int i"
    and L: "logged w w1 (concat (map (wr_for ?fl) (take i reqs))) 0 (nat k)"
    using inv by (simp_all add: send_inv_def Pair)
  have len: "length xs = length reqs" using same by (rule same_requests_length)
  have tk: "concat (map (wr_for ?fl) (take (Suc i) reqs)) =
      concat (map (wr_for ?fl) (take i reqs)) @ wr_for ?fl (xs ! i)"
    using i by (simp add: take_Suc_conv_app_nth same_requests_nth [OF same i(1)])
  have post: "send_inv w reqs (Suc i) (if rv \<noteq> 0 then k + 1 else k, xs[i := (xs ! i)\<lparr>rq_start := t\<rparr>]) w3"
    if "logged w1 w2 (wr_for ?fl (xs ! i)) 0 (if rv \<noteq> 0 then 1 else 0)" "logged w2 w3 [] 0 0" for rv :: int and t w2 w3
    using logged_trans [OF logged_trans [OF L that(1)] that(2)] k same_requests_update [OF same i(1)]
    by (auto simp: send_inv_def tk nat_add_distrib)
  show ?thesis
  proof (cases "rq_verb (xs ! i) = None_verb")
    case True
    then show ?thesis using len i same k logged_log [OF L]
      by (simp add: Pair send_step_eq wp_simps send_inv_def tk wr_for.simps)
  next
    case False
    then show ?thesis using len i
      by (simp add: Pair send_step_eq) (intro wp_intros wp_post_requestI wp_clockI wp_count_failedI post, use k i in auto)
  qed
qed

text \<open>The result of a batch counts its failures.\<close>

lemma logged_wrap:
  "logged w w1 [] 0 0 \<Longrightarrow> logged w1 w2 ps r f \<Longrightarrow> logged w2 w3 [] 0 0 \<Longrightarrow>
   logged w (w3\<lparr>trace := trace w3 @ [log_entry level fmt]\<rparr>) ps r f"
  using logged_trans [OF logged_trans, of w w1 "[]" 0 0 w2 ps r f w3 "[]" 0 0]
  by (simp add: logged_log)

lemma send_requests_wp:
  assumes "unat cnt \<le> length reqs" and "unat cnt < 2 ^ 31"
  shows "wp (send_requests sys cid reqs cnt) (\<lambda>(rv, reqs') w'. \<exists>f. rv = - int f \<and>
      same_requests reqs' reqs \<and>
      logged w w' (concat (map (wr_for {IBV_SEND_SIGNALED}) (take (unat cnt) reqs))) 0 f) (\<lambda>_ _. False) w"
proof -
  have loop: "wp (forP [0..<unat cnt] (send_step sys cid) (0, reqs)) (send_inv w1 reqs (unat cnt))
      (\<lambda>_ _. False) w1" for w1
    by (rule wp_forP [where I = "send_inv w1 reqs"])
      (use assms in \<open>auto intro: send_step_inv simp: send_inv_def logged_refl\<close>)
  have fin: "\<exists>f. k = int f \<and> same_requests xs reqs \<and>
      logged w (w3\<lparr>trace := trace w3 @ [log_entry LOG_DEBUG sent_message]\<rparr>)
        (concat (map (wr_for {IBV_SEND_SIGNALED}) (take (unat cnt) reqs))) 0 f"
    if "logged w w1 [] 0 0" "send_inv w1 reqs (unat cnt) (k, xs) w2" "logged w2 w3 [] 0 0" for w1 w2 w3 k xs
    using that logged_wrap [OF that(1) _ that(3)] by (auto simp: send_inv_def intro!: exI [where x = "nat k"])
  show ?thesis
    unfolding send_requests_def
    by (intro wp_intros wp_clockI wp_mono [OF loop]) (auto intro: fin)
qed

definition wait_inv ::
  "'e world \<Rightarrow> dccs_request list \<Rightarrow> nat \<Rightarrow> int \<times> ibv_wc list \<times> dccs_request list \<Rightarrow> 'e world \<Rightarrow> bool" where
  "wait_inv w reqs i = (\<lambda>(k, wc, xs) w'. same_requests xs reqs \<and> length wc = 1 \<and> 0 \<le> k \<and> k \<le> int i \<and>
     logged w w' [] i (nat k))"

lemma wait_inv_init: "wait_inv w reqs 0 (0, [wc], reqs) w"
  by (simp add: wait_inv_def logged_refl)

lemma wait_step_inv:
  assumes C: "poll_contract sys" and inv: "wait_inv w reqs i s w1" and i: "i < length reqs" "i + 1 < 2 ^ 31"
  shows "wp (wait_step sys cid i s) (wait_inv w reqs (Suc i)) (\<lambda>_ _. False) w1"
proof (cases s)
  case (fields k wc xs)
  have same: "same_requests xs reqs" and k: "0 \<le> k" "length wc = 1" "k \<le> int i" and L: "logged w w1 [] i (nat k)"
    using inv by (simp_all add: wait_inv_def fields)
  have len: "length xs = length reqs" using same by (rule same_requests_length)
  have "wait_inv w reqs (Suc i) (if rv < 0 then k + 1 else k, wc', xs[i := (xs ! i)\<lparr>rq_end := t\<rparr>]) w3"
    if "length wc' = 1" "logged w1 w2 [] 1 (if rv < 0 then 1 else 0)" "logged w2 w3 [] 0 0"
    for rv :: int and wc' :: "ibv_wc list" and t w2 w3
    using logged_trans [OF logged_trans [OF L that(2)] that(3)] k same_requests_update [OF same i(1)] that(1)
    by (auto simp: wait_inv_def nat_add_distrib)
  then show ?thesis
    unfolding fields wait_step_def prod.case
    by (intro wp_intros wp_logged_send_compI [OF C k(2)] wp_clockI wp_count_failedI) (use len i k in auto)
qed

lemma wait_requests_wp:
  assumes C: "poll_contract sys" and "unat cnt \<le> length reqs" and "unat cnt < 2 ^ 31"
  shows "wp (wait_requests sys cid reqs cnt) (\<lambda>(rv, reqs') w'. \<exists>f. rv = - int f \<and>
      same_requests reqs' reqs \<and> logged w w' [] (unat cnt) f) (\<lambda>_ _. False) w"
proof -
  have loop: "wp (forP [0..<unat cnt] (wait_step sys cid) (0, [fresh_wc], reqs))
      (wait_inv w reqs (unat cnt)) (\<lambda>_ _. False) w"
    by (rule wp_forP [where I = "wait_inv w reqs"])
      (use assms in \<open>simp_all add: wait_step_inv [OF C] wait_inv_init\<close>)
  show ?thesis
    unfolding wait_requests_def wp_bindP
    by (rule wp_mono [OF loop]) (auto simp: wait_inv_def wp_simps intro!: exI [where x = "nat _"])
qed

definition recv_inv :: "'e world \<Rightarrow> nat \<Rightarrow> int \<times> ibv_wc \<Rightarrow> 'e world \<Rightarrow> bool" where
  "recv_inv w i = (\<lambda>(k, wc) w'. 0 \<le> k \<and> k \<le> 2 * int i \<and> logged w w' [] i (nat k))"

lemma recv_step_inv:
  assumes C: "poll_contract sys" and i: "i < length reqs" "i + 1 < 2 ^ 30" and inv: "recv_inv w i (k, wc) w1"
  shows "wp (recv_step sys cid reqs i (k, wc)) (recv_inv w (Suc i)) (\<lambda>_ _. False) w1"
proof -
  have small: "2 * int i + 2 < 2 ^ 31" using i(2) by simp
  have k: "0 \<le> k" "k \<le> 2 * int i" and L: "logged w w1 [] i (nat k)"
    using inv by (simp_all add: recv_inv_def)
  have wait: "wp (retry_zero (dccs_rdma_recv_comp sys cid wc))
      (\<lambda>a. wp (case a of (rv, wc) \<Rightarrow>
          thenP (whenP (rv < 0) (log_error ''Failed to recv messages.\<newline>''))
         (bindP (count_failed (rv < 0) j) (\<lambda>failed_count. ret (failed_count, wc))))
        (recv_inv w (Suc i)) (\<lambda>_ _. False)) (\<lambda>_ _. False) w2"
    if j: "0 \<le> j" "j \<le> 2 * int i + 1" and L2: "logged w w2 [] i (nat j)" for j w2
    by (rule wp_logged_recv_compI [OF C])
      (use small j in \<open>auto simp: recv_inv_def wp_simps nat_add_distrib
        dest!: logged_trans [OF L2] intro!: logged_log\<close>)
  have one: "logged w w2 [] i (nat (k + 1))" if "logged w1 w2 [] 0 1" for w2
    using logged_trans [OF L that] k by (simp add: nat_add_distrib)
  have none: "logged w w2 [] i (nat k)" if "logged w1 w2 [] 0 0" for w2
    using logged_trans [OF L that] by simp
  show ?thesis
    unfolding recv_step_def prod.case Let_def using i(1) k small
    by (simp, intro wp_intros wp_logged_recvI wait wp_count_failedI)
      (auto split: if_splits intro!: logged_log one none wait)
qed

lemma recv_requests_wp:
  assumes C: "poll_contract sys" and "unat (p_count params) \<le> length reqs" and "unat (p_count params) < 2 ^ 30"
  shows "wp (recv_requests sys cid reqs params) (\<lambda>rv w'. \<exists>f. rv = - int f \<and>
      logged w w' [] (unat (p_count params)) f) (\<lambda>_ _. False) w"
proof -
  have loop: "wp (forP [0..<unat (p_count params)] (recv_step sys cid reqs) (0, fresh_wc))
      (recv_inv w (unat (p_count params))) (\<lambda>_ _. False) w"
    by (rule wp_forP [where I = "recv_inv w"])
      (use assms(2,3) in \<open>auto simp: recv_inv_def [of w 0] logged_refl intro!: recv_step_inv [OF C]\<close>)
  show ?thesis
    unfolding recv_requests_def wp_bindP
    by (rule wp_mono [OF loop]) (auto simp: recv_inv_def wp_simps intro!: exI [where x = "nat _"])
qed

section \<open>Sending and waiting\<close>

text \<open>The flags of request \<open>n\<close> of \<open>cnt\<close>: the mode's flags, and the last one is always signaled.\<close>

definition flags_of :: "send_flag set \<Rightarrow> nat \<Rightarrow> nat \<Rightarrow> send_flag set" where
  "flags_of base cnt n = (if n = cnt - 1 then insert IBV_SEND_SIGNALED base else base)"

definition sw_state ::
  "send_flag set \<Rightarrow> dccs_request list \<Rightarrow> send_flag set \<times> int \<times> ibv_wc list \<times> dccs_request list \<Rightarrow> bool" where
  "sw_state base reqs = (\<lambda>(fl, k, wc, xs). fl = base \<and> length wc = 1 \<and> same_requests xs reqs)"

definition sw_failed :: "send_flag set \<times> int \<times> ibv_wc list \<times> dccs_request list \<Rightarrow> int" where
  "sw_failed s = fst (snd s)"

lemma logged_unsignaled:
  assumes "logged w w1 ps 0 (if rv \<noteq> (0 :: int) then 1 else 0)" and "logged w1 w2 [] 0 0"
  shows "\<exists>f. logged w w2 ps 0 f \<and> (if rv \<noteq> 0 then k + 1 else k :: int) = k + (if f = 0 then 0 else 1)"
  using logged_trans [OF assms] by (intro exI [where x = "if rv \<noteq> 0 then 1 else 0"]) auto

lemma logged_signaled:
  assumes "logged w w1 ps 0 (if rv \<noteq> (0 :: int) then 1 else 0)" and "logged w1 w2 [] 0 0"
    and "logged w2 w3 [] 1 (if rv' < (0 :: int) then 1 else 0)" and "logged w3 w4 [] 0 0"
  shows "\<exists>f. logged w w4 ps 1 f \<and>
    (if rv \<noteq> 0 \<or> rv' < 0 then k + 1 else k :: int) = k + (if f = 0 then 0 else 1)"
  using logged_trans [OF logged_trans [OF assms(1,2)] logged_trans [OF assms(3,4)]]
  by (intro exI [where x = "(if rv \<noteq> 0 then 1 else 0) + (if rv' < 0 then 1 else 0)"]) auto

text \<open>One round posts the request with its flags and reaps one completion when it is signaled.\<close>

lemma send_wait_step_wp:
  assumes C: "poll_contract sys" and i: "i < length reqs" and st: "sw_state base reqs s"
    and small: "0 \<le> sw_failed s" "sw_failed s + 1 < 2 ^ 31"
  shows "wp (send_wait_step sys cid cnt i s) (\<lambda>s' w'. sw_state (flags_of base cnt i) reqs s' \<and>
     (\<exists>f. logged w w' (wr_for (flags_of base cnt i) (reqs ! i))
            (if IBV_SEND_SIGNALED \<in> flags_of base cnt i then 1 else 0) f \<and>
          sw_failed s' = sw_failed s + (if f = 0 then 0 else 1))) (\<lambda>_ _. False) w"
proof (cases s)
  case (fields fl k wc xs)
  let ?fl = "flags_of base cnt i"
  have wc: "length wc = 1" and same: "same_requests xs reqs" and fl: "fl = base"
    using st by (simp_all add: sw_state_def fields)
  have k: "0 \<le> k" "k + 1 < 2 ^ 31" using small by (simp_all add: sw_failed_def fields)
  have len: "length xs = length reqs" using same by (rule same_requests_length)
  have wr: "wr_for ?fl (xs ! i) = wr_for ?fl (reqs ! i)" by (rule same_requests_nth [OF same i])
  have upd: "same_requests (xs[i := r]) reqs" if "untimed r = untimed (xs ! i)" for r
    using same_requests_update [OF same i that] .
  let ?post = "\<lambda>s' w'. sw_state ?fl reqs s' \<and>
      (\<exists>f. logged w w' (wr_for ?fl (reqs ! i)) (if IBV_SEND_SIGNALED \<in> ?fl then 1 else 0) f \<and>
           sw_failed s' = sw_failed (base, k, wc, xs) + (if f = 0 then 0 else 1))"
  have signaled: "?post (?fl, if rv \<noteq> 0 \<or> rv' < 0 then k + 1 else k, wc', xs[i := (xs ! i)\<lparr>rq_start := t\<rparr>,
      i := (xs[i := (xs ! i)\<lparr>rq_start := t\<rparr>] ! i)\<lparr>rq_end := t'\<rparr>]) w4"
    if "logged w w1 (wr_for ?fl (xs ! i)) 0 (if rv \<noteq> 0 then 1 else 0)" "logged w1 w2 [] 0 0"
      "logged w2 w3 [] 1 (if rv' < 0 then 1 else 0)" "logged w3 w4 [] 0 0" "IBV_SEND_SIGNALED \<in> ?fl"
      "length wc' = 1" for rv rv' :: int and wc' :: "ibv_wc list" and t t' w1 w2 w3 w4
    using logged_signaled [OF that(1-4), of k] that(5,6) i len
    by (simp add: sw_state_def sw_failed_def upd wr)
  have unsignaled: "?post (?fl, if rv \<noteq> 0 then k + 1 else k, wc, xs[i := (xs ! i)\<lparr>rq_start := t\<rparr>]) w2"
    if "logged w w1 (wr_for ?fl (xs ! i)) 0 (if rv \<noteq> 0 then 1 else 0)" "logged w1 w2 [] 0 0"
      "IBV_SEND_SIGNALED \<notin> ?fl" for rv :: int and t w1 w2
    using logged_unsignaled [OF that(1,2), of k] that(3) wc
    by (simp add: sw_state_def sw_failed_def upd wr)
  show ?thesis
    unfolding fields send_wait_step_def prod.case Let_def fl flags_of_def [symmetric]
    by (intro wp_intros wp_post_requestI wp_clockI wp_logged_send_compI [OF C wc] wp_count_failedI [OF k],
        use i len in simp, clarify, rule signaled, assumption+, clarify, rule unsignaled, assumption+)
qed

definition sw_wrs :: "send_flag set \<Rightarrow> nat \<Rightarrow> dccs_request list \<Rightarrow> nat \<Rightarrow> wr list" where
  "sw_wrs base cnt reqs i = concat (map (\<lambda>n. wr_for (flags_of base cnt n) (reqs ! n)) [0..<i])"

definition sw_signaled :: "send_flag set \<Rightarrow> nat \<Rightarrow> nat \<Rightarrow> nat" where
  "sw_signaled base cnt i = length (filter (\<lambda>n. IBV_SEND_SIGNALED \<in> flags_of base cnt n) [0..<i])"

text \<open>At no time more than one work request is posted whose completion was not reaped.\<close>

definition one_at_a_time :: "'e world \<Rightarrow> 'e world \<Rightarrow> bool" where
  "one_at_a_time w w' \<longleftrightarrow> (\<exists>es. trace w' = trace w @ es \<and> length (posted es) \<le> reaped es + poll_errors es \<and>
     (\<forall>k. length (posted (take k es)) \<le> reaped (take k es) + poll_errors (take k es) + 1))"

lemma one_at_a_time_refl: "one_at_a_time w w"
  by (simp add: one_at_a_time_def)

lemma posted_take: "length (posted (take k es)) \<le> length (posted es)"
  using posted_append [of "take k es" "drop k es"] by (metis append_take_drop_id length_append le_add1)

lemma one_at_a_time_step:
  assumes "one_at_a_time w w1" and "logged w1 w2 ps 1 f" and "length ps \<le> 1"
  shows "one_at_a_time w w2"
proof -
  obtain es where es: "trace w1 = trace w @ es" "length (posted es) \<le> reaped es + poll_errors es"
    "\<And>k. length (posted (take k es)) \<le> reaped (take k es) + poll_errors (take k es) + 1"
    using assms(1) by (auto simp: one_at_a_time_def)
  obtain fs where fs: "trace w2 = trace w1 @ fs" "length (posted fs) \<le> 1" "reaped fs + poll_errors fs = 1"
    using assms(2,3) by (auto simp: logged_def)
  have "length (posted (take k (es @ fs))) \<le> reaped (take k (es @ fs)) + poll_errors (take k (es @ fs)) + 1" for k
  proof (cases "k \<le> length es")
    case True
    then show ?thesis using es(3) [of k] by simp
  next
    case False
    then show ?thesis using es(2) fs(2) posted_take [of "k - length es" fs] by simp
  qed
  then show ?thesis using es fs by (auto simp: one_at_a_time_def intro!: exI [where x = "es @ fs"])
qed

text \<open>What holds after \<open>i\<close> rounds.\<close>

definition sw_inv ::
  "send_flag set \<Rightarrow> nat \<Rightarrow> dccs_request list \<Rightarrow> 'e world \<Rightarrow> nat
    \<Rightarrow> send_flag set \<times> int \<times> ibv_wc list \<times> dccs_request list \<Rightarrow> 'e world \<Rightarrow> bool" where
  "sw_inv base cnt reqs w i s w' \<longleftrightarrow>
     sw_state (if 0 < i then flags_of base cnt (i - 1) else base) reqs s \<and>
     0 \<le> sw_failed s \<and> sw_failed s \<le> int i \<and>
     (\<exists>f. logged w w' (sw_wrs base cnt reqs i) (sw_signaled base cnt i) f \<and> (sw_failed s = 0 \<longleftrightarrow> f = 0)) \<and>
     (IBV_SEND_SIGNALED \<in> base \<longrightarrow> one_at_a_time w w')"

lemma send_wait_step_inv:
  assumes C: "poll_contract sys" and i: "i < length reqs" "i < cnt" "cnt < 2 ^ 31" and inv: "sw_inv base cnt reqs w i s w1"
  shows "wp (send_wait_step sys cid cnt i s) (sw_inv base cnt reqs w (Suc i)) (\<lambda>_ _. False) w1"
proof -
  have "flags_of base cnt (i - 1) = base" if "0 < i"
    using that i by (auto simp: flags_of_def)
  then have st: "sw_state base reqs s" using inv by (auto simp: sw_inv_def split: if_splits)
  obtain f where f: "logged w w1 (sw_wrs base cnt reqs i) (sw_signaled base cnt i) f" "sw_failed s = 0 \<longleftrightarrow> f = 0"
    and k: "0 \<le> sw_failed s" "sw_failed s \<le> int i"
    and one: "IBV_SEND_SIGNALED \<in> base \<longrightarrow> one_at_a_time w w1"
    using inv by (auto simp: sw_inv_def)
  let ?fl = "flags_of base cnt i"
  have wrs: "sw_wrs base cnt reqs (Suc i) = sw_wrs base cnt reqs i @ wr_for ?fl (reqs ! i)"
    "sw_signaled base cnt (Suc i) = sw_signaled base cnt i + (if IBV_SEND_SIGNALED \<in> ?fl then 1 else 0)"
    by (simp_all add: sw_wrs_def sw_signaled_def)
  have "sw_inv base cnt reqs w (Suc i) s' w2"
    if "sw_state ?fl reqs s'" and g: "logged w1 w2 (wr_for ?fl (reqs ! i)) (if IBV_SEND_SIGNALED \<in> ?fl then 1 else 0) g"
      "sw_failed s' = sw_failed s + (if g = 0 then 0 else 1)" for s' w2 g
  proof -
    have "one_at_a_time w w2" if base: "IBV_SEND_SIGNALED \<in> base"
    proof -
      have "IBV_SEND_SIGNALED \<in> ?fl" using base by (simp add: flags_of_def)
      with g(1) have "logged w1 w2 (wr_for ?fl (reqs ! i)) 1 g" by simp
      from one_at_a_time_step [OF _ this untimed_simps(4)] show ?thesis using one base by blast
    qed
    then show ?thesis
      using that(1) g(2) k f(2) logged_trans [OF f(1) g(1)]
      by (auto simp: sw_inv_def wrs intro!: exI [where x = "f + g"])
  qed
  then show ?thesis
    by (intro wp_mono [OF send_wait_step_wp [OF C i(1) st k(1)]]) (use i k in auto)
qed

definition mode_flags :: "Mode \<Rightarrow> send_flag set" where
  "mode_flags md = (case md of MODE_LATENCY \<Rightarrow> {IBV_SEND_SIGNALED} | MODE_THROUGHPUT \<Rightarrow> {})"

lemma one_at_a_time_wrap:
  assumes "logged w w1 [] 0 0" and "one_at_a_time w1 w2" and "logged w2 w3 [] 0 0"
  shows "one_at_a_time w (w3\<lparr>trace := trace w3 @ [log_entry level fmt]\<rparr>)"
proof -
  obtain xs zs where xs: "trace w1 = trace w @ xs" "posted xs = []"
    and zs: "trace w3 = trace w2 @ zs" "posted zs = []"
    using assms(1,3) by (auto simp: logged_def)
  obtain es where es: "trace w2 = trace w1 @ es" "length (posted es) \<le> reaped es + poll_errors es"
    "\<And>k. length (posted (take k es)) \<le> reaped (take k es) + poll_errors (take k es) + 1"
    using assms(2) by (auto simp: one_at_a_time_def)
  have nil: "posted (take k ys) = []" if "posted ys = []" for k ys
    using posted_take [of k ys] that by simp
  let ?all = "xs @ es @ zs @ [log_entry level fmt]"
  have "length (posted (take k ?all)) \<le> reaped (take k ?all) + poll_errors (take k ?all) + 1" for k
  proof (cases "k \<le> length xs + length es")
    case True
    then show ?thesis using es(3) [of "k - length xs"] nil [OF xs(2), of k] by simp
  next
    case False
    then show ?thesis
      using es(2) nil [OF zs(2), of "k - length xs - length es"] xs(2)
        nil [of "[log_entry level fmt]" "k - length xs - length es - length zs"]
      by (simp add: diff_diff_left)
  qed
  then show ?thesis
    using xs es zs by (auto simp: one_at_a_time_def intro!: exI [where x = ?all])
qed

lemma send_and_wait_requests_wp:
  assumes C: "poll_contract sys" and len: "unat (p_count params) \<le> length reqs"
    and small: "unat (p_count params) < 2 ^ 31"
  shows "wp (send_and_wait_requests sys cid reqs params) (\<lambda>(rv, reqs') w'.
     same_requests reqs' reqs \<and> rv \<le> 0 \<and> - int (unat (p_count params)) \<le> rv \<and>
     (\<exists>f. logged w w' (sw_wrs (mode_flags (p_mode params)) (unat (p_count params)) reqs (unat (p_count params)))
            (sw_signaled (mode_flags (p_mode params)) (unat (p_count params)) (unat (p_count params))) f \<and>
          (rv = 0 \<longleftrightarrow> f = 0)) \<and>
     (p_mode params = MODE_LATENCY \<longrightarrow> one_at_a_time w w')) (\<lambda>_ _. False) w"
proof -
  let ?c = "unat (p_count params)" and ?b = "mode_flags (p_mode params)"
  have loop: "wp (forP [0..<?c] (send_wait_step sys cid ?c) (?b, 0, [fresh_wc], reqs))
      (sw_inv ?b ?c reqs w1 ?c) (\<lambda>_ _. False) w1" for w1
    by (rule wp_forP [where I = "sw_inv ?b ?c reqs w1"], rule send_wait_step_inv [OF C])
      (use len small in \<open>auto simp: sw_inv_def sw_state_def sw_failed_def sw_wrs_def sw_signaled_def
        logged_refl one_at_a_time_refl\<close>)
  have fin: "same_requests xs reqs \<and> - k \<le> 0 \<and> - int ?c \<le> - k \<and>
     (\<exists>f. logged w (w3\<lparr>trace := trace w3 @ [log_entry l m]\<rparr>) (sw_wrs ?b ?c reqs ?c) (sw_signaled ?b ?c ?c) f \<and>
          (- k = 0 \<longleftrightarrow> f = 0)) \<and>
     (p_mode params = MODE_LATENCY \<longrightarrow> one_at_a_time w (w3\<lparr>trace := trace w3 @ [log_entry l m]\<rparr>))"
    if H: "logged w w1 [] 0 0" "sw_inv ?b ?c reqs w1 ?c (fl, k, wc, xs) w2" "logged w2 w3 [] 0 0"
    for w1 w2 w3 fl k wc xs l m
  proof -
    obtain f where f: "logged w1 w2 (sw_wrs ?b ?c reqs ?c) (sw_signaled ?b ?c ?c) f" "k = 0 \<longleftrightarrow> f = 0"
      and k: "same_requests xs reqs" "0 \<le> k" "k \<le> int ?c"
      and one: "IBV_SEND_SIGNALED \<in> ?b \<Longrightarrow> one_at_a_time w1 w2"
      using H(2) by (auto simp: sw_inv_def sw_state_def sw_failed_def)
    have "one_at_a_time w1 w2" if "p_mode params = MODE_LATENCY"
      using that by (intro one) (simp add: mode_flags_def)
    then show ?thesis
      using k f(2) logged_wrap [OF H(1) f(1) H(3), of l m] one_at_a_time_wrap [OF H(1) _ H(3), of l m]
      by (intro conjI exI [where x = f] impI) simp_all
  qed
  show ?thesis
    unfolding send_and_wait_requests_def Let_def mode_flags_def [symmetric]
    by (intro wp_intros wp_clockI wp_mono [OF loop])
      (simp_all only: prod.case, (drule (2) fin, assumption)?)
qed

section \<open>Termination and ledger\<close>

lemma total_Verb:
  "total a \<Longrightarrow> total b \<Longrightarrow> total c \<Longrightarrow> total d \<Longrightarrow>
   total (case v of None_verb \<Rightarrow> a | Send \<Rightarrow> b | Read \<Rightarrow> c | Write \<Rightarrow> d)"
  by (cases v) simp_all

lemma total_batches:
  assumes "live_nic sys"
  shows "total (send_requests sys cid reqs cnt)" "total (wait_requests sys cid reqs cnt)"
    "total (recv_requests sys cid reqs params)" "total (send_and_wait_requests sys cid reqs params)"
  unfolding send_requests_def send_step_def wait_requests_def wait_step_def recv_requests_def
    recv_step_def send_and_wait_requests_def send_wait_step_def post_request_def Let_def
    dccs_rdma_send_def dccs_rdma_read_def dccs_rdma_write_def recv_comp.retry_once
  by (intro total_intros total_log total_ops total_get_cycles total_comp [OF assms] total_Verb
      total_count_failed)+

lemma trades_Verb:
  "trades P a G \<Longrightarrow> trades P b G \<Longrightarrow> trades P c G \<Longrightarrow> trades P d G \<Longrightarrow>
   trades P (case v of None_verb \<Rightarrow> a | Send \<Rightarrow> b | Read \<Rightarrow> c | Write \<Rightarrow> d) G"
  by (cases v) simp_all

lemmas batch_trades = trades_ret trades_halt trades_log trades_recv trades_send_comp trades_recv_comp
  trades_retry_zero get_cycles_trades post_send.keeps post_read.keeps post_write.keeps trades_thenP
  trades_bindP trades_if trades_case_prod trades_Verb trades_forP
  trades_whenP

lemma trades_batches:
  "trades P (send_requests sys cid reqs cnt) (\<lambda>_. P)" "trades P (wait_requests sys cid reqs cnt) (\<lambda>_. P)"
  "trades P (recv_requests sys cid reqs params) (\<lambda>_. P)"
  "trades P (send_and_wait_requests sys cid reqs params) (\<lambda>_. P)"
  unfolding send_requests_def send_step_def wait_requests_def wait_step_def recv_requests_def
    recv_step_def send_and_wait_requests_def send_wait_step_def post_request_def Let_def
    dccs_rdma_send_def dccs_rdma_read_def dccs_rdma_write_def count_failed_def add_int_def
  by (rule batch_trades refl)+

section \<open>Properties\<close>

lemma sw_wrs_latency:
  "cnt \<le> length reqs \<Longrightarrow>
   sw_wrs {IBV_SEND_SIGNALED} cnt reqs cnt = concat (map (wr_for {IBV_SEND_SIGNALED}) (take cnt reqs))"
proof -
  assume "cnt \<le> length reqs"
  then have "take cnt reqs = map (\<lambda>n. reqs ! n) [0..<cnt]"
    by (intro nth_equalityI) simp_all
  moreover have "flags_of {IBV_SEND_SIGNALED} cnt n = {IBV_SEND_SIGNALED}" for n
    by (simp add: flags_of_def)
  ultimately show ?thesis by (simp add: sw_wrs_def comp_def)
qed

lemma sw_signaled_modes:
  "sw_signaled {IBV_SEND_SIGNALED} cnt cnt = cnt" "0 < cnt \<Longrightarrow> sw_signaled {} cnt cnt = 1"
proof -
  show "sw_signaled {IBV_SEND_SIGNALED} cnt cnt = cnt" by (simp add: sw_signaled_def flags_of_def)
  assume "0 < cnt"
  then have "[0..<cnt] = [0..<cnt - 1] @ [cnt - 1]" by (metis Suc_diff_1 upt_Suc zero_le)
  then show "sw_signaled {} cnt cnt = 1"
    unfolding sw_signaled_def by (simp add: flags_of_def filter_empty_conv)
qed

definition batch_requests :: "dccs_request list" where
  "batch_requests = [example_request, example_request\<lparr>rq_verb := Read\<rparr>,
     example_request\<lparr>rq_verb := Send\<rparr>, example_request]"

lemma batch_length: "unat (p_count example_params) = 4" "length batch_requests = 4"
  "p_mode example_params = MODE_LATENCY"
  by (simp_all add: example_params_def batch_requests_def)

text \<open>
  C2. Sending and waiting returns whenever the NIC answers.  It posts one work request per request,
  in order, with the addresses, keys and region of the request; every one of them is signaled in
  latency mode, only the last one in throughput mode; and it waits once per signaled request, each
  wait ending with one completion or one failed poll.  Its counter of failures is an \<open>int\<close>, hence the
  bound on the number of requests.  The result lies between \<open>- count\<close> and 0, it is 0 exactly when no posting and
  no completion failed, and the requests are changed in their time stamps only.
\<close>

theorem send_and_wait_posts:
  assumes "live_nic sys" and "0 < unat (p_count params)" and "unat (p_count params) \<le> length reqs"
    and "unat (p_count params) < 2 ^ 31"
  shows "returns (send_and_wait_requests sys cid reqs params) (\<lambda>(rv, reqs') w'.
     map untimed reqs' = map untimed reqs \<and> - int (unat (p_count params)) \<le> rv \<and> rv \<le> 0 \<and>
     (\<exists>es. trace w' = trace w @ es \<and> (rv = 0 \<longleftrightarrow> failures es = 0) \<and>
        posted es = concat (map (\<lambda>n. wr_for (if p_mode params = MODE_LATENCY \<or> n = unat (p_count params) - 1
             then {IBV_SEND_SIGNALED} else {}) (reqs ! n)) [0..<unat (p_count params)]) \<and>
        reaped es + poll_errors es = (if p_mode params = MODE_LATENCY then unat (p_count params) else 1))) w"
proof -
  let ?c = "unat (p_count params)" and ?b = "mode_flags (p_mode params)"
  have "flags_of ?b ?c n = (if p_mode params = MODE_LATENCY \<or> n = ?c - 1 then {IBV_SEND_SIGNALED} else {})" for n
    by (cases "p_mode params") (auto simp: flags_of_def mode_flags_def)
  then have wrs: "sw_wrs ?b ?c reqs ?c = concat (map (\<lambda>n. wr_for (if p_mode params = MODE_LATENCY \<or> n = ?c - 1
             then {IBV_SEND_SIGNALED} else {}) (reqs ! n)) [0..<?c])"
    by (simp add: sw_wrs_def)
  have sig: "sw_signaled ?b ?c ?c = (if p_mode params = MODE_LATENCY then ?c else 1)"
    using assms(2) by (cases "p_mode params") (simp_all add: mode_flags_def sw_signaled_modes)
  show ?thesis
    by (rule total_returns [OF total_batches(4) [OF assms(1)]],
        rule wp_mono [OF send_and_wait_requests_wp [OF live_contract [OF assms(1)] assms(3,4)]])
      (auto simp only: split_beta same_requests_def logged_def wrs sig)
qed

theorem send_and_wait_posts_witness:
  "returns (send_and_wait_requests (test_sys Little_endian) 5 batch_requests example_params)
     (\<lambda>(rv, reqs') w'. -4 \<le> rv \<and> rv \<le> 0 \<and> (\<exists>es. trace w' = trace world0 @ es \<and>
        (rv = 0 \<longleftrightarrow> failures es = 0) \<and> reaped es + poll_errors es = 4)) world0"
  by (rule returns_mono [OF send_and_wait_posts [OF test_contracts(1), where params = example_params
        and reqs = batch_requests]])
    (auto simp: batch_length)

text \<open>
  C6. In latency mode no more than one work request is outstanding at any moment, as long as no poll
  fails: in every prefix of the calls the function makes, the number of work requests posted exceeds
  the number of completions the polls reported by at most one plus the number of polls that failed.
  (After a failed poll the code posts the next request without having reaped the last one.)
\<close>

theorem latency_one_outstanding:
  assumes "live_nic sys" and "p_mode params = MODE_LATENCY" and "unat (p_count params) \<le> length reqs"
    and "unat (p_count params) < 2 ^ 31"
  shows "returns (send_and_wait_requests sys cid reqs params) (\<lambda>_ w'.
     \<exists>es. trace w' = trace w @ es \<and>
       (\<forall>k. length (posted (take k es)) \<le> reaped (take k es) + poll_errors (take k es) + 1)) w"
  by (rule total_returns [OF total_batches(4) [OF assms(1)]],
      rule wp_mono [OF send_and_wait_requests_wp [OF live_contract [OF assms(1)] assms(3,4)]])
    (use assms(2) in \<open>auto simp: one_at_a_time_def\<close>)

theorem latency_one_outstanding_witness:
  "returns (send_and_wait_requests (test_sys Little_endian) 5 batch_requests example_params) (\<lambda>_ w'.
     \<exists>es. trace w' = trace world0 @ es \<and>
       (\<forall>k. length (posted (take k es)) \<le> reaped (take k es) + poll_errors (take k es) + 1)) world0"
  by (rule latency_one_outstanding [OF test_contracts(1)]) (simp_all add: batch_length)

text \<open>
  C30. The two ways of running a batch put the same work on the queue.  Posting all requests first
  and then waiting for them, and sending and waiting in latency mode, post the same signaled work
  requests in the same order and wait once per request, each wait ending with one completion or one
  failed poll; the two phases together return minus the number of their failed calls.  The counters
  of failures are of type \<open>int\<close>, hence the bound on the number of requests.
\<close>

theorem two_phase_batch_equiv:
  assumes "live_nic sys" and "unat (p_count params) \<le> length reqs" and "p_mode params = MODE_LATENCY"
    and "unat (p_count params) < 2 ^ 31"
  shows "\<exists>wrs. returns (bindP (send_requests sys cid reqs (p_count params)) (\<lambda>(rv1, reqs1).
       bindP (wait_requests sys cid reqs1 (p_count params)) (\<lambda>(rv2, reqs2). ret (rv1 + rv2, reqs2))))
     (\<lambda>(rv, reqs') w'. map untimed reqs' = map untimed reqs \<and>
       (\<exists>es. trace w' = trace w @ es \<and> rv = - int (failures es) \<and>
          posted es = wrs \<and> reaped es + poll_errors es = unat (p_count params))) w \<and>
     returns (send_and_wait_requests sys cid reqs params) (\<lambda>(rv, reqs') w'.
       map untimed reqs' = map untimed reqs \<and>
       (\<exists>es. trace w' = trace w @ es \<and> posted es = wrs \<and> reaped es + poll_errors es = unat (p_count params))) w"
proof (rule exI, rule conjI)
  let ?c = "unat (p_count params)"
  let ?wrs = "concat (map (wr_for {IBV_SEND_SIGNALED}) (take ?c reqs))"
  note C = live_contract [OF assms(1)]
  have wait: "wp (wait_requests sys cid xs (p_count params)) (\<lambda>(rv2, reqs2) w2. \<exists>g. rv2 = - int g \<and>
      same_requests reqs2 reqs \<and> logged w w2 ?wrs ?c (f + g)) (\<lambda>_ _. False) w1"
    if "same_requests xs reqs" "logged w w1 ?wrs 0 f" for xs w1 f
    by (rule wp_mono [OF wait_requests_wp [OF C]])
      (use assms(2,4) that same_requests_length [OF that(1)] in
        \<open>auto simp: same_requests_def dest!: logged_trans [OF that(2)]\<close>)
  have two: "wp (bindP (wait_requests sys cid xs (p_count params)) (\<lambda>(rv2, reqs2). ret (- int f + rv2, reqs2)))
     (\<lambda>(rv, reqs') w'. map untimed reqs' = map untimed reqs \<and> (\<exists>es. trace w' = trace w @ es \<and>
        rv = - int (failures es) \<and> posted es = ?wrs \<and> reaped es + poll_errors es = ?c)) (\<lambda>_ _. False) w1"
    if "same_requests xs reqs" "logged w w1 ?wrs 0 f" for xs w1 f
    unfolding wp_bindP by (rule wp_mono [OF wait [OF that]])
      (auto simp: wp_ret same_requests_def logged_def)
  show "returns (bindP (send_requests sys cid reqs (p_count params)) (\<lambda>(rv1, reqs1).
       bindP (wait_requests sys cid reqs1 (p_count params)) (\<lambda>(rv2, reqs2). ret (rv1 + rv2, reqs2))))
     (\<lambda>(rv, reqs') w'. map untimed reqs' = map untimed reqs \<and> (\<exists>es. trace w' = trace w @ es \<and>
        rv = - int (failures es) \<and> posted es = ?wrs \<and> reaped es + poll_errors es = ?c)) w"
    by (rule total_returns, intro total_intros total_batches assms(1), unfold wp_bindP [of "send_requests _ _ _ _"],
        rule wp_mono [OF send_requests_wp [OF assms(2,4)]]) (auto intro: two)
  show "returns (send_and_wait_requests sys cid reqs params) (\<lambda>(rv, reqs') w'.
       map untimed reqs' = map untimed reqs \<and>
       (\<exists>es. trace w' = trace w @ es \<and> posted es = ?wrs \<and> reaped es + poll_errors es = ?c)) w"
    by (rule total_returns [OF total_batches(4) [OF assms(1)]],
        rule wp_mono [OF send_and_wait_requests_wp [OF C assms(2,4)]])
      (auto simp: assms(3) mode_flags_def sw_wrs_latency [OF assms(2)] sw_signaled_modes
        same_requests_def logged_def)
qed

theorem two_phase_batch_equiv_witness:
  "\<exists>wrs. returns (bindP (send_requests (test_sys Big_endian) 5 batch_requests (p_count example_params)) (\<lambda>(rv1, reqs1).
       bindP (wait_requests (test_sys Big_endian) 5 reqs1 (p_count example_params)) (\<lambda>(rv2, reqs2). ret (rv1 + rv2, reqs2))))
     (\<lambda>(rv, reqs') w'. map untimed reqs' = map untimed batch_requests \<and>
       (\<exists>es. trace w' = trace world0 @ es \<and> rv = - int (failures es) \<and>
          posted es = wrs \<and> reaped es + poll_errors es = unat (p_count example_params))) world0 \<and>
     returns (send_and_wait_requests (test_sys Big_endian) 5 batch_requests example_params) (\<lambda>(rv, reqs') w'.
       map untimed reqs' = map untimed batch_requests \<and>
       (\<exists>es. trace w' = trace world0 @ es \<and> posted es = wrs \<and> reaped es + poll_errors es = unat (p_count example_params))) world0"
  by (rule two_phase_batch_equiv [OF test_contracts(1)]) (simp_all add: batch_length)

text \<open>
  C31. Receiving a batch returns whenever the NIC answers; it waits exactly once per
  request, until one completion or one failed poll, and returns minus the number of failed receives,
  failed polls and completions with an error status.  The counter of failures is an \<open>int\<close> that a round
  may increment twice, hence the bound on the number of requests.
\<close>

theorem recv_requests_counts_failures:
  assumes "live_nic sys" and "unat (p_count params) \<le> length reqs" and "unat (p_count params) < 2 ^ 30"
  shows "returns (recv_requests sys cid reqs params) (\<lambda>rv w'. \<exists>es. trace w' = trace w @ es \<and>
     rv = - int (failures es) \<and> reaped es + poll_errors es = unat (p_count params)) w"
  by (rule total_returns [OF total_batches(3) [OF assms(1)]],
      rule wp_mono [OF recv_requests_wp [OF live_contract [OF assms(1)] assms(2,3)]])
    (auto simp: logged_def)

theorem recv_requests_counts_failures_witness:
  "returns (recv_requests (test_sys Little_endian) 5 batch_requests example_params)
     (\<lambda>rv w'. \<exists>es. trace w' = trace world0 @ es \<and> rv = - int (failures es) \<and> reaped es + poll_errors es = 4) world0"
  using recv_requests_counts_failures [OF test_contracts(1), of example_params batch_requests Little_endian 5 world0]
  by (simp add: batch_length)

end
