(* ===== verification/Parse_Args.thy ===== *)
theory Parse_Args
  imports Dccs_Utils
begin

text \<open>
  The command line (\<open>parse_args\<close> of \<open>dccs_utils.h\<close>), with the table of long options and the string of
  short ones that the function hands to \<open>getopt_long\<close>.  That function of the C library is modelled as
  the sequence of its results, each the option code with its argument, and the arguments that are no
  options, so that \<open>optind + 1 == argc\<close> says that there is exactly one of those; what it prints about
  an option it rejects is left out.  The table of the source lacks the entry of zeros that ends such
  a table, so looking for a name that is not in it reads past its end: such a result is \<open>None\<close>, and
  the program faults there.  What \<open>sscanf\<close> does with the three conversions of the source is modelled:
  leading white space and a sign are skipped, trailing characters are ignored, a value over
  \<open>ULONG_MAX\<close> saturates, a minus negates modulo \<open>2^64\<close>, and the result is truncated to the width of
  the field.

  The lemmas show that every run ends, with parameters the rest of the program can rely on, with
  an exit status, or with the read past the table when an argument is an unknown long option, and
  that the parameters a command line spells out are the ones it is parsed to.
\<close>

section \<open>Numbers\<close>

definition is_space :: "char \<Rightarrow> bool" where
  "is_space c \<longleftrightarrow> c = CHR '' '' \<or> (9 \<le> (of_char c :: nat) \<and> (of_char c :: nat) \<le> 13)"

definition is_digit :: "char \<Rightarrow> bool" where
  "is_digit c \<longleftrightarrow> 48 \<le> (of_char c :: nat) \<and> (of_char c :: nat) \<le> 57"

definition digits_value :: "string \<Rightarrow> nat" where
  "digits_value ds = foldl (\<lambda>n c. 10 * n + (of_char c - 48)) 0 ds"

fun split_sign :: "string \<Rightarrow> bool \<times> string" where
  "split_sign [] = (False, [])"
| "split_sign (c # cs) = (if c = CHR ''-'' then (True, cs) else if c = CHR ''+'' then (False, cs)
     else (False, c # cs))"

text \<open>\<open>sscanf(s, "%zu", &x)\<close>: the value stored, \<open>None\<close> when nothing is converted.\<close>

definition sscanf_zu :: "string \<Rightarrow> u64 option" where
  "sscanf_zu s = (case split_sign (dropWhile is_space s) of (neg, t) \<Rightarrow>
     let ds = takeWhile is_digit t; n = digits_value ds in
     if ds = [] then None
     else if 2 ^ 64 \<le> n then Some (- 1)
     else Some (if neg then - of_nat n else of_nat n))"

definition sscanf_u16 :: "string \<Rightarrow> u16 option" where
  "sscanf_u16 s = map_option ucast (sscanf_zu s)"

definition sscanf_u8 :: "string \<Rightarrow> u8 option" where
  "sscanf_u8 s = map_option ucast (sscanf_zu s)"

section \<open>Options\<close>

definition opt :: "char \<Rightarrow> int" where "opt c = of_char c"

definition OPT_MR_COUNT :: int where "OPT_MR_COUNT = 1001"

definition OPT_DIRECTION :: int where "OPT_DIRECTION = 1002"

definition OPT_TOS :: int where "OPT_TOS = 1003"

lemmas option_codes = opt_def OPT_MR_COUNT_def OPT_DIRECTION_def OPT_TOS_def

datatype has_arg = no_argument | required_argument

text \<open>The entries of the table, all there are: no entry of zeros follows.\<close>

definition long_options :: "(string \<times> has_arg \<times> int) list" where
  "long_options =
     [(''block_size'', required_argument, opt CHR ''b''),
      (''mr_count'', required_argument, OPT_MR_COUNT),
      (''count'', required_argument, opt CHR ''c''),
      (''verb'', required_argument, opt CHR ''v''),
      (''port'', required_argument, opt CHR ''p''),
      (''mode'', required_argument, opt CHR ''m''),
      (''repeat'', required_argument, opt CHR ''r''),
      (''warmup'', required_argument, opt CHR ''w''),
      (''direction'', required_argument, OPT_DIRECTION),
      (''index'', required_argument, opt CHR ''i''),
      (''tos'', required_argument, OPT_TOS),
      (''verbose'', no_argument, opt CHR ''V''),
      (''help'', no_argument, opt CHR ''h'')]"

definition short_options :: string where
  "short_options = ''b:c:v:p:m:r:w:i:Vh''"

text \<open>A short option in such a string; a colon behind it says that it takes an argument.\<close>

fun short_option :: "string \<Rightarrow> char \<Rightarrow> has_arg option" where
  "short_option [] c = None"
| "short_option (d # ds) c =
     (if c = d \<and> c \<noteq> CHR '':'' then
        Some (if take 1 ds = '':'' then required_argument else no_argument)
      else short_option ds c)"

text \<open>What \<open>getopt_long\<close> returns for an option it rejects.\<close>

definition rejected :: "int \<times> string" where "rejected = (opt CHR ''?'', [])"

text \<open>
  One argument \<open>-xyz\<close> of short options: the first one that takes an argument takes the rest of the
  characters, or the next argument of the command line when none is left.
\<close>

fun short_results :: "string \<Rightarrow> string list \<Rightarrow> (int \<times> string) list \<times> string list" where
  "short_results [] args = ([], args)"
| "short_results (c # cs) args = (case short_option short_options c of
       None \<Rightarrow> (case short_results cs args of (rs, rest) \<Rightarrow> (rejected # rs, rest))
     | Some no_argument \<Rightarrow> (case short_results cs args of (rs, rest) \<Rightarrow> ((opt c, []) # rs, rest))
     | Some required_argument \<Rightarrow>
         if cs \<noteq> [] then ([(opt c, cs)], args)
         else (case args of [] \<Rightarrow> ([rejected], []) | a # rest \<Rightarrow> ([(opt c, a)], rest)))"

text \<open>
  One argument \<open>--name\<close> or \<open>--name=value\<close>.  Only an entry that is exactly the name stops the search
  before the end of the table.
\<close>

definition long_name :: "string \<Rightarrow> string" where
  "long_name a = takeWhile (\<lambda>c. c \<noteq> CHR ''='') (drop 2 a)"

definition long_value :: "string \<Rightarrow> string option" where
  "long_value a = (case dropWhile (\<lambda>c. c \<noteq> CHR ''='') (drop 2 a) of [] \<Rightarrow> None | c # cs \<Rightarrow> Some cs)"

definition long_result :: "string \<Rightarrow> string list \<Rightarrow> (int \<times> string) option \<times> string list" where
  "long_result a args = (case map_of long_options (long_name a) of
       None \<Rightarrow> (None, args)
     | Some (no_argument, c) \<Rightarrow> (Some (if long_value a = None then (c, []) else rejected), args)
     | Some (required_argument, c) \<Rightarrow>
         (case long_value a of
            Some value \<Rightarrow> (Some (c, value), args)
          | None \<Rightarrow> (case args of [] \<Rightarrow> (Some rejected, []) | value # rest \<Rightarrow> (Some (c, value), rest))))"

definition is_long :: "string \<Rightarrow> bool" where
  "is_long a \<longleftrightarrow> take 2 a = ''--'' \<and> a \<noteq> ''--''"

definition is_short :: "string \<Rightarrow> bool" where
  "is_short a \<longleftrightarrow> take 1 a = ''-'' \<and> take 2 a \<noteq> ''--'' \<and> a \<noteq> ''-''"

lemma long_result_shorter: "length (snd (long_result a args)) \<le> length args"
  by (simp add: long_result_def split: option.split has_arg.split prod.split list.split)

lemma short_results_shorter: "length (snd (short_results cs args)) \<le> length args"
  by (induction cs) (auto split: option.split has_arg.split prod.split list.split)

text \<open>
  All results of \<open>getopt_long\<close>, and the arguments that are no options.  These may stand between the
  options unless the environment sets \<open>POSIXLY_CORRECT\<close>; the argument \<open>--\<close> ends the options.
\<close>

function getopt_args :: "bool \<Rightarrow> string list \<Rightarrow> (int \<times> string) option list \<times> string list" where
  "getopt_args posix [] = ([], [])"
| "getopt_args posix (a # args) =
     (if a = ''--'' then ([], args)
      else if is_long a then
        (case long_result a args of (x, rest) \<Rightarrow>
         case getopt_args posix rest of (xs, others) \<Rightarrow> (x # xs, others))
      else if is_short a then
        (case short_results (drop 1 a) args of (rs, rest) \<Rightarrow>
         case getopt_args posix rest of (xs, others) \<Rightarrow> (map Some rs @ xs, others))
      else if posix then ([], a # args)
      else (case getopt_args posix args of (xs, others) \<Rightarrow> (xs, a # others)))"
  by pat_completeness auto
termination
  by (relation "measure (length \<circ> snd)")
    (auto simp: less_Suc_eq_le, (metis long_result_shorter snd_conv, metis short_results_shorter snd_conv)?)

definition getopt_long :: "bool \<Rightarrow> string list \<Rightarrow> (int \<times> string) option list \<times> string list" where
  "getopt_long posix argv = getopt_args posix (tl argv)"

section \<open>The functions of the source\<close>

definition default_parameters :: dccs_parameters where
  "default_parameters = \<lparr>p_verb = Send, p_count = DEFAULT_MESSAGE_COUNT,
     p_length = DEFAULT_MESSAGE_LENGTH, p_repeat = DEFAULT_REPEAT_COUNT, p_server = None,
     p_port = DEFAULT_PORT, p_mode = MODE_LATENCY, p_warmup_count = DEFAULT_WARMUP_COUNT,
     p_mr_count = DEFAULT_MR_COUNT, p_direction = direction_int DEFAULT_DIRECTION,
     p_index = DEFAULT_INDEX, p_tos = DEFAULT_TOS, p_slot = 0, p_verbose = False\<rparr>"

definition dccs_validate :: "bool \<Rightarrow> string \<Rightarrow> ('e world, unit) prog" where
  "dccs_validate condition msg =
     whenP (\<not> condition) (thenP (log_error msg) (thenP print_usage (halt (Exit 1))))"

text \<open>The label \<open>invalid\<close>.\<close>

definition invalid_value :: "('e world, 'a) prog" where
  "invalid_value = thenP (log_error ''Unrecognized option value '%s' for option '%c'\<newline>'')
     (thenP print_usage (halt (Exit 1)))"

definition store_scanned ::
  "'a option \<Rightarrow> ('a \<Rightarrow> dccs_parameters) \<Rightarrow> ('e world, dccs_parameters) prog" where
  "store_scanned x store = (case x of None \<Rightarrow> invalid_value | Some n \<Rightarrow> ret (store n))"

text \<open>The body of the loop: one result of \<open>getopt_long\<close>.\<close>

definition parse_option ::
  "int \<times> string \<Rightarrow> dccs_parameters \<Rightarrow> ('e world, dccs_parameters) prog" where
  "parse_option x params = (case x of (c, optarg) \<Rightarrow>
     if c = opt CHR ''b'' then
       store_scanned (sscanf_zu optarg) (\<lambda>n. params\<lparr>p_length := n\<rparr>)
     else if c = opt CHR ''c'' then
       store_scanned (sscanf_zu optarg) (\<lambda>n. params\<lparr>p_count := n\<rparr>)
     else if c = opt CHR ''v'' then
       (if optarg = ''read'' then ret (params\<lparr>p_verb := Read\<rparr>)
        else if optarg = ''write'' then ret (params\<lparr>p_verb := Write\<rparr>)
        else thenP (dccs_validate False ''verb must be 'read' or 'write'.\<newline>'') (ret params))
     else if c = opt CHR ''p'' then
       ret (params\<lparr>p_port := optarg\<rparr>)
     else if c = opt CHR ''m'' then
       (if optarg = ''latency'' then ret (params\<lparr>p_mode := MODE_LATENCY\<rparr>)
        else if optarg = ''throughput'' then ret (params\<lparr>p_mode := MODE_THROUGHPUT\<rparr>)
        else thenP (dccs_validate False ''mode must be 'latency' or 'throughput'.\<newline>'') (ret params))
     else if c = opt CHR ''r'' then
       store_scanned (sscanf_zu optarg) (\<lambda>n. params\<lparr>p_repeat := n\<rparr>)
     else if c = opt CHR ''w'' then
       store_scanned (sscanf_zu optarg) (\<lambda>n. params\<lparr>p_warmup_count := n\<rparr>)
     else if c = OPT_MR_COUNT then
       store_scanned (sscanf_zu optarg) (\<lambda>n. params\<lparr>p_mr_count := n\<rparr>)
     else if c = OPT_DIRECTION then
       (if optarg = ''1-N'' then ret (params\<lparr>p_direction := direction_int DIR_OUT\<rparr>)
        else if optarg = ''N-1'' then ret (params\<lparr>p_direction := direction_int DIR_IN\<rparr>)
        else if optarg = ''N-N'' then ret (params\<lparr>p_direction := direction_int DIR_BOTH\<rparr>)
        else invalid_value)
     else if c = opt CHR ''i'' then
       store_scanned (sscanf_u16 optarg) (\<lambda>n. params\<lparr>p_index := n\<rparr>)
     else if c = OPT_TOS then
       store_scanned (sscanf_u8 optarg) (\<lambda>n. params\<lparr>p_tos := n\<rparr>)
     else if c = opt CHR ''V'' then
       ret (params\<lparr>p_verbose := True\<rparr>)
     else if c = opt CHR ''h'' then
       thenP print_usage (halt (Exit 0))
     else
       thenP (dccs_validate False ''Unrecognized option '%c'.\<newline>'') (ret params))"

text \<open>A search that leaves the table is an error; every other result goes through the \<open>switch\<close>.\<close>

definition parse_result ::
  "(int \<times> string) option \<Rightarrow> dccs_parameters \<Rightarrow> ('e world, dccs_parameters) prog" where
  "parse_result x params =
     (case x of None \<Rightarrow> halt (Fault Out_of_bounds) | Some y \<Rightarrow> parse_option y params)"

definition parse_args :: "'e sys \<Rightarrow> string list \<Rightarrow> ('e world, dccs_parameters) prog" where
  "parse_args sys argv = (case getopt_long (POSIXLY_CORRECT (libc sys)) argv of (opts, others) \<Rightarrow>
     bindP (forP opts parse_result default_parameters) (\<lambda>params.
     let params = (if p_mode params = MODE_THROUGHPUT
           then params\<lparr>p_count := p_count params + p_warmup_count params\<rparr> else params);
         params = (case others of [server] \<Rightarrow> params\<lparr>p_server := Some server\<rparr> | _ \<Rightarrow> params) in
     thenP (dccs_validate (0 < p_count params) ''count must be a positive integer.\<newline>'')
    (thenP (dccs_validate (0 < p_length params) ''length must be a positive integer.\<newline>'')
    (thenP (dccs_validate (0 < p_mr_count params) ''mr count must be a positive integer.\<newline>'')
    (thenP (dccs_validate (p_count params mod p_mr_count params = 0)
              ''count must be a multiple of MR count.\<newline>'')
    (thenP (dccs_validate (0 < p_repeat params) ''repeat must be a positive integer.\<newline>'')
    (ret params)))))))"

section \<open>Parameters the program can rely on\<close>

definition known_parameters :: "dccs_parameters \<Rightarrow> bool" where
  "known_parameters p \<longleftrightarrow> p_verb p \<noteq> None_verb \<and> p_direction p \<in> {0, 1, 2}"

definition valid_parameters :: "dccs_parameters \<Rightarrow> bool" where
  "valid_parameters p \<longleftrightarrow> known_parameters p \<and> 0 < p_count p \<and> 0 < p_length p \<and> 0 < p_mr_count p \<and>
     unat (p_mr_count p) dvd unat (p_count p) \<and> 0 < p_repeat p"

definition usage_exit :: "stop \<Rightarrow> bool" where
  "usage_exit s \<longleftrightarrow> s = Exit 0 \<or> s = Exit 1"

lemma wp_validateI:
  "(condition \<Longrightarrow> Q () w) \<Longrightarrow> (\<And>w'. E (Exit 1) w') \<Longrightarrow> wp (dccs_validate condition msg) Q E w"
  by (simp add: dccs_validate_def print_usage_def wp_simps)

lemma wp_invalidI: "(\<And>w'. E (Exit 1) w') \<Longrightarrow> wp invalid_value Q E w"
  by (simp add: invalid_value_def print_usage_def wp_simps)

lemma wp_scannedI:
  "(\<And>n. x = Some n \<Longrightarrow> Q (store n) w) \<Longrightarrow> (\<And>w'. E (Exit 1) w') \<Longrightarrow> wp (store_scanned x store) Q E w"
  by (auto simp: store_scanned_def wp_ret intro: wp_invalidI split: option.split)

lemma wp_helpI: "(\<And>w'. E (Exit 0) w') \<Longrightarrow> wp (thenP print_usage (halt (Exit 0))) Q E w"
  by (simp add: print_usage_def wp_simps)

lemmas parse_intros = wp_ifI wp_scannedI wp_invalidI wp_helpI wp_validateI wp_ret [THEN iffD2]
  wp_thenP [THEN iffD2]

lemma parse_option_wp:
  "known_parameters p \<Longrightarrow>
   wp (parse_option x p) (\<lambda>p' _. known_parameters p') (\<lambda>s _. usage_exit s) w"
  unfolding parse_option_def
  by (rule wp_prodI, intro parse_intros) (simp_all add: known_parameters_def usage_exit_def)

text \<open>A long option whose name is no entry of the table.\<close>

definition unknown_long :: "string \<Rightarrow> bool" where
  "unknown_long a \<longleftrightarrow> is_long a \<and> map_of long_options (long_name a) = None"

definition args_stop :: "string list \<Rightarrow> stop \<Rightarrow> bool" where
  "args_stop args s \<longleftrightarrow> usage_exit s \<or> s = Fault Out_of_bounds \<and> list_ex unknown_long args"

lemma long_result_None: "fst (long_result a args) = None \<longleftrightarrow> map_of long_options (long_name a) = None"
  by (simp add: long_result_def split: option.split has_arg.split prod.split list.split)

lemma list_ex_rest:
  "list_ex P (snd (long_result a args)) \<Longrightarrow> list_ex P args"
  "list_ex P (snd (short_results cs args)) \<Longrightarrow> list_ex P args"
proof -
  show "list_ex P (snd (long_result a args)) \<Longrightarrow> list_ex P args"
    by (auto simp: long_result_def split: option.splits has_arg.splits prod.splits list.splits if_splits)
  show "list_ex P (snd (short_results cs args)) \<Longrightarrow> list_ex P args"
    by (induction cs) (auto split: option.splits has_arg.splits prod.splits list.splits if_splits)
qed

lemma getopt_None: "None \<in> set (fst (getopt_args posix args)) \<Longrightarrow> list_ex unknown_long args"
proof (induction posix args rule: getopt_args.induct)
  case (2 posix a args)
  show ?case
  proof (cases "a \<noteq> ''--'' \<and> is_long a")
    case True
    then show ?thesis
      using 2 long_result_None [of a args] list_ex_rest(1) [of unknown_long a args]
      by (fastforce simp: unknown_long_def split: prod.splits)
  next
    case False
    then show ?thesis
      using 2 list_ex_rest(2) [of unknown_long "drop 1 a" args]
      by (fastforce split: prod.splits if_splits)
  qed
qed simp

lemma known_defaults: "known_parameters default_parameters"
  by (simp add: known_parameters_def default_parameters_def config_defs)

lemma word_mod_0: "(a :: u64) mod b = 0 \<longleftrightarrow> unat b dvd unat a"
proof -
  have "a mod b = 0 \<longleftrightarrow> unat (a mod b) = 0" by (simp add: unat_eq_0)
  then show ?thesis by (simp add: unat_mod mod_eq_0_iff_dvd)
qed

lemma known_parameters_update [simp]:
  "known_parameters (p\<lparr>p_count := n\<rparr>) = known_parameters p"
  "known_parameters (p\<lparr>p_server := s\<rparr>) = known_parameters p"
  by (simp_all add: known_parameters_def)

lemma parse_args_wp:
  "wp (parse_args sys argv) (\<lambda>p _. valid_parameters p) (\<lambda>s _. args_stop (tl argv) s) w"
proof -
  obtain opts others where g: "getopt_long (POSIXLY_CORRECT (libc sys)) argv = (opts, others)" by fastforce
  have step: "wp (parse_result x p) (\<lambda>p' _. known_parameters p') (\<lambda>s _. args_stop (tl argv) s) w1"
    if "x \<in> set opts" "known_parameters p" for x p and w1 :: "'b world"
  proof (cases x)
    case None
    then have "list_ex unknown_long (tl argv)"
      using that(1) g getopt_None [of "POSIXLY_CORRECT (libc sys)" "tl argv"] by (simp add: getopt_long_def)
    then show ?thesis by (simp add: None parse_result_def wp_halt args_stop_def)
  next
    case (Some y)
    then show ?thesis
      by (simp add: parse_result_def) (rule wp_mono [OF parse_option_wp [OF that(2)]], simp_all add: args_stop_def)
  qed
  have loop: "wp (forP opts parse_result default_parameters) (\<lambda>p' _. known_parameters p')
      (\<lambda>s _. args_stop (tl argv) s) w"
    by (rule wp_forP_inv) (simp_all add: step known_defaults)
  show ?thesis
    unfolding parse_args_def g prod.case wp_bindP Let_def
    by (rule wp_mono [OF loop], intro parse_intros)
      (auto simp: valid_parameters_def args_stop_def usage_exit_def word_mod_0 split: list.split)
qed

lemma total_parse_args: "total (parse_args sys argv)"
  unfolding parse_args_def parse_result_def parse_option_def dccs_validate_def invalid_value_def store_scanned_def
    print_usage_def Let_def
  by (intro total_intros total_log)

section \<open>Spelling parameters out\<close>

definition counted :: "dccs_parameters \<Rightarrow> u64" where
  "counted p = (case p_mode p of MODE_LATENCY \<Rightarrow> p_count p | MODE_THROUGHPUT \<Rightarrow> p_count p - p_warmup_count p)"

definition options_of :: "dccs_parameters \<Rightarrow> (int \<times> string) list" where
  "options_of p =
     [(opt CHR ''b'', decimal (unat (p_length p))), (opt CHR ''c'', decimal (unat (counted p)))] @
     (case p_verb p of Read \<Rightarrow> [(opt CHR ''v'', ''read'')] | Write \<Rightarrow> [(opt CHR ''v'', ''write'')] | _ \<Rightarrow> []) @
     [(opt CHR ''p'', p_port p),
      (opt CHR ''m'', case p_mode p of MODE_LATENCY \<Rightarrow> ''latency'' | MODE_THROUGHPUT \<Rightarrow> ''throughput''),
      (opt CHR ''r'', decimal (unat (p_repeat p))), (opt CHR ''w'', decimal (unat (p_warmup_count p))),
      (OPT_MR_COUNT, decimal (unat (p_mr_count p))), (OPT_DIRECTION, direction_name (p_direction p)),
      (opt CHR ''i'', decimal (unat (p_index p))), (OPT_TOS, decimal (unat (p_tos p)))] @
     (if p_verbose p then [(opt CHR ''V'', [])] else [])"

definition server_of :: "dccs_parameters \<Rightarrow> string list" where
  "server_of p = (case p_server p of None \<Rightarrow> [] | Some s \<Rightarrow> [s])"

text \<open>
  A command line that spells these options: short ones with the value attached or in the next
  argument, long ones with the value after an equals sign or in the next argument.
\<close>

definition command_line :: "dccs_parameters \<Rightarrow> string list" where
  "command_line p =
     [''-b'' @ decimal (unat (p_length p)), ''-c'', decimal (unat (counted p))] @
     (case p_verb p of Read \<Rightarrow> [''--verb=read''] | Write \<Rightarrow> [''-vwrite''] | _ \<Rightarrow> []) @
     [''-p'', p_port p,
      ''--mode'', case p_mode p of MODE_LATENCY \<Rightarrow> ''latency'' | MODE_THROUGHPUT \<Rightarrow> ''throughput'',
      ''--repeat='' @ decimal (unat (p_repeat p)), ''-w'' @ decimal (unat (p_warmup_count p)),
      ''--mr_count'', decimal (unat (p_mr_count p)), ''--direction='' @ direction_name (p_direction p),
      ''-i'', decimal (unat (p_index p)), ''--tos'', decimal (unat (p_tos p))] @
     (if p_verbose p then [''-V''] else []) @ [''--''] @ server_of p"

lemma digits_value_append:
  "digits_value (ds @ [c]) = 10 * digits_value ds + (of_char c - 48)"
  by (simp add: digits_value_def)

lemma digit_char: "d < 10 \<Longrightarrow> of_char (char_of (48 + d) :: char) = (48 + d :: nat)"
  by simp

lemma decimal_digits: "digits_value (decimal n) = n \<and> decimal n \<noteq> [] \<and> list_all is_digit (decimal n)"
proof (induction n rule: decimal.induct)
  case (1 n)
  show ?case
  proof (cases "n < 10")
    case True
    then show ?thesis by (subst (1 2 3) decimal.simps) (simp add: digits_value_def is_digit_def)
  next
    case False
    let ?c = "char_of (48 + n mod 10) :: char"
    have "n mod 10 < 10" by simp
    then have c: "of_char ?c = (48 + n mod 10 :: nat)" by (rule digit_char)
    then have "is_digit ?c" using \<open>n mod 10 < 10\<close> unfolding is_digit_def c by linarith
    with 1 [OF False] False c show ?thesis
      by (subst (1 2 3) decimal.simps) (simp add: digits_value_append)
  qed
qed

lemma digit_no_sign: "is_digit c \<Longrightarrow> \<not> is_space c \<and> c \<noteq> CHR ''-'' \<and> c \<noteq> CHR ''+''"
  by (auto simp: is_digit_def is_space_def)

lemma sscanf_digits:
  assumes "list_all is_digit ds" and "ds \<noteq> []" and "digits_value ds < 2 ^ 64"
  shows "sscanf_zu ds = Some (of_nat (digits_value ds))"
proof -
  obtain c cs where ds: "ds = c # cs" using assms(2) by (cases ds) auto
  with assms(1) have c: "is_digit c" by simp
  have "takeWhile is_digit ds = ds" using assms(1) by (simp add: list_all_iff takeWhile_eq_all_conv)
  then show ?thesis
    using digit_no_sign [OF c] assms(3) by (simp add: sscanf_zu_def ds)
qed

lemma sscanf_decimal: "n < 2 ^ 64 \<Longrightarrow> sscanf_zu (decimal n) = Some (of_nat n)"
  using decimal_digits [of n] sscanf_digits [of "decimal n"] by simp

lemma ucast_narrow: "(ucast (ucast (y :: u16) :: u64) :: u16) = y" "(ucast (ucast (z :: u8) :: u64) :: u8) = z"
  by (rule bit_word_eqI; simp add: bit_simps)+

lemma sscanf_printed [simp]:
  "sscanf_zu (decimal (unat (x :: u64))) = Some x"
  "sscanf_u16 (decimal (unat (y :: u16))) = Some y"
  "sscanf_u8 (decimal (unat (z :: u8))) = Some z"
proof -
  have "unat y < 2 ^ 16" "unat z < 2 ^ 8"
    using unsigned_less [of y] unsigned_less [of z] by simp_all
  then show "sscanf_zu (decimal (unat x)) = Some x" "sscanf_u16 (decimal (unat y)) = Some y"
    "sscanf_u8 (decimal (unat z)) = Some z"
    using unat_lt_64 [of x] by (simp_all add: sscanf_u16_def sscanf_u8_def sscanf_decimal ucast_narrow)
qed

lemma validate_holds: "condition \<Longrightarrow> thenP (dccs_validate condition msg) m = m"
  by (simp add: dccs_validate_def whenP_def thenP_def)

lemma parse_one:
  "parse_option (opt CHR ''b'', decimal (unat x)) p = ret (p\<lparr>p_length := x\<rparr>)"
  "parse_option (opt CHR ''c'', decimal (unat x)) p = ret (p\<lparr>p_count := x\<rparr>)"
  "parse_option (opt CHR ''v'', ''read'') p = ret (p\<lparr>p_verb := Read\<rparr>)"
  "parse_option (opt CHR ''v'', ''write'') p = ret (p\<lparr>p_verb := Write\<rparr>)"
  "parse_option (opt CHR ''p'', s) p = ret (p\<lparr>p_port := s\<rparr>)"
  "parse_option (opt CHR ''m'', ''latency'') p = ret (p\<lparr>p_mode := MODE_LATENCY\<rparr>)"
  "parse_option (opt CHR ''m'', ''throughput'') p = ret (p\<lparr>p_mode := MODE_THROUGHPUT\<rparr>)"
  "parse_option (opt CHR ''r'', decimal (unat x)) p = ret (p\<lparr>p_repeat := x\<rparr>)"
  "parse_option (opt CHR ''w'', decimal (unat x)) p = ret (p\<lparr>p_warmup_count := x\<rparr>)"
  "parse_option (OPT_MR_COUNT, decimal (unat x)) p = ret (p\<lparr>p_mr_count := x\<rparr>)"
  "d \<in> {0, 1, 2} \<Longrightarrow> parse_option (OPT_DIRECTION, direction_name d) p = ret (p\<lparr>p_direction := d\<rparr>)"
  "parse_option (opt CHR ''i'', decimal (unat y)) p = ret (p\<lparr>p_index := y\<rparr>)"
  "parse_option (OPT_TOS, decimal (unat z)) p = ret (p\<lparr>p_tos := z\<rparr>)"
  "parse_option (opt CHR ''V'', t) p = ret (p\<lparr>p_verbose := True\<rparr>)"
  by (simp_all add: parse_option_def option_codes store_scanned_def) (auto simp: direction_name_def)

lemma parse_options_of:
  assumes "known_parameters p" and "p_slot p = 0"
  shows "forP (options_of p) parse_option default_parameters =
    ret (p\<lparr>p_count := counted p, p_server := None\<rparr>)"
  using assms
  by (cases p)
    (auto simp: options_of_def parse_one known_parameters_def default_parameters_def
      split: Verb.splits Mode.splits)


lemma forP_results: "forP (map Some xs) parse_result = forP xs parse_option"
proof (induction xs)
  case (Cons x xs)
  then show ?case by (intro ext) (simp, simp add: parse_result_def)
qed (rule ext, simp)

lemma decimal_nonempty [simp]: "decimal n \<noteq> []"
  using decimal_digits [of n] by blast

lemma short_option_codes [simp]:
  "short_option short_options CHR ''b'' = Some required_argument"
  "short_option short_options CHR ''c'' = Some required_argument"
  "short_option short_options CHR ''v'' = Some required_argument"
  "short_option short_options CHR ''p'' = Some required_argument"
  "short_option short_options CHR ''i'' = Some required_argument"
  "short_option short_options CHR ''w'' = Some required_argument"
  "short_option short_options CHR ''m'' = Some required_argument"
  "short_option short_options CHR ''V'' = Some no_argument"
  by (simp_all add: short_options_def)

lemma getopt_command_line:
  "getopt_long posix (a0 # command_line p) = (map Some (options_of p), server_of p)"
  by (simp add: getopt_long_def command_line_def options_of_def is_long_def is_short_def
      long_result_def long_name_def long_value_def long_options_def
      split: Verb.split Mode.split)

section \<open>Properties\<close>

text \<open>
  C12. Whatever the command line, parsing ends: with parameters whose verb and direction are known,
  whose counts and length are positive and whose count is a multiple of the number of memory
  regions, or with the exit status 0 or 1.  The only fault is the read past the end of the table of
  long options, and that needs an argument that is a long option the table does not hold: the table
  lacks its last entry, the one that would end the search.
\<close>

theorem parse_args_valid:
  "\<exists>r w'. parse_args sys argv w = Some (r, w') \<and>
     (case r of Ret p \<Rightarrow> valid_parameters p
      | Stop s \<Rightarrow> usage_exit s \<or> s = Fault Out_of_bounds \<and> list_ex unknown_long (tl argv))"
  using total_outcome [OF total_parse_args parse_args_wp, of sys argv w] by (simp only: args_stop_def)

text \<open>And such an argument does it, for example as the first one: \<open>--mr 4\<close> of the usage message.\<close>

lemma unknown_long_option_faults:
  "unknown_long a \<Longrightarrow> parse_args sys (a0 # a # rest) w = Some (Stop (Fault Out_of_bounds), w)"
proof -
  assume "unknown_long a"
  then have a: "is_long a" "a \<noteq> ''--''" "fst (long_result a rest) = None"
    by (simp_all add: unknown_long_def long_result_None is_long_def)
  then obtain rest' where "long_result a rest = (None, rest')" by (cases "long_result a rest") simp
  moreover obtain xs others where "getopt_args (POSIXLY_CORRECT (libc sys)) rest' = (xs, others)" by fastforce
  ultimately show ?thesis
    using a(1,2) by (simp add: parse_args_def getopt_long_def parse_result_def bindP_def halt_def)
qed

lemma unknown_long_mr: "unknown_long ''--mr''"
  by (simp add: unknown_long_def is_long_def long_name_def long_options_def)

text \<open>
  C16. Spelling valid parameters out on the command line and parsing it gives the parameters back,
  for every verb, mode and direction, and prints nothing.  In throughput mode the spelt count is the
  count without the warm-up, which the parser adds.
\<close>

theorem parse_args_roundtrip:
  assumes "valid_parameters p" and "p_slot p = 0"
  shows "parse_args sys (a0 # command_line p) w = Some (Ret p, w)"
proof -
  have known: "known_parameters p" using assms(1) by (simp add: valid_parameters_def)
  have "parse_args sys (a0 # command_line p) = ret p"
    unfolding parse_args_def getopt_command_line prod.case forP_results parse_options_of [OF known assms(2)] bindP_ret
    using assms(1)
    by (cases p) (simp add: Let_def counted_def server_of_def valid_parameters_def validate_holds
        word_mod_0 split: Mode.split option.split)
  then show ?thesis by (simp add: ret_def)
qed

definition argv_example :: dccs_parameters where
  "argv_example = default_parameters\<lparr>p_verb := Write, p_count := 12, p_mr_count := 3, p_mode := MODE_THROUGHPUT,
     p_warmup_count := 2, p_direction := 2, p_tos := 32, p_server := Some ''server'', p_verbose := True\<rparr>"

theorem parse_args_roundtrip_witness:
  "parse_args (test_sys Little_endian) [''rdma'', ''-b2'', ''-c'', ''10'', ''-vwrite'', ''-p'', ''1234'',
     ''--mode'', ''throughput'', ''--repeat=1'', ''-w2'', ''--mr_count'', ''3'', ''--direction=N-N'', ''-i'', ''0'',
     ''--tos'', ''32'', ''-V'', ''--'', ''server''] world0 = Some (Ret argv_example, world0)"
proof -
  have "valid_parameters argv_example" "p_slot argv_example = 0"
    by (simp_all add: valid_parameters_def known_parameters_def argv_example_def default_parameters_def config_defs)
  from parse_args_roundtrip [OF this, of "test_sys Little_endian" "''rdma''" world0] show ?thesis
    by (simp add: command_line_def counted_def server_of_def argv_example_def default_parameters_def config_defs
        decimal.simps direction_name_def char_of_def bit_0)
qed

end
