(* ===== verification/Reports.thy ===== *)
theory Reports
  imports Dccs_Utils
begin

text \<open>
  The reports of \<open>dccs_rdma.h\<close> and the sorting of latencies of \<open>dccs_utils.h\<close>.  Arithmetic is that
  of \<open>double\<close> values (theory \<open>Floating\<close>); \<open>pow\<close> and \<open>sqrt\<close> are parameters.  Arrays that are only
  read are lists; the arrays a function allocates are lists beside the block that holds them, whose
  size bounds the indices that may be written.  The global \<open>clock_rate\<close> is an argument.

  The lemmas show that the latency report never leaves its arrays when there is something to
  report, that the values it prints are the order statistics of the measured latencies, and that
  every function gives back the blocks it allocates.
\<close>

section \<open>Sorting\<close>

definition compare_double :: "double \<Rightarrow> double \<Rightarrow> int" where
  "compare_double da db = (if dless da db then - 1 else if dless db da then 1 else 0)"

text \<open>\<open>qsort\<close>: an arrangement of the array that is sorted for the comparison function.\<close>

fun insert_by :: "('a \<Rightarrow> 'a \<Rightarrow> int) \<Rightarrow> 'a \<Rightarrow> 'a list \<Rightarrow> 'a list" where
  "insert_by cmp x [] = [x]"
| "insert_by cmp x (y # ys) = (if cmp x y \<le> 0 then x # y # ys else y # insert_by cmp x ys)"

definition qsort :: "('a \<Rightarrow> 'a \<Rightarrow> int) \<Rightarrow> 'a list \<Rightarrow> 'a list" where
  "qsort cmp xs = foldr (insert_by cmp) xs []"

definition sort_latencies :: "double list \<Rightarrow> double list" where
  "sort_latencies latencies = qsort compare_double latencies"

text \<open>The conversion of cycles with \<open>USE_RDTSC\<close> 0.\<close>

definition get_time_in_microseconds :: "u64 \<Rightarrow> double" where
  "get_time_in_microseconds cycles = ddiv (double_of_nat (unat cycles)) (Fin 1000)"

section \<open>Digest of the buffers\<close>

text \<open>\<open>array[n] = requests[n].buf\<close> for an array of \<open>size\<close> bytes at \<open>p\<close>.\<close>

definition collect_step ::
  "dccs_request list \<Rightarrow> u64 \<Rightarrow> u64 \<Rightarrow> nat \<Rightarrow> u64 list \<Rightarrow> ('e world, u64 list) prog" where
  "collect_step requests p sz n array =
     (if length requests \<le> n then halt (Fault Out_of_bounds)
      else if p = 0 then halt (Fault Null_deref)
      else if unat sz < 8 * n + 8 then halt (Fault Out_of_bounds)
      else ret (array @ [rq_buf (requests ! n)]))"

definition SHA_DIGEST_LENGTH :: u64 where "SHA_DIGEST_LENGTH = 20"

definition print_sha1sum :: "'e sys \<Rightarrow> dccs_request list \<Rightarrow> u64 \<Rightarrow> ('e world, unit) prog" where
  "print_sha1sum sys requests cnt =
     (if cnt = 0 then log_error ''Failed to calculate SHA1 sum: empty request array.''
      else if requests = [] then halt (Fault Out_of_bounds) else
      (let len = rq_length (requests ! 0) in
       bindP (call_malloc sys (cnt * 8)) (\<lambda>p.
       bindP (forP [0..<unat cnt] (collect_step requests p (cnt * 8)) []) (\<lambda>array.
       bindP (sha1sum_array sys array len) (\<lambda>d.
       thenP (write_mem (local_addr sys ''digest'') d)
      (bindP (bin_to_hex_string sys (local_addr sys ''digest'') SHA_DIGEST_LENGTH) (\<lambda>digest_hex.
       bindP (read_mem digest_hex (2 * unat SHA_DIGEST_LENGTH)) (\<lambda>text.
       thenP (log_info_args ''SHA1 sum: count = %zu, length = %zu, digest = %s.\<newline>''
                [Arg_u64 cnt, Arg_u64 len, Arg_bytes text])
      (thenP (call_free sys digest_hex)
       (call_free sys p))))))))))"

section \<open>Latency\<close>

definition raw_line :: "double list \<Rightarrow> double list \<Rightarrow> double list \<Rightarrow> nat \<Rightarrow> unit \<Rightarrow> ('e world, unit) prog" where
  "raw_line start fin latencies n _ =
     (if length start \<le> n \<or> length fin \<le> n \<or> length latencies \<le> n then halt (Fault Out_of_bounds)
      else log_verbose_args ''%.3f,%.3f,%.3f\<newline>''
        [Arg_double (start ! n), Arg_double (fin ! n), Arg_double (latencies ! n)])"

definition print_raw_latencies ::
  "double list \<Rightarrow> double list \<Rightarrow> double list \<Rightarrow> u64 \<Rightarrow> ('e world, unit) prog" where
  "print_raw_latencies start fin latencies cnt =
     thenP (log_verbose (''Raw latency ('' @ micro_sec @ ''):\<newline>''))
    (thenP (log_verbose ''Start,End,Latency\<newline>'')
    (thenP (forP [0..<unat cnt] (raw_line start fin latencies) ())
    (log_verbose ''\<newline>'')))"

text \<open>The locals of \<open>print_latency_report_raw\<close> that its first loop updates.\<close>

record report_locals =
  l_dstarts :: "double list"
  l_dends :: "double list"
  l_latencies :: "double list"
  l_sum :: double
  l_min :: double
  l_max :: double
  l_finished :: int

definition report_init :: report_locals where
  "report_init = \<lparr>l_dstarts = [], l_dends = [], l_latencies = [], l_sum = Fin 0, l_min = DBL_MAX,
     l_max = Fin 0, l_finished = 0\<rparr>"

text \<open>\<open>(double)c * MILLION / (double)clock_rate\<close>.\<close>

definition usec :: "u64 \<Rightarrow> u64 \<Rightarrow> double" where
  "usec clock_rate c =
     ddiv (dmul (double_of_nat (unat c)) (double_of_nat (unat MILLION))) (double_of_nat (unat clock_rate))"

text \<open>One round of its first loop, after \<open>finished_count\<close> was updated.\<close>

definition report_round :: "u64 \<Rightarrow> u64 \<Rightarrow> u64 \<Rightarrow> int \<Rightarrow> report_locals \<Rightarrow> report_locals" where
  "report_round clock_rate start fin finished_count l =
     (let dstart = usec clock_rate start; dend = usec clock_rate fin;
          latency = usec clock_rate (fin - start) in
      \<lparr>l_dstarts = l_dstarts l @ [dstart], l_dends = l_dends l @ [dend],
       l_latencies = l_latencies l @ [latency], l_sum = dadd (l_sum l) latency,
       l_min = (if dless latency (l_min l) then latency else l_min l),
       l_max = (if dless (l_max l) latency then latency else l_max l),
       l_finished = finished_count\<rparr>)"

text \<open>The request ended within \<open>DCCS_CYCLE_UPTIME\<close> of the first start.\<close>

definition in_time :: "u64 \<Rightarrow> double \<Rightarrow> u64 \<Rightarrow> bool" where
  "in_time clock_rate first_start fin =
     dleq (dsub (usec clock_rate fin) first_start) (double_of_nat DCCS_CYCLE_UPTIME)"

definition report_step ::
  "u64 \<Rightarrow> double \<Rightarrow> u64 list \<Rightarrow> u64 list \<Rightarrow> u64 \<Rightarrow> bool \<Rightarrow> nat \<Rightarrow> report_locals \<Rightarrow> ('e world, report_locals) prog" where
  "report_step clock_rate first_start starts ends sz nonnull n l =
     (if length starts \<le> n \<or> length ends \<le> n then halt (Fault Out_of_bounds)
      else bindP (if in_time clock_rate first_start (ends ! n) then add_int (l_finished l) 1
                  else ret (l_finished l)) (\<lambda>finished_count.
      if \<not> nonnull then halt (Fault Null_deref)
      else if unat sz < 8 * n + 8 then halt (Fault Out_of_bounds)
      else ret (report_round clock_rate (starts ! n) (ends ! n) finished_count l)))"

text \<open>An element of a local array, and the index \<open>(int)((double)length * c)\<close>.\<close>

definition array_get :: "'a list \<Rightarrow> int \<Rightarrow> ('e world, 'a) prog" where
  "array_get xs i = (if i < 0 \<or> int (length xs) \<le> i then halt (Fault Out_of_bounds) else ret (xs ! nat i))"

definition percentile :: "double list \<Rightarrow> u64 \<Rightarrow> rat \<Rightarrow> ('e world, double) prog" where
  "percentile latencies len c =
     (case cast_int (dmul (double_of_nat (unat len)) (to_double c)) of
        None \<Rightarrow> halt (Fault Bad_conversion)
      | Some i \<Rightarrow> array_get latencies i)"

definition sum_squares :: "'e sys \<Rightarrow> double \<Rightarrow> double list \<Rightarrow> double" where
  "sum_squares sys average latencies =
     foldl (\<lambda>s latency. dadd s (libm_pow (libc sys) (dsub latency average) (Fin 2))) (Fin 0) latencies"

definition report_line :: string where
  "report_line = ''%zu, %zu, %.3f, %.3f, %.3f, %.3f, %.3f, %.3f, %.3f\<newline>''"

definition finished_line :: string where
  "finished_line = ''# of requests sent in %d '' @ micro_sec @ '': %d.\<newline>''"

text \<open>From the sorted latencies to the last line of the report.\<close>

definition report_summary ::
  "'e sys \<Rightarrow> report_locals \<Rightarrow> double list \<Rightarrow> u64 \<Rightarrow> u64 \<Rightarrow> ('e world, unit) prog" where
  "report_summary sys l sorted_latencies len requests_length =
     bindP (array_get sorted_latencies (uint (len div 2))) (\<lambda>median.
     bindP (percentile sorted_latencies len (9 / 10)) (\<lambda>percent90.
     bindP (percentile sorted_latencies len (99 / 100)) (\<lambda>percent99.
     let average = ddiv (l_sum l) (double_of_nat (unat len));
         stdev = libm_sqrt (libc sys) (ddiv (sum_squares sys average sorted_latencies) (double_of_nat (unat len))) in
     thenP (log_info ''#bytes, #length, median, average, min, max, stdev, percent90, percent99\<newline>'')
    (thenP (log_info_args report_line
        [Arg_u64 requests_length, Arg_u64 len, Arg_double median, Arg_double average,
         Arg_double (l_min l), Arg_double (l_max l), Arg_double stdev,
         Arg_double percent90, Arg_double percent99])
    (thenP (log_info_args finished_line [Arg_int (int DCCS_CYCLE_UPTIME), Arg_int (l_finished l)])
    (log_info ''=====================\<newline>\<newline>''))))))"

definition print_latency_report_raw ::
  "'e sys \<Rightarrow> u64 \<Rightarrow> u64 list \<Rightarrow> u64 list \<Rightarrow> u64 \<Rightarrow> u64 \<Rightarrow> bool \<Rightarrow> u64 \<Rightarrow> u64 \<Rightarrow> ('e world, unit) prog" where
  "print_latency_report_raw sys clock_rate starts ends len first verbose requests_count requests_length =
     bindP (call_malloc sys (len * 8)) (\<lambda>dstarts.
     bindP (call_malloc sys (len * 8)) (\<lambda>dends.
     bindP (call_malloc sys (len * 8)) (\<lambda>latencies.
     thenP (log_info ''=====================\<newline>'')
    (thenP (log_info ''Latency Report\<newline>'')
    (bindP (forP [0..<unat len]
              (report_step clock_rate (usec clock_rate first) starts ends (len * 8)
                 (dstarts \<noteq> 0 \<and> dends \<noteq> 0 \<and> latencies \<noteq> 0)) report_init) (\<lambda>l.
     thenP (whenP verbose (print_raw_latencies (l_dstarts l) (l_dends l) (l_latencies l) len))
    (thenP (report_summary sys l (sort_latencies (l_latencies l)) len requests_length)
    (thenP (call_free sys dstarts)
    (thenP (call_free sys dends)
    (call_free sys latencies))))))))))"

text \<open>\<open>start[n] = requests[n].start; end[n] = requests[n].end\<close>.\<close>

definition stamps_step ::
  "dccs_request list \<Rightarrow> u64 \<Rightarrow> bool \<Rightarrow> nat \<Rightarrow> u64 list \<times> u64 list \<Rightarrow> ('e world, u64 list \<times> u64 list) prog" where
  "stamps_step requests sz nonnull n = (\<lambda>(starts, ends).
     if length requests \<le> n then halt (Fault Out_of_bounds)
     else if \<not> nonnull then halt (Fault Null_deref)
     else if unat sz < 8 * n + 8 then halt (Fault Out_of_bounds)
     else ret (starts @ [rq_start (requests ! n)], ends @ [rq_end (requests ! n)]))"

definition print_latency_report ::
  "'e sys \<Rightarrow> u64 \<Rightarrow> dccs_parameters \<Rightarrow> dccs_request list \<Rightarrow> ('e world, unit) prog" where
  "print_latency_report sys clock_rate params requests =
     bindP (call_malloc sys (p_count params * 8)) (\<lambda>start.
     bindP (call_malloc sys (p_count params * 8)) (\<lambda>fin.
     bindP (forP [0..<unat (p_count params)]
              (stamps_step requests (p_count params * 8) (start \<noteq> 0 \<and> fin \<noteq> 0)) ([], [])) (\<lambda>(starts, ends).
     if requests = [] then halt (Fault Out_of_bounds) else
     thenP (print_latency_report_raw sys clock_rate starts ends (p_count params)
              (rq_start (requests ! 0)) (p_verbose params) (p_count params) (p_length params))
    (thenP (call_free sys start)
    (call_free sys fin)))))"

section \<open>Throughput\<close>

definition print_throughput_report ::
  "u64 \<Rightarrow> dccs_parameters \<Rightarrow> dccs_request list \<Rightarrow> ('e world, unit) prog" where
  "print_throughput_report clock_rate params requests =
     (let warmup_count = p_warmup_count params; cnt = p_count params; len = p_length params;
          transfered_bytes = (cnt - warmup_count) * len in
      if length requests \<le> unat warmup_count \<or> length requests \<le> unat (cnt - 1)
      then halt (Fault Out_of_bounds) else
      (let start_cycles = rq_start (requests ! unat warmup_count);
           end_cycles = rq_end (requests ! unat (cnt - 1));
           elapsed_seconds = ddiv (double_of_nat (unat (end_cycles - start_cycles)))
                                  (double_of_nat (unat clock_rate));
           throughput_bytes_per_second = ddiv (double_of_nat (unat transfered_bytes)) elapsed_seconds;
           throughput_gbits = ddiv (dmul throughput_bytes_per_second (Fin 8)) (Fin 1000000000) in
       thenP (log_info ''=====================\<newline>'')
      (thenP (log_info ''Throughput Report\<newline>'')
      (thenP (log_info_args ''Transferred: %lu B, elapsed: %.3e s, throughput: %.3f Gbps.\<newline>''
                [Arg_u64 transfered_bytes, Arg_double elapsed_seconds, Arg_double throughput_gbits])
      (log_info ''=====================\<newline>\<newline>'')))))"

section \<open>Sorting is sorting\<close>

text \<open>A comparison function that orders the images of a linear order as the order does.\<close>

locale key_comparator =
  fixes cmp :: "'a \<Rightarrow> 'a \<Rightarrow> int" and key :: "'b :: linorder \<Rightarrow> 'a"
  assumes cmp_le: "cmp (key x) (key y) \<le> 0 \<longleftrightarrow> x \<le> y"
begin

lemma insert_key: "insert_by cmp (key x) (map key xs) = map key (insort x xs)"
  by (induction xs) (simp_all add: cmp_le)

lemma qsort_key: "qsort cmp (map key xs) = map key (sort xs)"
  by (induction xs) (simp_all add: qsort_def insert_key)

end

interpretation finite_doubles: key_comparator compare_double Fin
  by unfold_locales (auto simp: compare_double_def)

lemma length_insert_by [simp]: "length (insert_by cmp x xs) = Suc (length xs)"
  by (induction xs) simp_all

lemma length_qsort [simp]: "length (qsort cmp xs) = length xs"
  by (induction xs) (simp_all add: qsort_def)

section \<open>The measured values are finite\<close>

fun the_fin :: "double \<Rightarrow> rat" where
  "the_fin (Fin r) = r"
| "the_fin _ = 0"

lemma double_of_word:
  fixes c :: u64
  obtains r where "double_of_nat (unat c) = Fin r" and "0 \<le> r" and "r \<le> 2 ^ 65"
    and "c \<noteq> 0 \<Longrightarrow> 1 / 2 \<le> r"
proof -
  define x :: rat where "x = of_nat (unat c)"
  have "of_nat (unat c) < (of_nat (2 ^ 64) :: rat)" using unat_lt_64 [of c] by (simp only: of_nat_less_iff)
  then have "x < 2 ^ 64" by (simp add: x_def)
  moreover have x0: "0 \<le> x" unfolding x_def by (rule of_nat_0_le_iff)
  ultimately have x64: "\<bar>x\<bar> \<le> 2 ^ 64" by linarith
  obtain r where r: "to_double x = Fin r" "\<bar>r\<bar> \<le> 2 ^ Suc 64"
    by (rule to_double_bounded [OF x64]) simp_all
  have "1 / 2 \<le> r" if "c \<noteq> 0"
  proof -
    have "1 \<le> unat c" using that by (simp add: unat_gt_0 Suc_leI)
    then have "of_nat 1 \<le> x" unfolding x_def by (simp only: of_nat_le_iff)
    then have x1: "1 \<le> x" by simp
    have "(2 :: rat) powi (- 1022) \<le> 2 powi 0" by (rule power_int_increasing) simp_all
    then have "(2 :: rat) powi (- 1022) \<le> 1" by (simp only: power_int_0_right)
    then have lo: "2 powi (- 1022) \<le> \<bar>x\<bar>" using x1 by linarith
    have "(2 :: rat) ^ 64 \<le> 2 ^ 1000" by (rule power_increasing) simp_all
    then have hi: "\<bar>x\<bar> \<le> 2 ^ 1000" using x64 by linarith
    obtain s where s: "to_double x = Fin s" "\<bar>s - x\<bar> \<le> \<bar>x\<bar> / 2 ^ 53" by (rule to_double_near [OF lo hi])
    have "\<bar>x\<bar> / 2 ^ 53 \<le> \<bar>x\<bar> / 2" by simp
    with s(2) x1 have "1 / 2 \<le> s" by linarith
    with r(1) s(1) show ?thesis by simp
  qed
  moreover have "0 \<le> r" by (rule to_double_nonneg [OF x0 r(1)])
  ultimately show ?thesis using r that [of r] by (simp add: double_of_nat_def x_def)
qed

lemma usec_finite:
  assumes "clock_rate \<noteq> 0"
  shows "\<exists>r. usec clock_rate c = Fin r \<and> 0 \<le> r \<and> r < (2 ^ 53 - 1) * 2 ^ 971"
proof -
  obtain a where a: "double_of_nat (unat c) = Fin a" "0 \<le> a" "a \<le> 2 ^ 65" by (rule double_of_word)
  obtain d where d: "double_of_nat (unat clock_rate) = Fin d" "1 / 2 \<le> d"
    using assms by (rule_tac double_of_word [of clock_rate]) auto
  have m: "double_of_nat (unat MILLION) = Fin 1000000"
    using double_of_nat_exact [of 1000000] by (simp add: MILLION_def)
  have "a * 1000000 \<le> 2 ^ 65 * 1000000" using a(3) by (intro mult_right_mono) simp_all
  also have "(2 :: rat) ^ 65 * 1000000 \<le> 2 ^ 85" by simp
  finally have "\<bar>a * 1000000\<bar> \<le> 2 ^ 85" using a(2) by simp
  then obtain b where b: "to_double (a * 1000000) = Fin b" "\<bar>b\<bar> \<le> 2 ^ Suc 85"
    by (rule to_double_bounded) simp_all
  have b0: "0 \<le> b" by (rule to_double_nonneg [OF _ b(1)]) (use a in simp)
  have "b / d \<le> b / (1 / 2)" using b0 d(2) by (intro divide_left_mono) simp_all
  then have "b / d \<le> 2 ^ 87" using b(2) b0 by simp
  then have "\<bar>b / d\<bar> \<le> 2 ^ 87" using b0 d(2) by simp
  then obtain r where r: "to_double (b / d) = Fin r" "\<bar>r\<bar> \<le> 2 ^ Suc 87"
    by (rule to_double_bounded) simp_all
  have r0: "0 \<le> r" by (rule to_double_nonneg [OF _ r(1)]) (use b0 d(2) in simp)
  have "(2 :: rat) ^ Suc 87 < (2 ^ 53 - 1) * 2 ^ 971" by simp
  with r(2) r0 have "r < (2 ^ 53 - 1) * 2 ^ 971" by linarith
  moreover have "usec clock_rate c = Fin r"
    using d(2) by (auto simp: usec_def a m d b r)
  ultimately show ?thesis using r0 by blast
qed

definition latency_of :: "u64 \<Rightarrow> u64 \<Rightarrow> u64 \<Rightarrow> rat" where
  "latency_of clock_rate start fin = the_fin (usec clock_rate (fin - start))"

lemma usec_latency:
  assumes "clock_rate \<noteq> 0"
  shows "usec clock_rate (fin - start) = Fin (latency_of clock_rate start fin)"
    and "0 \<le> latency_of clock_rate start fin"
    and "latency_of clock_rate start fin < (2 ^ 53 - 1) * 2 ^ 971"
  using usec_finite [OF assms, of "fin - start"] by (auto simp: latency_of_def)

section \<open>What the report holds\<close>

definition latencies_of :: "u64 \<Rightarrow> u64 list \<Rightarrow> u64 list \<Rightarrow> nat \<Rightarrow> rat list" where
  "latencies_of clock_rate starts ends n = map (\<lambda>i. latency_of clock_rate (starts ! i) (ends ! i)) [0..<n]"

lemma length_latencies_of [simp]: "length (latencies_of clock_rate starts ends n) = n"
  by (simp add: latencies_of_def)

lemma latencies_of_Suc:
  "latencies_of clock_rate starts ends (Suc n) =
     latencies_of clock_rate starts ends n @ [latency_of clock_rate (starts ! n) (ends ! n)]"
  by (simp add: latencies_of_def)

definition report_inv :: "u64 \<Rightarrow> u64 list \<Rightarrow> u64 list \<Rightarrow> nat \<Rightarrow> report_locals \<Rightarrow> bool" where
  "report_inv clock_rate starts ends n l \<longleftrightarrow>
     l_latencies l = map Fin (latencies_of clock_rate starts ends n) \<and>
     length (l_dstarts l) = n \<and> length (l_dends l) = n \<and>
     (if n = 0 then l_min l = DBL_MAX \<and> l_max l = Fin 0 else
      l_min l = Fin (Min (set (latencies_of clock_rate starts ends n))) \<and>
      l_max l = Fin (Max (set (latencies_of clock_rate starts ends n))))"

lemma set_nonempty_latencies: "n \<noteq> 0 \<Longrightarrow> set (latencies_of clock_rate starts ends n) \<noteq> {}"
  by (metis length_latencies_of length_0_conv set_empty)

lemma report_round_inv:
  assumes rate: "clock_rate \<noteq> 0" and "report_inv clock_rate starts ends n l"
  shows "report_inv clock_rate starts ends (Suc n)
    (report_round clock_rate (starts ! n) (ends ! n) finished_count l)"
proof -
  note u = usec_latency [OF rate]
  show ?thesis
  proof (cases "n = 0")
    case True
    then show ?thesis
      using assms(2) u(2,3) [of "starts ! 0" "ends ! 0"]
      by (simp add: report_inv_def report_round_def Let_def latencies_of_def u(1) DBL_MAX_def less_le)
  next
    case False
    note ne = set_nonempty_latencies [OF False, of clock_rate starts ends]
    show ?thesis
      using assms(2) False
      by (simp add: report_inv_def report_round_def Let_def latencies_of_Suc u(1)
          Min_insert [OF _ ne] Max_insert [OF _ ne] min_def max_def)
  qed
qed

text \<open>A round that does not overflow; the number of rounds bounds the counter.\<close>

definition report_next :: "u64 \<Rightarrow> double \<Rightarrow> u64 \<Rightarrow> u64 \<Rightarrow> report_locals \<Rightarrow> report_locals" where
  "report_next clock_rate first_start start fin l = report_round clock_rate start fin
     (if in_time clock_rate first_start fin then l_finished l + 1 else l_finished l) l"

lemma report_fold_inv:
  "clock_rate \<noteq> 0 \<Longrightarrow>
   report_inv clock_rate starts ends n
     (fold (\<lambda>i. report_next clock_rate first_start (starts ! i) (ends ! i)) [0..<n] report_init)"
proof (induction n)
  case 0
  then show ?case by (simp add: report_inv_def report_init_def latencies_of_def)
next
  case (Suc n)
  then show ?case by (simp add: report_next_def report_round_inv)
qed

text \<open>The report lines of a trace.\<close>

fun report_of :: "event \<Rightarrow> log_arg list list" where
  "report_of (Ev_log st h (Vfprintf fmt args)) = (if fmt = report_line then [args] else [])"
| "report_of _ = []"

definition report_lines :: "event list \<Rightarrow> log_arg list list" where
  "report_lines es = concat (map report_of es)"

lemma report_lines_simps [simp]:
  "report_lines [] = []" "report_lines (e # es) = report_of e @ report_lines es"
  "report_lines (es @ fs) = report_lines es @ report_lines fs"
  by (simp_all add: report_lines_def)

lemma report_of_entry:
  "level \<noteq> LOG_PERROR \<Longrightarrow> report_of (log_entry level fmt) = (if fmt = report_line then [[]] else [])"
  "level \<noteq> LOG_PERROR \<Longrightarrow> report_of (log_entry_args level fmt args) = (if fmt = report_line then [args] else [])"
  by (simp_all add: log_entry_def log_entry_args_def)

definition mallocs :: "'e sys \<Rightarrow> u64 \<Rightarrow> bool" where
  "mallocs sys n \<longleftrightarrow> (\<forall>e m. fst (sys_malloc (libc sys) n e m) \<noteq> 0)"

lemma wp_mallocsI:
  assumes "mallocs sys n"
    and "\<And>p w'. p \<noteq> 0 \<Longrightarrow> report_lines (trace w') = report_lines (trace w) \<Longrightarrow> Q p w'"
  shows "wp (call_malloc sys n) Q E w"
proof -
  have "fst (sys_malloc (libc sys) n (env w) (mem w)) \<noteq> 0" using assms(1) by (simp add: mallocs_def)
  then show ?thesis
    by (auto simp: call_malloc_def wp_ext_call split: prod.split intro: assms(2))
qed

lemma wp_report_freeI:
  "(\<And>w'. report_lines (trace w') = report_lines (trace w) \<Longrightarrow> Q () w') \<Longrightarrow> wp (call_free sys p) Q E w"
  by (simp add: call_free_def wp_ext_call split: prod.split)

lemma print_raw_latencies_wp:
  assumes "unat cnt \<le> length xs" "unat cnt \<le> length ys" "unat cnt \<le> length zs"
  shows "wp (print_raw_latencies xs ys zs cnt) (\<lambda>_ w'. report_lines (trace w') = report_lines (trace w)) E w"
proof -
  have loop: "wp (forP [0..<unat cnt] (raw_line xs ys zs) ()) (\<lambda>_ w'. report_lines (trace w') = report_lines (trace w)) E w1"
    if "report_lines (trace w1) = report_lines (trace w)" for w1
    by (rule wp_forP_inv)
      (use assms that in \<open>auto simp: raw_line_def wp_simps report_of_entry log_level_defs report_line_def\<close>)
  show ?thesis
    unfolding print_raw_latencies_def wp_simps
    by (rule wp_mono [OF loop]) (simp_all add: report_of_entry log_level_defs report_line_def micro_sec_def)
qed

lemma report_step_ret:
  assumes "i < unat len" and "unat len \<le> length starts" "unat len \<le> length ends" "unat len < 2 ^ 31"
    and "0 \<le> l_finished l" "l_finished l \<le> int i"
  shows "report_step clock_rate first_start starts ends (len * 8) True i l =
    ret (report_next clock_rate first_start (starts ! i) (ends ! i) l)"
proof -
  have "unat (len * 8) = 8 * unat len"
    using assms(4) by (simp add: unat_word_ariths mult.commute)
  then show ?thesis
    using assms by (simp add: report_step_def report_next_def add_int_ret)
qed

lemma finished_next:
  "l_finished (report_next clock_rate first_start start fin l) =
     (if in_time clock_rate first_start fin then l_finished l + 1 else l_finished l)"
  by (simp add: report_next_def report_round_def Let_def)

lemma forP_counted:
  assumes "\<And>i s. i < n \<Longrightarrow> I i s \<Longrightarrow> body i s = ret (f i s) \<and> I (Suc i) (f i s)" and "I m s" and "m \<le> n"
  shows "forP [m..<n] body s = ret (fold f [m..<n] s)"
  using assms(2,3)
proof (induction "n - m" arbitrary: m s)
  case (Suc k)
  then have "m < n" by simp
  then show ?case using Suc.hyps(1) [of "Suc m" "f m s"] Suc.hyps(2) assms(1) [OF \<open>m < n\<close> Suc.prems(1)]
    by (simp add: upt_conv_Cons)
qed simp

lemma report_loop:
  assumes "unat len \<le> length starts" "unat len \<le> length ends" "unat len < 2 ^ 31"
  shows "forP [0..<unat len] (report_step clock_rate first_start starts ends (len * 8) True) report_init =
    ret (fold (\<lambda>i. report_next clock_rate first_start (starts ! i) (ends ! i)) [0..<unat len] report_init)"
proof (rule forP_counted [where I = "\<lambda>i l. 0 \<le> l_finished l \<and> l_finished l \<le> int i"])
  fix i and l :: report_locals assume "i < unat len" "0 \<le> l_finished l \<and> l_finished l \<le> int i"
  then show "report_step clock_rate first_start starts ends (len * 8) True i l =
      ret (report_next clock_rate first_start (starts ! i) (ends ! i) l) \<and>
      0 \<le> l_finished (report_next clock_rate first_start (starts ! i) (ends ! i) l) \<and>
      l_finished (report_next clock_rate first_start (starts ! i) (ends ! i) l) \<le> int (Suc i)"
    using report_step_ret [OF _ assms, of i l clock_rate first_start] finished_next [of clock_rate first_start "starts ! i" "ends ! i" l]
    by simp
qed (simp_all add: report_init_def)

lemma array_get_ret: "i < length xs \<Longrightarrow> array_get xs (int i) = ret (xs ! i)"
  by (simp add: array_get_def)

lemma percentile_ret:
  assumes "0 < unat len" "unat len < 2 ^ 31" "length xs = unat len"
  shows "percentile xs len (9 / 10) = ret (xs ! (unat len * 9 div 10))"
    and "percentile xs len (99 / 100) = ret (xs ! (unat len * 99 div 100))"
  using assms percent_indices [OF assms(1,2)] by (simp_all add: percentile_def array_get_ret)

lemma index_order:
  "0 < (n :: nat) \<Longrightarrow> n div 2 \<le> n * 9 div 10 \<and> n * 9 div 10 \<le> n * 99 div 100 \<and> n * 99 div 100 < n"
  by auto

text \<open>The arguments of the report line.\<close>

definition report_args :: "u64 \<Rightarrow> u64 \<Rightarrow> rat list \<Rightarrow> double \<Rightarrow> double \<Rightarrow> log_arg list" where
  "report_args requests_length len ls average stdev =
     [Arg_u64 requests_length, Arg_u64 len, Arg_double (Fin (sort ls ! (unat len div 2))),
      Arg_double average, Arg_double (Fin (Min (set ls))), Arg_double (Fin (Max (set ls))),
      Arg_double stdev, Arg_double (Fin (sort ls ! (unat len * 9 div 10))),
      Arg_double (Fin (sort ls ! (unat len * 99 div 100)))]"

lemma report_summary_wp:
  assumes len: "0 < unat len" "unat len < 2 ^ 31" and inv: "report_inv clock_rate starts ends (unat len) l"
    and ls: "ls = latencies_of clock_rate starts ends (unat len)"
  shows "wp (report_summary sys l (sort_latencies (l_latencies l)) len rl)
    (\<lambda>_ w'. \<exists>average stdev. report_lines (trace w') = report_lines (trace w) @
       [report_args rl len ls average stdev]) (\<lambda>_ _. False) w"
proof -
  have sorted: "sort_latencies (l_latencies l) = map Fin (sort ls)"
    using inv by (simp add: sort_latencies_def report_inv_def ls finite_doubles.qsort_key)
  have lens: "length ls = unat len" by (simp add: ls)
  have bounds: "unat len div 2 < unat len" "unat len * 9 div 10 < unat len" "unat len * 99 div 100 < unat len"
    using len(1) index_order [OF len(1)] by auto
  have "unat (len div 2) = unat len div 2" by (simp add: unat_div)
  then have mid: "uint (len div 2) = int (unat len div 2)" by (simp only: uint_nat)
  have get: "array_get (map Fin (sort ls)) (uint (len div 2)) = ret (Fin (sort ls ! (unat len div 2)))"
    unfolding mid using bounds(1) lens by (simp add: array_get_ret)
  have pc: "percentile (map Fin (sort ls)) len (9 / 10) = ret (Fin (sort ls ! (unat len * 9 div 10)))"
    "percentile (map Fin (sort ls)) len (99 / 100) = ret (Fin (sort ls ! (unat len * 99 div 100)))"
    using percentile_ret [OF len, of "map Fin (sort ls)"] bounds lens by simp_all
  have extremes: "l_min l = Fin (Min (set ls))" "l_max l = Fin (Max (set ls))"
    using inv len(1) by (simp_all add: report_inv_def ls)
  show ?thesis
    unfolding report_summary_def sorted get pc bindP_ret extremes
    by (simp add: Let_def wp_simps report_of_entry log_level_defs report_args_def finished_line_def
        micro_sec_def) (auto simp: report_line_def)
qed

lemma latency_report_wp:
  assumes rate: "clock_rate \<noteq> 0" and len: "0 < unat len" "unat len < 2 ^ 31"
    and arrays: "unat len \<le> length starts" "unat len \<le> length ends" and alloc: "mallocs sys (len * 8)"
  shows "wp (print_latency_report_raw sys clock_rate starts ends len first verbose rc rl)
    (\<lambda>_ w'. \<exists>average stdev. report_lines (trace w') = report_lines (trace w) @
       [report_args rl len (latencies_of clock_rate starts ends (unat len)) average stdev]) (\<lambda>_ _. False) w"
proof -
  define l where "l = fold (\<lambda>i. report_next clock_rate (usec clock_rate first) (starts ! i) (ends ! i)) [0..<unat len] report_init"
  have inv: "report_inv clock_rate starts ends (unat len) l" unfolding l_def by (rule report_fold_inv [OF rate])
  note loop = report_loop [OF arrays len(2), of clock_rate "usec clock_rate first", folded l_def]
  have raw: "wp (print_raw_latencies (l_dstarts l) (l_dends l) (l_latencies l) len)
      (\<lambda>_ w'. report_lines (trace w') = report_lines (trace w1)) (\<lambda>_ _. False) w1" for w1
    using inv by (auto simp: report_inv_def intro!: print_raw_latencies_wp)
  have banner: "report_of (log_entry LOG_INFO ''=====================\<newline>'') = []"
    "report_of (log_entry LOG_INFO ''Latency Report\<newline>'') = []"
    by (simp_all add: report_of_entry log_level_defs report_line_def)
  show ?thesis
    unfolding print_latency_report_raw_def
    by (intro wp_bindP [THEN iffD2] wp_mallocsI [OF alloc] wp_thenP [THEN iffD2] wp_logI)
      (auto simp: loop banner wp_whenP wp_ret wp_thenP
        intro!: wp_mono [OF raw] wp_mono [OF report_summary_wp [OF len inv refl]] wp_report_freeI, blast+)
qed

section \<open>Ledger and termination\<close>

lemma trades_report_pure:
  "trades P (collect_step requests p sz n array) (\<lambda>_. P)"
  "trades P (raw_line xs ys zs n u) (\<lambda>_. P)"
  "trades P (report_step clock_rate first_start starts ends sz nonnull n l) (\<lambda>_. P)"
  "trades P (array_get ds i) (\<lambda>_. P)"
  "trades P (percentile ds len c) (\<lambda>_. P)"
  "trades P (stamps_step requests sz nonnull n st) (\<lambda>_. P)"
  unfolding collect_step_def raw_line_def report_step_def array_get_def percentile_def stamps_step_def
    add_int_def
  by (intro trades_if trades_case_option trades_case_prod trades_halt trades_ret trades_log
      trades_bindP [where H = "\<lambda>_. P"] refl)+

lemma trades_report_parts:
  "trades P (print_raw_latencies xs ys zs cnt) (\<lambda>_. P)"
  "trades P (report_summary sys l ds len rl) (\<lambda>_. P)"
  "trades P (print_throughput_report clock_rate params requests) (\<lambda>_. P)"
  unfolding print_raw_latencies_def report_summary_def print_throughput_report_def Let_def
  by (rule trades_thenP trades_bindP trades_if trades_halt trades_log trades_forP trades_report_pure refl)+

lemma three_blocks: "(P :: resource multiset) + a + b + c - a - b - c = P" "P + a + b - a - b = P"
  by (simp_all add: multiset_eq_iff)

lemma block_subset:
  "a \<subseteq># P + a" "a \<subseteq># P + a + b" "a \<subseteq># P + a + b + c" "b \<subseteq># P + a + b + c - a" "c \<subseteq># P + a + b + c - a - b"
  "b \<subseteq># P + a + b - a" for P :: "resource multiset"
  by (simp_all add: subseteq_mset_def)

lemma trades_print_latency_report_raw:
  "trades P (print_latency_report_raw sys clock_rate starts ends len first verbose rc rl) (\<lambda>_. P)"
  unfolding print_latency_report_raw_def
  by (rule trades_thenP trades_bindP trades_call_malloc trades_log trades_forP trades_whenP
      trades_report_pure trades_report_parts trades_call_free block_subset refl
      trades_conseq [OF trades_call_free] | simp only: three_blocks)+

lemma trades_print_latency_report:
  "trades P (print_latency_report sys clock_rate params requests) (\<lambda>_. P)"
  unfolding print_latency_report_def
  by (rule trades_thenP trades_bindP trades_call_malloc trades_log trades_forP trades_if trades_halt
      trades_case_prod trades_report_pure trades_print_latency_report_raw trades_call_free block_subset refl
      trades_conseq [OF trades_call_free] | simp only: three_blocks)+

lemma trades_print_sha1sum: "trades P (print_sha1sum sys requests cnt) (\<lambda>_. P)"
  unfolding print_sha1sum_def Let_def
  by (rule trades_thenP trades_bindP trades_call_malloc trades_log trades_forP trades_if trades_halt
      trades_report_pure sha1sum_array_trades bin_to_hex_string_trades trades_read_mem trades_write_mem
      trades_call_free block_subset refl trades_conseq [OF trades_call_free] | simp)+

lemma total_reports:
  "total (print_latency_report_raw sys clock_rate starts ends len first verbose rc rl)"
  "total (print_latency_report sys clock_rate params requests)"
  "total (print_throughput_report clock_rate params requests)"
  "total (print_sha1sum sys requests cnt)"
  unfolding print_latency_report_raw_def print_latency_report_def print_throughput_report_def
    print_sha1sum_def report_summary_def print_raw_latencies_def collect_step_def raw_line_def
    report_step_def array_get_def percentile_def stamps_step_def sha1sum_array_def
    call_malloc_def call_free_def Let_def
  by (intro total_intros total_calls total_log total_hex total_add_int)+

section \<open>Properties\<close>

text \<open>
  C11. The latency report of at least one and fewer than \<open>2^31\<close> measurements always returns, stays
  inside its arrays and gives back the three blocks it allocates.  It prints one line of
  statistics.  Minimum and maximum are those of the measured latencies, and the median and the
  two percentiles are the elements \<open>n/2\<close>, \<open>9n/10\<close> and \<open>99n/100\<close> of the sorted latencies: the
  floating-point computation of the two indices never misses the integer quotient.
\<close>

theorem latency_report_statistics:
  assumes "owns L w" and "clock_rate \<noteq> 0" and "0 < unat len" and "unat len < 2 ^ 31"
    and "unat len \<le> length starts" and "unat len \<le> length ends" and "mallocs sys (len * 8)"
    and "ls = latencies_of clock_rate starts ends (unat len)"
  shows "returns (print_latency_report_raw sys clock_rate starts ends len first verbose rc rl)
    (\<lambda>_ w'. owns L w' \<and> (\<exists>average stdev. report_lines (trace w') = report_lines (trace w) @
       [[Arg_u64 rl, Arg_u64 len, Arg_double (Fin (sort ls ! (unat len div 2))),
         Arg_double average, Arg_double (Fin (Min (set ls))), Arg_double (Fin (Max (set ls))),
         Arg_double stdev, Arg_double (Fin (sort ls ! (unat len * 9 div 10))),
         Arg_double (Fin (sort ls ! (unat len * 99 div 100)))]])) w"
proof (rule total_returns [OF total_reports(1)])
  have "wp (print_latency_report_raw sys clock_rate starts ends len first verbose rc rl)
      (\<lambda>_. owns L) (\<lambda>_ _. True) w"
    using trades_print_latency_report_raw [of "{#}" sys clock_rate starts ends len first verbose rc rl] assms(1)
    by (simp add: trades_def)
  from wp_conj [OF this latency_report_wp [OF assms(2-7), where rl = rl]]
  show "wp (print_latency_report_raw sys clock_rate starts ends len first verbose rc rl)
    (\<lambda>_ w'. owns L w' \<and> (\<exists>average stdev. report_lines (trace w') = report_lines (trace w) @
       [[Arg_u64 rl, Arg_u64 len, Arg_double (Fin (sort ls ! (unat len div 2))),
         Arg_double average, Arg_double (Fin (Min (set ls))), Arg_double (Fin (Max (set ls))),
         Arg_double stdev, Arg_double (Fin (sort ls ! (unat len * 9 div 10))),
         Arg_double (Fin (sort ls ! (unat len * 99 div 100)))]])) (\<lambda>_ _. False) w"
    by (rule wp_mono) (simp_all add: report_args_def assms(8))
qed

definition report_sys :: "test_env sys" where
  "report_sys = test_sys Little_endian\<lparr>libc := test_libc\<lparr>sys_malloc := \<lambda>_ e m. (4096, e, m)\<rparr>\<rparr>"

theorem latency_report_statistics_witness:
  "returns (print_latency_report_raw report_sys BILLION [10, 20, 30] [15, 29, 31] 3 10 True 3 6)
    (\<lambda>_ w'. owns {#} w' \<and> (\<exists>average stdev. report_lines (trace w') = report_lines (trace world0) @
       [[Arg_u64 6, Arg_u64 3,
         Arg_double (Fin (sort (latencies_of BILLION [10, 20, 30] [15, 29, 31] 3) ! 1)), Arg_double average,
         Arg_double (Fin (Min (set (latencies_of BILLION [10, 20, 30] [15, 29, 31] 3)))),
         Arg_double (Fin (Max (set (latencies_of BILLION [10, 20, 30] [15, 29, 31] 3)))), Arg_double stdev,
         Arg_double (Fin (sort (latencies_of BILLION [10, 20, 30] [15, 29, 31] 3) ! 2)),
         Arg_double (Fin (sort (latencies_of BILLION [10, 20, 30] [15, 29, 31] 3) ! 2))]])) world0"
proof -
  have "mallocs report_sys (3 * 8)" by (simp add: mallocs_def report_sys_def)
  then show ?thesis
    using latency_report_statistics [OF owns_world0(2), of BILLION 3 "[10, 20, 30]" "[15, 29, 31]" report_sys
        "latencies_of BILLION [10, 20, 30] [15, 29, 31] 3" 10 True 3 6]
    by (simp add: BILLION_def)
qed

text \<open>
  C19. Sorting the latencies with the comparison function of the source is sorting the numbers: for
  finite values the result is the sorted rearrangement, whatever the measurements.
\<close>

theorem sort_latencies_sorts: "sort_latencies (map Fin xs) = map Fin (sort xs)"
  by (simp add: sort_latencies_def finite_doubles.qsort_key)

text \<open>The lines of the throughput report.\<close>

definition throughput_lines :: "u64 \<Rightarrow> double \<Rightarrow> double \<Rightarrow> event list" where
  "throughput_lines bytes seconds gbits =
     [log_entry LOG_INFO ''=====================\<newline>'', log_entry LOG_INFO ''Throughput Report\<newline>'',
      log_entry_args LOG_INFO ''Transferred: %lu B, elapsed: %.3e s, throughput: %.3f Gbps.\<newline>''
        [Arg_u64 bytes, Arg_double seconds, Arg_double gbits],
      log_entry LOG_INFO ''=====================\<newline>\<newline>'']"

lemma near_double_of_word:
  fixes c :: u64
  assumes "c \<noteq> 0"
  obtains r where "double_of_nat (unat c) = Fin r" and "near 1 (of_nat (unat c)) r"
    and "1 \<le> (of_nat (unat c) :: rat)" and "of_nat (unat c) \<le> (2 ^ 64 :: rat)"
proof -
  have "1 \<le> unat c" using assms by (simp add: unat_gt_0 Suc_leI)
  then have lo: "1 \<le> (of_nat (unat c) :: rat)" by (metis of_nat_1 of_nat_le_iff)
  have "of_nat (unat c) < (of_nat (2 ^ 64) :: rat)" using unat_lt_64 [of c] by (simp only: of_nat_less_iff)
  then have hi: "of_nat (unat c) \<le> (2 ^ 64 :: rat)" by simp
  have "0 < (of_nat (unat c) :: rat)" using lo by linarith
  from near_refl [OF this] obtain r where "to_double (of_nat (unat c)) = Fin r" "near (Suc 0) (of_nat (unat c)) r"
  proof (rule near_to_double)
    show "1 / 2 ^ 200 \<le> (of_nat (unat c) :: rat)" by (rule order_trans [OF _ lo]) simp
    show "of_nat (unat c) \<le> (2 ^ 200 :: rat)" by (rule order_trans [OF hi]) simp
  qed simp_all
  then show ?thesis using that [of r] lo hi by (simp add: double_of_nat_def)
qed

text \<open>Elapsed time and throughput are the exact quotients up to three and seven roundings.\<close>

lemma throughput_values:
  fixes cycles bytes clock_rate :: u64
  assumes "clock_rate \<noteq> 0" and "cycles \<noteq> 0"
  obtains s g where "ddiv (double_of_nat (unat cycles)) (double_of_nat (unat clock_rate)) = Fin s"
    and "ddiv (dmul (ddiv (double_of_nat (unat bytes)) (Fin s)) (Fin 8)) (Fin 1000000000) = Fin g"
    and "\<bar>s - of_nat (unat cycles) / of_nat (unat clock_rate)\<bar> \<le>
      of_nat (unat cycles) / of_nat (unat clock_rate) * (1 / 2 ^ 51)"
    and "\<bar>g - of_nat (unat bytes) / (of_nat (unat cycles) / of_nat (unat clock_rate)) * 8 / 1000000000\<bar> \<le>
      of_nat (unat bytes) / (of_nat (unat cycles) / of_nat (unat clock_rate)) * 8 / 1000000000 * (1 / 2 ^ 50)"
proof -
  define C R B :: rat where "C = of_nat (unat cycles)" and "R = of_nat (unat clock_rate)"
    and "B = of_nat (unat bytes)"
  obtain a where a: "double_of_nat (unat cycles) = Fin a" "near 1 C a" "1 \<le> C" "C \<le> 2 ^ 64"
    using near_double_of_word [OF assms(2)] unfolding C_def by metis
  obtain b where b: "double_of_nat (unat clock_rate) = Fin b" "near 1 R b" "1 \<le> R" "R \<le> 2 ^ 64"
    using near_double_of_word [OF assms(1)] unfolding R_def by metis
  have "1 / 2 ^ 64 \<le> C / R" by (rule frac_le) (use a(3) b(3,4) in linarith)+
  moreover have "C / R \<le> 2 ^ 64 / 1" by (rule frac_le) (use a(3,4) b(3) in linarith)+
  ultimately have CR: "1 / 2 ^ 64 \<le> C / R" "C / R \<le> 2 ^ 64" by simp_all
  have "near (1 + 1) (C / R) (a / b)" by (rule near_divide [OF a(2) b(2)])
  then obtain s where s: "to_double (a / b) = Fin s" "near (Suc (1 + 1)) (C / R) s"
  proof (rule near_to_double)
    show "1 / 2 ^ 200 \<le> C / R" by (rule order_trans [OF _ CR(1)]) simp
    show "C / R \<le> 2 ^ 200" by (rule order_trans [OF CR(2)]) simp
  qed simp_all
  have b0: "b \<noteq> 0" and s0: "s \<noteq> 0" using b(2) s(2) by (simp_all add: near_def)
  have secs: "ddiv (Fin a) (Fin b) = Fin s" by (simp add: b0 s(1))
  have sb: "\<bar>s - C / R\<bar> \<le> C / R * (1 / 2 ^ 51)"
    by (rule near_bound [OF s(2)]) (simp_all add: power_divide)
  show ?thesis
  proof (cases "bytes = 0")
    case True
    show ?thesis by (rule that [of s 0]) (use a(1) b(1) secs s0 sb True in
        \<open>simp_all add: C_def R_def double_of_nat_def to_double_def\<close>)
  next
    case False
    obtain d where d: "double_of_nat (unat bytes) = Fin d" "near 1 B d" "1 \<le> B" "B \<le> 2 ^ 64"
      using near_double_of_word [OF False] unfolding B_def by metis
    have CR0: "0 < C / R" by (rule less_le_trans [OF _ CR(1)]) simp
    have "1 / 2 ^ 64 \<le> B / (C / R)" by (rule frac_le) (use d(3) CR(2) CR0 in linarith)+
    moreover have "B / (C / R) \<le> 2 ^ 64 / (1 / 2 ^ 64)"
      by (rule frac_le) (use d(3,4) CR(1) in \<open>simp_all del: power_numeral\<close>)
    ultimately have BCR: "1 / 2 ^ 64 \<le> B / (C / R)" "B / (C / R) \<le> 2 ^ 128" by simp_all
    have "near (1 + Suc (1 + 1)) (B / (C / R)) (d / s)" by (rule near_divide [OF d(2) s(2)])
    then obtain t where t: "to_double (d / s) = Fin t" "near (Suc (1 + Suc (1 + 1))) (B / (C / R)) t"
    proof (rule near_to_double)
      show "1 / 2 ^ 200 \<le> B / (C / R)" by (rule order_trans [OF _ BCR(1)]) simp
      show "B / (C / R) \<le> 2 ^ 200" by (rule order_trans [OF BCR(2)]) simp
    qed simp_all
    have "near (Suc (1 + Suc (1 + 1)) + 0) (B / (C / R) * 8) (t * 8)"
      by (rule near_mult [OF t(2) near_refl]) simp
    then obtain v where v: "to_double (t * 8) = Fin v"
      "near (Suc (Suc (1 + Suc (1 + 1)) + 0)) (B / (C / R) * 8) v"
    proof (rule near_to_double)
      show "1 / 2 ^ 200 \<le> B / (C / R) * 8"
        by (rule order_trans [OF _ mult_right_mono [OF BCR(1)]]) simp_all
      show "B / (C / R) * 8 \<le> 2 ^ 200"
        by (rule order_trans [OF mult_right_mono [OF BCR(2)]]) simp_all
    qed simp_all
    have "near (Suc (Suc (1 + Suc (1 + 1)) + 0) + 0) (B / (C / R) * 8 / 1000000000) (v / 1000000000)"
      by (rule near_divide [OF v(2) near_refl]) simp
    then obtain g where g: "to_double (v / 1000000000) = Fin g"
      "near (Suc (Suc (Suc (1 + Suc (1 + 1)) + 0) + 0)) (B / (C / R) * 8 / 1000000000) g"
    proof (rule near_to_double)
      show "1 / 2 ^ 200 \<le> B / (C / R) * 8 / 1000000000"
        by (rule order_trans [OF _ divide_right_mono [OF mult_right_mono [OF BCR(1)]]]) simp_all
      show "B / (C / R) * 8 / 1000000000 \<le> 2 ^ 200"
        by (rule order_trans [OF divide_right_mono [OF mult_right_mono [OF BCR(2)]]]) simp_all
    qed simp_all
    have gb: "\<bar>g - B / (C / R) * 8 / 1000000000\<bar> \<le> B / (C / R) * 8 / 1000000000 * (1 / 2 ^ 50)"
      by (rule near_bound [OF g(2)]) (simp_all add: power_divide)
    show ?thesis
    proof (rule that [of s g])
      show "ddiv (double_of_nat (unat cycles)) (double_of_nat (unat clock_rate)) = Fin s"
        by (simp only: a(1) b(1) secs)
      show "ddiv (dmul (ddiv (double_of_nat (unat bytes)) (Fin s)) (Fin 8)) (Fin 1000000000) = Fin g"
        using s0 by (simp add: d(1) t(1) v(1) g(1))
    qed (use sb gb in \<open>simp_all only: C_def R_def B_def\<close>)
  qed
qed

text \<open>
  C21. The throughput report of a full array of requests ends normally exactly when the warm-up is
  shorter than the run; otherwise it reads the start of a request past the end of the array.  When
  it ends normally it has printed four lines: the bytes sent after the warm-up and, if the first
  request after the warm-up starts at another cycle than the last one ends and the clock rate is not
  0, the time between the two, up to the factor \<open>2^-51\<close>, and eight times the bytes over that time
  over \<open>10^9\<close>, up to the factor \<open>2^-50\<close>.
\<close>

theorem throughput_report_cases:
  assumes "length requests = unat (p_count params)" and "p_count params \<noteq> 0"
    and "bytes = (p_count params - p_warmup_count params) * p_length params"
    and "cycles = rq_end (last requests) - rq_start (requests ! unat (p_warmup_count params))"
    and "secs = of_nat (unat cycles) / of_nat (unat clock_rate)"
    and "gbits = of_nat (unat bytes) / secs * 8 / 1000000000"
  shows "if p_warmup_count params < p_count params then
      returns (print_throughput_report clock_rate params requests) (\<lambda>_ w'. \<exists>s g.
        trace w' = trace w @ throughput_lines bytes s g \<and>
        (clock_rate \<noteq> 0 \<and> cycles \<noteq> 0 \<longrightarrow> (\<exists>x y. s = Fin x \<and> g = Fin y \<and>
           \<bar>x - secs\<bar> \<le> secs * (1 / 2 ^ 51) \<and> \<bar>y - gbits\<bar> \<le> gbits * (1 / 2 ^ 50)))) w
    else print_throughput_report clock_rate params requests w = Some (Stop (Fault Out_of_bounds), w)"
proof (cases "p_warmup_count params < p_count params")
  case True
  have ne: "requests \<noteq> []" using assms(1,2) by (auto simp: unat_eq_0)
  have w: "unat (p_warmup_count params) < length requests" using True by (simp add: assms(1) word_less_nat_alt)
  have c: "unat (p_count params - 1) = length requests - 1"
    using assms(2) by (simp add: assms(1) unat_minus_one)
  then have l: "requests ! unat (p_count params - 1) = last requests" "unat (p_count params - 1) < length requests"
    using ne by (simp_all add: last_conv_nth)
  let ?s = "ddiv (double_of_nat (unat cycles)) (double_of_nat (unat clock_rate))"
  let ?g = "ddiv (dmul (ddiv (double_of_nat (unat bytes)) ?s) (Fin 8)) (Fin 1000000000)"
  have vals: "\<exists>x y. ?s = Fin x \<and> ?g = Fin y \<and> \<bar>x - secs\<bar> \<le> secs * (1 / 2 ^ 51) \<and> \<bar>y - gbits\<bar> \<le> gbits * (1 / 2 ^ 50)"
    if "clock_rate \<noteq> 0" "cycles \<noteq> 0"
    by (rule throughput_values [OF that, of bytes]) (auto simp: assms(5,6))
  have "returns (print_throughput_report clock_rate params requests)
      (\<lambda>_ w'. trace w' = trace w @ throughput_lines bytes ?s ?g) w"
    using w l by (simp add: print_throughput_report_def Let_def not_le assms(3,4) throughput_lines_def wp_simps)
  then show ?thesis unfolding if_P [OF True] by (rule returns_mono) (use vals in blast)
next
  case False
  then have "length requests \<le> unat (p_warmup_count params)" by (simp add: assms(1) word_less_nat_alt)
  then show ?thesis using False by (simp add: print_throughput_report_def Let_def halt_def)
qed

definition warm_params :: dccs_parameters where
  "warm_params = \<lparr>p_verb = Write, p_count = 2, p_length = 6, p_repeat = 1, p_server = None, p_port = ''1234'',
     p_mode = MODE_THROUGHPUT, p_warmup_count = 2, p_mr_count = 1, p_direction = 0, p_index = 0,
     p_tos = 0, p_slot = 0, p_verbose = False\<rparr>"

theorem throughput_report_cases_witness:
  "returns (print_throughput_report BILLION (warm_params\<lparr>p_warmup_count := 0\<rparr>)
      [zero_request\<lparr>rq_start := 10\<rparr>, zero_request\<lparr>rq_end := 13\<rparr>]) (\<lambda>_ w'. \<exists>x y.
        trace w' = trace world0 @ throughput_lines 12 (Fin x) (Fin y) \<and>
        \<bar>x - 3 / 10 ^ 9\<bar> \<le> 3 / 10 ^ 9 * (1 / 2 ^ 51) \<and> \<bar>y - 32\<bar> \<le> 32 * (1 / 2 ^ 50)) world0 \<and>
   print_throughput_report BILLION warm_params [zero_request, zero_request] world0 =
     Some (Stop (Fault Out_of_bounds), world0)"
proof
  show "returns (print_throughput_report BILLION (warm_params\<lparr>p_warmup_count := 0\<rparr>)
      [zero_request\<lparr>rq_start := 10\<rparr>, zero_request\<lparr>rq_end := 13\<rparr>]) (\<lambda>_ w'. \<exists>x y.
        trace w' = trace world0 @ throughput_lines 12 (Fin x) (Fin y) \<and>
        \<bar>x - 3 / 10 ^ 9\<bar> \<le> 3 / 10 ^ 9 * (1 / 2 ^ 51) \<and> \<bar>y - 32\<bar> \<le> 32 * (1 / 2 ^ 50)) world0"
    using throughput_report_cases [of "[zero_request\<lparr>rq_start := 10\<rparr>, zero_request\<lparr>rq_end := 13\<rparr>]"
        "warm_params\<lparr>p_warmup_count := 0\<rparr>", OF _ _ refl refl refl refl, of BILLION world0]
    by (simp add: warm_params_def BILLION_def) (erule returns_mono, fastforce)
  show "print_throughput_report BILLION warm_params [zero_request, zero_request] world0 =
     Some (Stop (Fault Out_of_bounds), world0)"
    using throughput_report_cases [of "[zero_request, zero_request]" warm_params, OF _ _ refl refl refl refl,
        of BILLION world0]
    by (simp add: warm_params_def)
qed

end
