(* ===== verification/Outcomes.thy ===== *)
theory Outcomes
  imports Reports
begin

text \<open>
  What a program can return, whatever world it starts in.  \<open>gives_or E m R\<close> says that a value \<open>m\<close>
  returns satisfies \<open>R\<close> and a stop of \<open>m\<close> satisfies \<open>E\<close>; \<open>gives\<close> allows every stop, \<open>yields\<close>
  none, so \<open>yields\<close> is freedom from faults.  One rule per program construct, and a rule that uses such
  facts in the ownership logic.
\<close>

definition gives_or :: "(stop \<Rightarrow> bool) \<Rightarrow> ('w, 'a) prog \<Rightarrow> ('a \<Rightarrow> bool) \<Rightarrow> bool" where
  "gives_or E m R \<longleftrightarrow> (\<forall>w. wp m (\<lambda>a _. R a) (\<lambda>s _. E s) w)"

abbreviation gives :: "('w, 'a) prog \<Rightarrow> ('a \<Rightarrow> bool) \<Rightarrow> bool" where
  "gives \<equiv> gives_or (\<lambda>_. True)"

abbreviation yields :: "('w, 'a) prog \<Rightarrow> ('a \<Rightarrow> bool) \<Rightarrow> bool" where
  "yields \<equiv> gives_or (\<lambda>_. False)"

lemma gives_orI: "(\<And>w. wp m (\<lambda>a _. R a) (\<lambda>s _. E s) w) \<Longrightarrow> gives_or E m R"
  by (simp add: gives_or_def)

lemma gives_orD: "gives_or E m R \<Longrightarrow> wp m (\<lambda>a _. R a) (\<lambda>s _. E s) w"
  by (simp add: gives_or_def)

lemma gives_ret: "R a \<Longrightarrow> gives_or E (ret a) R"
  by (simp add: gives_or_def wp_ret)

lemma gives_halt: "E s \<Longrightarrow> gives_or E (halt s) R"
  by (simp add: gives_or_def wp_halt)

lemma gives_bindP: "gives_or E m S \<Longrightarrow> (\<And>a. S a \<Longrightarrow> gives_or E (f a) R) \<Longrightarrow> gives_or E (bindP m f) R"
  unfolding gives_or_def wp_bindP by (blast intro: wp_mono)

lemma gives_thenP: "gives_or E m (\<lambda>_. True) \<Longrightarrow> gives_or E n R \<Longrightarrow> gives_or E (thenP m n) R"
  unfolding thenP_def by (rule gives_bindP)

lemma gives_bind_any:
  "gives_or E m (\<lambda>_. True) \<Longrightarrow> (\<And>a. gives_or E (f a) R) \<Longrightarrow> gives_or E (bindP m f) R"
  by (rule gives_bindP)

lemma gives_if: "(b \<Longrightarrow> gives_or E m R) \<Longrightarrow> (\<not> b \<Longrightarrow> gives_or E n R) \<Longrightarrow> gives_or E (if b then m else n) R"
  by simp

lemma gives_whenP: "(b \<Longrightarrow> gives_or E m R) \<Longrightarrow> (\<not> b \<Longrightarrow> R ()) \<Longrightarrow> gives_or E (whenP b m) R"
  by (simp add: whenP_def gives_ret)

lemma gives_case_prod:
  "(\<And>a b. x = (a, b) \<Longrightarrow> gives_or E (n a b) R) \<Longrightarrow> gives_or E (case x of (a, b) \<Rightarrow> n a b) R"
  by (cases x) simp

lemma gives_forP:
  "(\<And>i s. i \<in> set is \<Longrightarrow> R s \<Longrightarrow> gives_or E (body i s) R) \<Longrightarrow> R s \<Longrightarrow> gives_or E (forP is body s) R"
  unfolding gives_or_def by (blast intro: wp_forP_inv)

lemma gives_mono: "gives_or E m R \<Longrightarrow> (\<And>a. R a \<Longrightarrow> S a) \<Longrightarrow> gives_or E m S"
  unfolding gives_or_def by (blast intro: wp_mono)

lemma gives_weaken: "gives_or E m R \<Longrightarrow> (\<And>s. E s \<Longrightarrow> F s) \<Longrightarrow> gives_or F m R"
  unfolding gives_or_def by (blast intro: wp_mono)

lemma gives_conj: "gives_or E m R \<Longrightarrow> gives_or F m S \<Longrightarrow> gives_or E m (\<lambda>a. R a \<and> S a)"
  unfolding gives_or_def by (blast intro: wp_mono [OF wp_conj])

lemma gives_then_same:
  "gives_or E m R \<Longrightarrow> (\<And>x. gives_or E (n x) (\<lambda>_. True)) \<Longrightarrow> gives_or E (bindP m (\<lambda>x. thenP (n x) (ret x))) R"
  by (erule gives_bindP) (auto intro: gives_thenP gives_ret)

lemma gives_calls:
  "gives_or E (ext_call f ev) (\<lambda>_. True)" "gives_or E (emit e) (\<lambda>_. True)"
  "gives_or E (write_mem a bs) (\<lambda>_. True)" "gives_or E (read_mem a n) (\<lambda>_. True)"
  by (simp_all add: gives_or_def wp_simps split: prod.split)

lemma gives_log:
  "gives_or E (log_verbose fmt) (\<lambda>_. True)" "gives_or E (log_info fmt) (\<lambda>_. True)"
  "gives_or E (log_debug fmt) (\<lambda>_. True)" "gives_or E (log_warning fmt) (\<lambda>_. True)"
  "gives_or E (log_error fmt) (\<lambda>_. True)" "gives_or E (log_perror fmt) (\<lambda>_. True)"
  "gives_or E (log_verbose_args fmt args) (\<lambda>_. True)" "gives_or E (log_info_args fmt args) (\<lambda>_. True)"
  by (simp_all add: gives_or_def wp_simps)

lemma gives_True: "gives m (\<lambda>_. True)"
  by (simp add: gives_or_def wp_def split: option.split res.split)

lemma gives_any: "(\<And>a. gives (f a) R) \<Longrightarrow> gives (bindP m f) R"
  by (rule gives_bindP [OF gives_True])

lemma gives_next: "gives n R \<Longrightarrow> gives (thenP m n) R"
  by (rule gives_thenP [OF gives_True])

lemma gives_stop: "gives (halt s) R"
  by (rule gives_halt) simp

lemma yields_returns: "total m \<Longrightarrow> yields m R \<Longrightarrow> returns m (\<lambda>a _. R a) w"
  by (rule total_returns) (simp_all add: gives_or_def)

lemma trades_bind_gives:
  assumes m: "trades P m H" and S: "gives m S" and f: "\<And>a. S a \<Longrightarrow> trades (H a) (f a) G"
  shows "trades P (bindP m f) G"
  unfolding trades_def wp_bindP
proof (intro allI impI)
  fix w :: "'a world" and L
  assume "owns (L + P) w"
  with m have "wp m (\<lambda>a. owns (L + H a)) (\<lambda>_ _. True) w" by (simp add: trades_def)
  moreover have "wp m (\<lambda>a _. S a) (\<lambda>_ _. True) w" using S by (simp add: gives_or_def)
  ultimately have "wp m (\<lambda>a w. owns (L + H a) w \<and> S a) (\<lambda>_ _. True) w"
    by (rule wp_mono [OF wp_conj]) simp_all
  then show "wp m (\<lambda>a. wp (f a) (\<lambda>b. owns (L + G b)) (\<lambda>_ _. True)) (\<lambda>_ _. True) w"
    by (rule wp_mono) (use f in \<open>auto simp: trades_def\<close>)
qed

text \<open>The allocator and the digests, when memory does not run out.\<close>

definition plenty :: "'e sys \<Rightarrow> bool" where
  "plenty sys \<longleftrightarrow> (\<forall>n. mallocs sys n)"

lemma yields_mallocs: "plenty sys \<Longrightarrow> yields (call_malloc sys n) (\<lambda>p. p \<noteq> 0)"
  by (rule gives_orI) (auto simp: plenty_def intro: wp_mallocsI)

lemma gives_free: "gives_or E (call_free sys p) (\<lambda>_. True)"
  by (simp add: call_free_def gives_calls)

lemmas yields_free = gives_free [where E = "\<lambda>_. False"]

lemma yields_malloc_random: "yields (malloc_random sys sz) (\<lambda>_. True)"
  by (rule gives_orI) (rule wp_mono [OF malloc_random_wp], simp_all)

lemma yields_hex_string:
  assumes "plenty sys"
  shows "yields (bin_to_hex_string sys buf len) (\<lambda>_. True)"
  unfolding bin_to_hex_string_def
  by (rule gives_bindP [OF yields_mallocs [OF assms]] gives_if gives_thenP gives_forP gives_bind_any gives_calls gives_ret
      TrueI | simp)+

definition sound_heap :: "'e sys \<Rightarrow> bool" where
  "sound_heap sys \<longleftrightarrow> plenty sys \<and>
     (\<forall>a n e m. fst (fst (sys_memalign (libc sys) a n e m)) = 0 \<longrightarrow> snd (fst (sys_memalign (libc sys) a n e m)) \<noteq> 0)"

lemma yields_malloc_random_nonzero:
  assumes "sound_heap sys"
  shows "yields (malloc_random sys n) (\<lambda>p. p \<noteq> 0)"
proof -
  have "yields (call_memalign sys a n) (\<lambda>(rv, p). rv = 0 \<longrightarrow> p \<noteq> 0)" for a
    unfolding call_memalign_def
  proof (rule gives_orI)
    fix w :: "'a world"
    have "fst (fst (sys_memalign (libc sys) a n (env w) (mem w))) = 0 \<longrightarrow>
        snd (fst (sys_memalign (libc sys) a n (env w) (mem w))) \<noteq> 0"
      using assms by (simp add: sound_heap_def)
    then show "wp (ext_call (sys_memalign (libc sys) a n) (\<lambda>(rv, p). Ev_memalign a n rv p))
        (\<lambda>a _. case a of (rv, p) \<Rightarrow> rv = 0 \<longrightarrow> p \<noteq> 0) (\<lambda>_ _. False) w"
      by (auto simp: wp_ext_call split: prod.splits)
  qed
  moreover have "yields (call_malloc sys n) (\<lambda>p. p \<noteq> 0)"
    using assms by (simp add: sound_heap_def yields_mallocs)
  ultimately show ?thesis
    unfolding malloc_random_def fill_buffer_def
    by (rule_tac gives_bindP [where S = "\<lambda>(rv, p). rv = 0 \<longrightarrow> p \<noteq> 0"], simp, rule_tac gives_case_prod,
        rule_tac gives_bindP [where S = "\<lambda>p. p \<noteq> 0"])
      (auto intro!: gives_ret gives_bind_any gives_thenP gives_calls gives_forP gives_log)
qed

section \<open>Events out of sight\<close>

text \<open>
  A program hides the events that satisfy \<open>P\<close>: however it ends, it adds none of them to the trace.
\<close>

definition hides :: "(event \<Rightarrow> bool) \<Rightarrow> ('e world, 'a) prog \<Rightarrow> bool" where
  "hides P m \<longleftrightarrow> (\<forall>w. wp m (\<lambda>_ w'. filter P (trace w') = filter P (trace w))
     (\<lambda>_ w'. filter P (trace w') = filter P (trace w)) w)"

lemma hidesD:
  "hides P m \<Longrightarrow> wp m (\<lambda>_ w'. filter P (trace w') = filter P (trace w))
     (\<lambda>_ w'. filter P (trace w') = filter P (trace w)) w"
  by (simp add: hides_def)

lemma hides_ret: "hides P (ret a)" and hides_halt: "hides P (halt st)"
  by (simp_all add: hides_def wp_simps)

lemma hides_bindP: "hides P m \<Longrightarrow> (\<And>a. hides P (f a)) \<Longrightarrow> hides P (bindP m f)"
  unfolding hides_def wp_bindP
proof
  fix w :: "'a world"
  let ?Q = "\<lambda>(w :: 'a world) x w'. filter P (trace w') = filter P (trace w)"
  assume m: "\<forall>w. wp m (?Q w) (\<lambda>_ w'. filter P (trace w') = filter P (trace w)) w"
    and f: "\<And>a. \<forall>w. wp (f a) (\<lambda>_ w'. filter P (trace w') = filter P (trace w)) (\<lambda>_ w'. filter P (trace w') = filter P (trace w)) w"
  show "wp m (\<lambda>a. wp (f a) (\<lambda>_ w'. filter P (trace w') = filter P (trace w)) (\<lambda>_ w'. filter P (trace w') = filter P (trace w)))
      (\<lambda>_ w'. filter P (trace w') = filter P (trace w)) w"
    by (rule wp_mono [OF m [rule_format]]) (auto intro: wp_mono [OF f [rule_format]])
qed

lemma hides_thenP: "hides P m \<Longrightarrow> hides P n \<Longrightarrow> hides P (thenP m n)"
  unfolding thenP_def by (rule hides_bindP)

lemma hides_if: "(b \<Longrightarrow> hides P m) \<Longrightarrow> (\<not> b \<Longrightarrow> hides P n) \<Longrightarrow> hides P (if b then m else n)"
  by simp

lemma hides_whenP: "hides P m \<Longrightarrow> hides P (whenP b m)"
  by (simp add: whenP_def hides_ret)

lemma hides_case:
  "(\<And>a b. hides P (f a b)) \<Longrightarrow> hides P (case x of (a, b) \<Rightarrow> f a b)"
  "hides P m \<Longrightarrow> (\<And>c. hides P (g c)) \<Longrightarrow> hides P (case y of None \<Rightarrow> m | Some c \<Rightarrow> g c)"
  by (simp_all split: prod.split option.split)

lemma hides_forP: "(\<And>i s. hides P (body i s)) \<Longrightarrow> hides P (forP is body s)"
  by (induction "is" arbitrary: s) (simp_all add: hides_ret hides_bindP)

lemma hides_loopP:
  assumes "\<And>s. hides P (body s)"
  shows "hides P (loopP body s)"
  unfolding hides_def
  by (rule allI, rule wp_loopP [where I = "\<lambda>_ w'. filter P (trace w') = filter P (trace w)" for w])
    (auto intro: wp_mono [OF hidesD [OF assms]] split: sum.split)

lemma hides_ext_call: "(\<And>r. \<not> P (ev r)) \<Longrightarrow> hides P (ext_call f ev)"
  by (simp add: hides_def wp_simps split: prod.split)

lemma hides_mem: "hides P (write_mem a bs)" "hides P (read_mem a n)"
  by (simp_all add: hides_def wp_simps)

lemma hides_emit: "\<not> P e \<Longrightarrow> hides P (emit e)"
  by (simp add: hides_def wp_simps)

lemma hides_log:
  "(\<And>a b c. \<not> P (Ev_log a b c)) \<Longrightarrow> hides P (log_verbose fmt)" "(\<And>a b c. \<not> P (Ev_log a b c)) \<Longrightarrow> hides P (log_info fmt)"
  "(\<And>a b c. \<not> P (Ev_log a b c)) \<Longrightarrow> hides P (log_debug fmt)" "(\<And>a b c. \<not> P (Ev_log a b c)) \<Longrightarrow> hides P (log_warning fmt)"
  "(\<And>a b c. \<not> P (Ev_log a b c)) \<Longrightarrow> hides P (log_error fmt)" "(\<And>a b c. \<not> P (Ev_log a b c)) \<Longrightarrow> hides P (log_perror fmt)"
  "(\<And>a b c. \<not> P (Ev_log a b c)) \<Longrightarrow> hides P (log_verbose_args fmt args)"
  "(\<And>a b c. \<not> P (Ev_log a b c)) \<Longrightarrow> hides P (log_info_args fmt args)"
  by (simp_all add: hides_def wp_simps log_entry_def log_entry_args_def)

lemmas hides_intros = hides_ret hides_halt hides_bindP hides_thenP hides_if hides_whenP hides_case hides_forP hides_loopP
  hides_ext_call hides_mem hides_emit hides_log

end
