(* ===== verification/Rdma_Main.thy ===== *)
theory Rdma_Main
  imports Rdma_Conn Requests Parse_Args Reports Outcomes
begin

text \<open>
  The RDMA benchmark program (\<open>rdma_main.c\<close>): \<open>run\<close> and \<open>main\<close>.  The stretches between two labels
  are definitions of their own; a \<open>goto\<close> is the branch that skips to the next of them.  The label
  \<open>out_end_request\<close> stands inside the loop, so a failed batch is reported like any other and the
  loop goes on.  The value of the uninitialised local \<open>id\<close> is an argument.

  The lemmas show what a run leaves on the ledger, that a run returns when the network interface
  answers and the allocator and the registration succeed, and which exit status it returns.
\<close>

section \<open>The functions of the source\<close>

definition role_of :: "dccs_parameters \<Rightarrow> Role" where
  "role_of params = (if p_server params = None then ROLE_SERVER else ROLE_CLIENT)"

definition role_banner :: "Role \<Rightarrow> ('e world, unit) prog" where
  "role_banner role = (if role = ROLE_CLIENT then log_info ''Running in client mode ...\<newline>''
     else log_info ''Running in server mode ...\<newline>'')"

text \<open>Connecting or listening: the result with the new values of \<open>listen_id\<close> and \<open>id\<close>.\<close>

definition open_connection ::
  "'e sys \<Rightarrow> cm_id \<Rightarrow> Role \<Rightarrow> dccs_parameters \<Rightarrow> ('e world, int \<times> cm_id \<times> cm_id) prog" where
  "open_connection sys cid0 role params =
     (if role = ROLE_CLIENT then
        bindP (dccs_connect sys cid0 (p_server params) (p_port params) (p_tos params)) (\<lambda>(rv, cid).
        ret (rv, 0, cid))
      else dccs_listen sys 0 cid0 (p_port params))"

definition close_connection :: "'e sys \<Rightarrow> Role \<Rightarrow> cm_id \<Rightarrow> cm_id \<Rightarrow> ('e world, unit) prog" where
  "close_connection sys role cid listen_id =
     (if role = ROLE_CLIENT then dccs_client_disconnect sys cid
      else dccs_server_disconnect sys cid listen_id)"

text \<open>The exchange of memory-region information before one-sided operations.\<close>

definition exchange_infos ::
  "'e sys \<Rightarrow> Role \<Rightarrow> cm_id \<Rightarrow> dccs_request list \<Rightarrow> dccs_parameters
    \<Rightarrow> ('e world, int \<times> dccs_request list) prog" where
  "exchange_infos sys role cid requests params =
     (if p_verb params = Read \<or> p_verb params = Write then
        if role = ROLE_CLIENT then
          thenP (log_debug ''Getting remote MR info ...\<newline>'')
         (bindP (get_remote_mr_info sys cid requests (p_count params)) (\<lambda>(rv, requests).
          thenP (whenP (rv < 0)
            (thenP (log_debug ''rv = %d.\<newline>'') (log_error ''Failed to get remote MR info.\<newline>'')))
         (ret (rv, requests))))
        else
          thenP (log_debug ''Sending local MR info ...\<newline>'')
         (bindP (send_local_mr_info sys cid requests (p_count params)) (\<lambda>rv.
          thenP (whenP (rv < 0) (log_error ''Failed to get remote MR info.\<newline>''))
         (ret (rv, requests))))
      else ret (0, requests))"

text \<open>One round: the batch of requests up to the label \<open>out_end_request\<close>, then the report.\<close>

definition round_batch ::
  "'e sys \<Rightarrow> Role \<Rightarrow> cm_id \<Rightarrow> dccs_parameters \<Rightarrow> int \<times> dccs_request list
    \<Rightarrow> ('e world, int \<times> dccs_request list) prog" where
  "round_batch sys role cid params = (\<lambda>(rv, requests).
     if role = ROLE_CLIENT then
       thenP (log_info ''Sending and waiting for RDMA requests ...\<newline>'')
      (bindP (send_and_wait_requests sys cid requests params) (\<lambda>(rv, requests).
       thenP (whenP (rv < 0) (log_error ''Failed to send and send comp all requests.\<newline>''))
      (ret (rv, requests))))
     else case p_verb params of
       Read \<Rightarrow> ret (rv, requests)
     | Write \<Rightarrow> ret (rv, requests)
     | Send \<Rightarrow>
         bindP (recv_requests sys cid requests params) (\<lambda>rv.
         thenP (whenP (rv < 0) (log_error ''Failed to receive all requests.\<newline>''))
        (ret (rv, requests)))
     | None_verb \<Rightarrow>
         thenP (log_warning ''Unrecognized verb on server side: %d.\<newline>'') (ret (rv, requests)))"

definition round_report ::
  "'e sys \<Rightarrow> u64 \<Rightarrow> Role \<Rightarrow> dccs_parameters \<Rightarrow> dccs_request list \<Rightarrow> ('e world, unit) prog" where
  "round_report sys clock_rate role params requests =
     whenP (role = ROLE_CLIENT) (case p_mode params of
         MODE_LATENCY \<Rightarrow> print_latency_report sys clock_rate params requests
       | MODE_THROUGHPUT \<Rightarrow> print_throughput_report clock_rate params requests)"

definition rdma_round ::
  "'e sys \<Rightarrow> u64 \<Rightarrow> Role \<Rightarrow> cm_id \<Rightarrow> dccs_parameters \<Rightarrow> nat \<Rightarrow> int \<times> dccs_request list
    \<Rightarrow> ('e world, int \<times> dccs_request list) prog" where
  "rdma_round sys clock_rate role cid params n st =
     thenP (log_info ''Round %zu.\<newline>'')
    (bindP (round_batch sys role cid params st) (\<lambda>(rv, requests).
     thenP (round_report sys clock_rate role params requests)
    (ret (rv, requests))))"

text \<open>The message that ends a run; \<open>buf\<close> is a local array.\<close>

definition end_message :: "'e sys \<Rightarrow> bool \<Rightarrow> cm_id \<Rightarrow> ('e world, int) prog" where
  "end_message sys sender cid =
     (if sender then
        thenP (log_debug ''Sending terminating message ...\<newline>'')
       (thenP (write_mem (local_addr sys ''buf'') SYNC_END_MESSAGE)
       (bindP (send_message sys cid (local_addr sys ''buf'') SYNC_END_MESSAGE_LENGTH) (\<lambda>rv.
        thenP (whenP (rv < 0) (log_error ''Failed to send terminating message.\<newline>''))
       (ret rv))))
      else
        thenP (log_debug ''Waiting for end message ...\<newline>'')
       (thenP (write_mem (local_addr sys ''buf'') (replicate (unat SYNC_END_MESSAGE_LENGTH) 0))
       (bindP (recv_message sys cid (local_addr sys ''buf'') SYNC_END_MESSAGE_LENGTH) (\<lambda>rv.
        thenP (whenP (rv < 0) (log_error ''Failed to recv terminating message.\<newline>''))
       (ret rv)))))"

text \<open>From the exchange to the label \<open>out_deallocate_buffer\<close>.\<close>

definition rdma_session ::
  "'e sys \<Rightarrow> u64 \<Rightarrow> Role \<Rightarrow> cm_id \<Rightarrow> dccs_parameters \<Rightarrow> dccs_request list
    \<Rightarrow> ('e world, int \<times> dccs_request list) prog" where
  "rdma_session sys clock_rate role cid params requests =
     bindP (exchange_infos sys role cid requests params) (\<lambda>(rv, requests).
     if rv < 0 then ret (rv, requests) else
     bindP (forP [0..<unat (p_repeat params)] (rdma_round sys clock_rate role cid params) (rv, requests))
       (\<lambda>(rv, requests).
     bindP (end_message sys (role = ROLE_CLIENT) cid) (\<lambda>rv.
     if rv < 0 then ret (rv, requests) else
     thenP (print_sha1sum sys requests (p_count params))
    (ret (rv, requests)))))"

text \<open>\<open>malloc\<close> and \<open>memset\<close> of the array of requests: its address and its elements.\<close>

definition new_requests ::
  "'e sys \<Rightarrow> dccs_parameters \<Rightarrow> ('e world, u64 \<times> dccs_request list) prog" where
  "new_requests sys params =
     (let requests_size = p_count params * sizeof_request in
      bindP (call_malloc sys requests_size) (\<lambda>p.
      if p = 0 \<and> requests_size \<noteq> 0 then halt (Fault Null_deref)
      else ret (p, replicate (unat requests_size div 64) zero_request)))"

text \<open>From the allocation of the buffers to the end.\<close>

definition rdma_connected ::
  "'e sys \<Rightarrow> u64 \<Rightarrow> Role \<Rightarrow> cm_id \<Rightarrow> cm_id \<Rightarrow> dccs_parameters \<Rightarrow> dccs_request list \<Rightarrow> ('e world, int) prog" where
  "rdma_connected sys clock_rate role listen_id cid params requests =
     bindP (allocate_buffer sys cid requests params) (\<lambda>(rv, requests).
     bindP (if rv \<noteq> 0 then
              thenP (log_error ''Failed to allocate buffers.\<newline>'') (ret rv)
            else
              bindP (rdma_session sys clock_rate role cid params requests) (\<lambda>(rv, requests).
              thenP (log_debug ''de-allocating buffer\<newline>'')
             (thenP (deallocate_buffer sys requests params)
             (ret rv)))) (\<lambda>rv.
     thenP (log_debug ''Disconnecting\<newline>'')
    (thenP (close_connection sys role cid listen_id)
    (ret rv))))"

definition rdma_run :: "'e sys \<Rightarrow> cm_id \<Rightarrow> u64 \<Rightarrow> dccs_parameters \<Rightarrow> ('e world, int) prog" where
  "rdma_run sys cid0 clock_rate params =
     (let role = role_of params in
      thenP (role_banner role)
     (bindP (open_connection sys cid0 role params) (\<lambda>(rv, listen_id, cid).
      if rv \<noteq> 0 then ret rv else
      thenP (log_debug ''Allocating buffer ...\<newline>'')
     (bindP (new_requests sys params) (\<lambda>(p, requests).
      rdma_connected sys clock_rate role listen_id cid params requests)))))"

definition rdma_main :: "'e sys \<Rightarrow> cm_id \<Rightarrow> string list \<Rightarrow> ('e world, int) prog" where
  "rdma_main sys cid0 argv =
     bindP (parse_args sys argv) (\<lambda>params.
     thenP (print_parameters params)
    (bindP (dccs_init sys) (\<lambda>clock_rate.
     rdma_run sys cid0 clock_rate params)))"

section \<open>The buffers stay where they are\<close>

definition same_buffers :: "dccs_request list \<Rightarrow> dccs_request list \<Rightarrow> bool" where
  "same_buffers xs ys \<longleftrightarrow> map (\<lambda>r. (rq_buf r, rq_mr r)) xs = map (\<lambda>r. (rq_buf r, rq_mr r)) ys"

lemma same_buffers_refl [simp]: "same_buffers xs xs"
  by (simp add: same_buffers_def)

lemma same_buffers_length: "same_buffers xs ys \<Longrightarrow> length xs = length ys"
  unfolding same_buffers_def by (drule arg_cong [where f = length]) simp

lemma same_buffers_update:
  assumes "same_buffers xs ys" and "n < length xs"
    and "rq_buf r = rq_buf (xs ! n)" and "rq_mr r = rq_mr (xs ! n)"
  shows "same_buffers (xs[n := r]) ys"
proof -
  let ?f = "\<lambda>r. (rq_buf r, rq_mr r)"
  have "?f r = map ?f xs ! n" using assms by simp
  then have "(map ?f xs)[n := ?f r] = map ?f xs" by (simp only: list_update_id)
  then show ?thesis using assms(1) by (simp only: same_buffers_def map_update)
qed

lemma same_buffers_resources:
  assumes "same_buffers xs ys" and "k \<le> length ys"
  shows "group_resources c xs k = group_resources c ys k"
proof (rule group_resources_cong)
  fix n assume "n < k"
  then have "map (\<lambda>r. (rq_buf r, rq_mr r)) xs ! n = map (\<lambda>r. (rq_buf r, rq_mr r)) ys ! n" "n < length xs" "n < length ys"
    using assms same_buffers_length [OF assms(1)] by (simp_all add: same_buffers_def)
  then show "rq_buf (xs ! n) = rq_buf (ys ! n) \<and> rq_mr (xs ! n) = rq_mr (ys ! n)" by simp
qed

lemmas gives_intros = gives_ret gives_stop gives_next gives_if gives_case_prod

lemma gives_load_info:
  "same_buffers reqs ys \<Longrightarrow> gives (load_info sys a sz n reqs) (\<lambda>reqs'. same_buffers reqs' ys)"
  unfolding load_info_def
  by (intro gives_intros gives_any same_buffers_update) simp_all

lemma gives_recv_infos:
  "same_buffers reqs ys \<Longrightarrow>
   gives (recv_infos sys cid reqs cnt a sz mrc mra) (\<lambda>(rv, reqs'). same_buffers reqs' ys)"
  unfolding recv_infos_def
  by (intro gives_intros gives_any gives_bindP [OF gives_forP [where R = "\<lambda>r. same_buffers r ys"]]
      gives_load_info) simp_all

lemma gives_get_remote_mr_info:
  "gives (get_remote_mr_info sys cid reqs cnt) (\<lambda>(rv, reqs'). same_buffers reqs' reqs)"
  unfolding get_remote_mr_info_def Let_def
  by (rule gives_any, rule gives_if [OF gives_stop], rule gives_then_same, rule gives_next, rule gives_next,
      rule gives_any, rule gives_if, rule gives_ret, simp, rule gives_then_same,
      rule gives_any, rule gives_if, rule gives_ret, simp, rule gives_then_same, rule gives_recv_infos)
    (simp_all add: gives_True)

lemma gives_send_wait_step:
  "same_buffers (snd (snd (snd st))) ys \<Longrightarrow>
   gives (send_wait_step sys cid cnt n st) (\<lambda>st'. same_buffers (snd (snd (snd st'))) ys)"
  unfolding send_wait_step_def Let_def
  by (intro gives_case_prod gives_if gives_stop gives_any gives_ret gives_bindP [where S = "\<lambda>(f, wc, r). same_buffers r ys"])
    (auto intro!: same_buffers_update simp: same_buffers_length)

lemma gives_send_and_wait:
  "gives (send_and_wait_requests sys cid reqs params) (\<lambda>(rv, reqs'). same_buffers reqs' reqs)"
  unfolding send_and_wait_requests_def Let_def
  by (rule gives_any, rule gives_bindP [OF gives_forP [where R = "\<lambda>st. same_buffers (snd (snd (snd st))) reqs"]])
    (auto intro!: gives_send_wait_step gives_any gives_next gives_ret)

section \<open>The ledger of a run\<close>

lemma gives_round:
  "same_buffers (snd st) ys \<Longrightarrow> gives (rdma_round sys clock_rate role cid params n st) (\<lambda>st'. same_buffers (snd st') ys)"
proof -
  assume ys: "same_buffers (snd st) ys"
  have "gives (round_batch sys role cid params st) (\<lambda>st'. same_buffers (snd st') ys)"
    unfolding round_batch_def
    using ys gives_send_and_wait [of sys cid "snd st" params]
    by (auto intro!: gives_case_prod gives_if gives_next gives_ret gives_any
        gives_bindP [OF gives_send_and_wait] simp: same_buffers_def split: Verb.split)
  then show ?thesis
    unfolding rdma_round_def by (intro gives_next) (erule gives_bindP, auto intro!: gives_next gives_ret)
qed

lemma gives_exchange:
  "gives (exchange_infos sys role cid reqs params) (\<lambda>(rv, reqs'). same_buffers reqs' reqs)"
  unfolding exchange_infos_def
  by (rule gives_if gives_next gives_bindP [OF gives_get_remote_mr_info] gives_any gives_ret gives_case_prod
      | clarsimp)+

lemma gives_session:
  "gives (rdma_session sys clock_rate role cid params reqs) (\<lambda>(rv, reqs'). same_buffers reqs' reqs)"
  unfolding rdma_session_def
  by (rule gives_bindP [OF gives_exchange] gives_if gives_ret gives_next
      gives_bindP [OF gives_forP [where R = "\<lambda>st. same_buffers (snd st) reqs"]] gives_round gives_any
      gives_case_prod | clarsimp)+

lemma trades_end_message: "trades P (end_message sys sender cid) (\<lambda>_. P)"
  unfolding end_message_def
  by (rule trades_if trades_thenP trades_bindP trades_log trades_write_mem trades_message trades_whenP
      trades_ret refl)+

lemma trades_exchange: "trades P (exchange_infos sys role cid reqs params) (\<lambda>_. P)"
  unfolding exchange_infos_def
  by (rule trades_if trades_thenP trades_bindP trades_log trades_get_remote_mr_info
      trades_send_local_mr_info trades_case_prod trades_whenP trades_ret refl)+

lemma trades_round: "trades P (rdma_round sys clock_rate role cid params n st) (\<lambda>_. P)"
proof -
  have "trades P (round_batch sys role cid params st) (\<lambda>_. P)"
    unfolding round_batch_def
    by (rule trades_case_prod trades_if trades_thenP trades_bindP trades_log trades_batches trades_Verb
        trades_whenP trades_ret refl)+
  moreover have "trades P (round_report sys clock_rate role params reqs) (\<lambda>_. P)" for reqs
    unfolding round_report_def
    by (cases "p_mode params")
      (auto intro!: trades_whenP trades_print_latency_report trades_report_parts)
  ultimately show ?thesis
    unfolding rdma_round_def
    by - (rule trades_thenP [OF trades_log(3)], rule trades_bindP, assumption,
        rule trades_case_prod, rule trades_thenP, assumption, simp add: trades_ret)
qed

lemma trades_session: "trades P (rdma_session sys clock_rate role cid params reqs) (\<lambda>_. P)"
  unfolding rdma_session_def
  by (rule trades_bindP trades_case_prod trades_if trades_ret trades_exchange trades_forP trades_round
      trades_end_message trades_thenP trades_print_sha1sum refl)+

lemma trades_allocate_buffer:
  assumes "p_count params div p_mr_count params \<noteq> 0" and "length reqs = unat (p_count params)"
  shows "trades P (allocate_buffer sys cid reqs params) (\<lambda>(rv, reqs').
      P + group_resources (unat (p_count params div p_mr_count params)) reqs' (unat (p_count params)))"
  unfolding trades_def
proof (intro allI impI)
  fix w :: "'a world" and L
  assume "owns (L + P) w"
  from allocate_buffer_inv [OF this assms, of sys cid]
  show "wp (allocate_buffer sys cid reqs params) (\<lambda>a. owns (L + (case a of (rv, reqs') \<Rightarrow>
      P + group_resources (unat (p_count params div p_mr_count params)) reqs' (unat (p_count params)))))
    (\<lambda>_ _. True) w"
    by (rule wp_mono) (auto simp: alloc_inv_def add.assoc)
qed

lemma gives_allocate_buffer:
  "length reqs = N \<Longrightarrow> gives (allocate_buffer sys cid reqs params) (\<lambda>(rv, reqs'). rv = 0 \<and> length reqs' = N)"
  unfolding allocate_buffer_def alloc_step_def Let_def
  by (rule gives_if gives_stop gives_ret gives_case_prod
      gives_bindP [OF gives_forP [where R = "\<lambda>(mr, b, r). length r = N"]] gives_any | clarsimp)+

lemma trades_deallocate:
  assumes "same_buffers reqs' reqs" and "length reqs = unat (p_count params)"
  shows "trades (P + group_resources (unat (p_count params div p_mr_count params)) reqs (unat (p_count params)))
    (deallocate_buffer sys reqs' params) (\<lambda>_. P)"
  using trades_frame [OF deallocate_buffer_trades [of params reqs' sys], of P]
    same_buffers_resources [OF assms(1), of "unat (p_count params)"] assms(2)
  by (simp add: add.commute)

lemma requests_length:
  "64 * unat (p_count params) < 2 ^ 64 \<Longrightarrow> unat (p_count params * sizeof_request) div 64 = unat (p_count params)"
  by (simp add: sizeof_request_def unat_word_ariths mult.commute)

definition conn_resources :: "Role \<Rightarrow> cm_id \<Rightarrow> cm_id \<Rightarrow> resource multiset" where
  "conn_resources role listen_id cid = (if role = ROLE_CLIENT then {#R_ep cid#} else {#R_ep listen_id, R_ep cid#})"

lemma trades_close: "trades (P + conn_resources role listen_id cid) (close_connection sys role cid listen_id) (\<lambda>_. P)"
  unfolding close_connection_def conn_resources_def
  using trades_frame [OF dccs_client_disconnect_trades [of cid sys], of P]
    trades_frame [OF dccs_server_disconnect_trades [of listen_id cid sys], of P]
  by (simp add: add.commute)

text \<open>
  What an established connection owns at the end of a run: nothing of it, but the array of requests
  at \<open>p\<close>.
\<close>

lemma trades_connected:
  assumes "p_count params div p_mr_count params \<noteq> 0" and "length reqs = unat (p_count params)"
  shows "trades (P + conn_resources role listen_id cid)
     (rdma_connected sys clock_rate role listen_id cid params reqs) (\<lambda>_. P)"
proof -
  let ?G = "\<lambda>rs. group_resources (unat (p_count params div p_mr_count params)) rs (unat (p_count params))"
  let ?C = "P + conn_resources role listen_id cid"
  have session: "trades (?C + ?G rs) (bindP (rdma_session sys clock_rate role cid params rs) (\<lambda>(rv, requests).
        thenP (log_debug ''de-allocating buffer\<newline>'') (thenP (deallocate_buffer sys requests params) (ret rv))))
      (\<lambda>_. ?C)" if "length rs = unat (p_count params)" for rs
    by (rule trades_bind_gives [OF trades_session gives_session], rule trades_case_prod,
        rule trades_thenP [OF trades_log(4)], rule trades_thenP [OF trades_deallocate [OF _ that]])
      (auto intro: trades_ret)
  show ?thesis
    unfolding rdma_connected_def
    by (rule trades_bind_gives [OF trades_allocate_buffer [OF assms] gives_allocate_buffer [OF assms(2)]],
        clarsimp, rule trades_bindP [OF session], assumption)
      (rule trades_thenP [OF trades_log(4)] trades_thenP [OF trades_close] trades_ret refl)+
qed

section \<open>Runs without faults\<close>

text \<open>An allocator that never runs out and a card that registers every block.\<close>

definition ample :: "'e sys \<Rightarrow> bool" where
  "ample sys \<longleftrightarrow> plenty sys \<and> (\<forall>k i a n e m. fst (rdma_reg (rdma sys) k i a n e m) \<noteq> None)"

lemma ample_room: "ample sys \<Longrightarrow> has_room sys n e"
  by (simp add: ample_def plenty_def mallocs_def has_room_def)

lemma yields_malloc: "ample sys \<Longrightarrow> yields (call_malloc sys n) (\<lambda>p. p \<noteq> 0)"
  by (simp add: ample_def yields_mallocs)

lemma yields_open: "yields (open_connection sys cid0 role params) (\<lambda>_. True)"
proof (rule gives_orI)
  fix w
  show "wp (open_connection sys cid0 role params) (\<lambda>_ _. True) (\<lambda>_ _. False) w"
    unfolding open_connection_def dccs_connect_def conn_calls
    by (intro wp_intros dccs_listen_safe TrueI)
qed

lemma yields_close: "yields (close_connection sys role cid listen_id) (\<lambda>_. True)"
  unfolding close_connection_def by (rule gives_orI) (simp add: disconnect_safe)

lemma yields_new_requests:
  assumes "ample sys" and "64 * unat (p_count params) < 2 ^ 64"
  shows "yields (new_requests sys params) (\<lambda>(p, requests). length requests = unat (p_count params))"
  unfolding new_requests_def Let_def
  by (rule gives_bindP [OF yields_malloc [OF assms(1)]])
    (auto intro!: gives_ret simp: requests_length [OF assms(2)])

lemma yields_register:
  assumes "ample sys"
  shows "yields (register_for sys verb cid b bl mr) (\<lambda>mr. verb \<noteq> None_verb \<longrightarrow> mr \<noteq> None)"
proof -
  have reg: "yields (reg_call sys k cid b bl) (\<lambda>mr. mr \<noteq> None)" for k
  proof (rule gives_orI)
    fix w :: "'a world"
    have "fst (rdma_reg (rdma sys) k cid b bl (env w) (mem w)) \<noteq> None" using assms by (simp add: ample_def)
    then show "wp (reg_call sys k cid b bl) (\<lambda>mr _. mr \<noteq> None) (\<lambda>_ _. False) w"
      by (auto simp: reg_call_def wp_ext_call split: prod.splits)
  qed
  have "yields (bindP (reg_call sys k cid b bl) (\<lambda>mr. thenP (whenP (mr = None) (log_perror t)) (ret mr))) (\<lambda>mr. mr \<noteq> None)"
    for k t by (rule gives_then_same [OF reg]) (auto intro!: gives_whenP gives_log)
  then show ?thesis
    by (cases verb)
      (auto simp: register_for_def dccs_reg_msgs_def dccs_reg_read_def dccs_reg_write_def
        intro!: gives_thenP gives_log gives_ret)
qed

definition all_registered :: "Verb \<Rightarrow> nat \<Rightarrow> dccs_request list \<Rightarrow> bool" where
  "all_registered verb i reqs \<longleftrightarrow> (verb \<noteq> None_verb \<longrightarrow> (\<forall>n < i. rq_mr (reqs ! n) \<noteq> None))"

lemma alloc_step_registered:
  assumes "ample sys" and c: "c \<noteq> 0" and i: "i < length reqs"
    and "verb \<noteq> None_verb \<longrightarrow> i \<noteq> 0 \<longrightarrow> mr \<noteq> None" and "all_registered verb i reqs"
  shows "yields (alloc_step sys verb cid len c i (mr, b, reqs)) (\<lambda>(mr', b', reqs').
      length reqs' = length reqs \<and> (verb \<noteq> None_verb \<longrightarrow> mr' \<noteq> None) \<and> all_registered verb (Suc i) reqs')"
proof -
  have "yields (if of_nat i mod c = 0 then alloc_group sys verb cid (c * len) mr else ret (mr, b))
      (\<lambda>(mr', b'). verb \<noteq> None_verb \<longrightarrow> mr' \<noteq> None)"
    using assms(4)
    by (cases "i = 0") (auto simp: alloc_group_def intro!: gives_if gives_ret
        gives_bindP [OF yields_malloc_random] gives_bindP [OF yields_register [OF assms(1)]])
  then show ?thesis
    unfolding alloc_step_def Let_def prod.case if_not_P [OF c]
    by (rule gives_bindP)
      (use i assms(5) in \<open>auto intro!: gives_ret simp: all_registered_def nth_list_update less_Suc_eq\<close>)
qed

lemma yields_allocate:
  assumes "ample sys" and c: "p_count params div p_mr_count params \<noteq> 0"
    and len: "length reqs = unat (p_count params)"
  shows "yields (allocate_buffer sys cid reqs params) (\<lambda>(rv, reqs'). rv = 0 \<and>
      length reqs' = unat (p_count params) \<and> all_registered (p_verb params) (unat (p_count params)) reqs')"
proof -
  let ?N = "unat (p_count params)"
  have "yields (forP [0..<?N] (alloc_step sys (p_verb params) cid (p_length params)
      (p_count params div p_mr_count params)) (None, 0, reqs))
      (\<lambda>(mr, b, reqs'). length reqs' = ?N \<and> all_registered (p_verb params) ?N reqs')"
  proof (rule gives_orI)
    fix w
    show "wp (forP [0..<?N] (alloc_step sys (p_verb params) cid (p_length params)
        (p_count params div p_mr_count params)) (None, 0, reqs))
      (\<lambda>a _. case a of (mr, b, reqs') \<Rightarrow> length reqs' = ?N \<and> all_registered (p_verb params) ?N reqs') (\<lambda>_ _. False) w"
      by (rule wp_mono [OF wp_forP [where I = "\<lambda>i (mr, b, reqs') _. length reqs' = ?N \<and>
          (p_verb params \<noteq> None_verb \<longrightarrow> i \<noteq> 0 \<longrightarrow> mr \<noteq> None) \<and> all_registered (p_verb params) i reqs'"]])
        (use assms in \<open>auto simp: all_registered_def
          intro!: wp_mono [OF gives_orD [OF alloc_step_registered [unfolded all_registered_def]]]\<close>)
  qed
  then show ?thesis
    unfolding allocate_buffer_def if_not_P [OF div_nonzero [OF c]]
    by (rule gives_bindP) (auto intro: gives_ret)
qed

text \<open>
  Parameters the run can cope with: the counters of failures and of finished requests are \<open>int\<close>s, and
  the throughput report needs a request after the warm-up.
\<close>

definition reportable :: "dccs_parameters \<Rightarrow> bool" where
  "reportable params \<longleftrightarrow> unat (p_count params) < 2 ^ 30 \<and>
     (p_mode params = MODE_THROUGHPUT \<longrightarrow> p_warmup_count params < p_count params)"

lemma reportable_size: "reportable params \<Longrightarrow> 64 * unat (p_count params) < 2 ^ 64"
  by (simp add: reportable_def)

lemma yields_exchange:
  assumes "ample sys" and "poll_contract sys" and "64 * unat (p_count params) < 2 ^ 64"
    and len: "length reqs = unat (p_count params)"
    and reg: "all_registered (p_verb params) (unat (p_count params)) reqs"
  shows "yields (exchange_infos sys role cid reqs params) (\<lambda>(rv, reqs'). length reqs' = unat (p_count params))"
proof -
  have small: "16 * unat (p_count params) < 2 ^ 64" using assms(3) by simp
  have get: "yields (get_remote_mr_info sys cid reqs (p_count params)) (\<lambda>(rv, reqs'). length reqs' = unat (p_count params))"
  proof (rule gives_orI)
    fix w
    show "wp (get_remote_mr_info sys cid reqs (p_count params))
        (\<lambda>a _. case a of (rv, reqs') \<Rightarrow> length reqs' = unat (p_count params)) (\<lambda>_ _. False) w"
      by (rule wp_mono [OF get_remote_mr_info_safe [OF assms(2) ample_room [OF assms(1)] small, of reqs]])
        (auto simp: len)
  qed
  have send: "yields (send_local_mr_info sys cid reqs (p_count params)) (\<lambda>_. True)"
    if "p_verb params = Read \<or> p_verb params = Write"
  proof (rule gives_orI)
    fix w
    have "sendable reqs (p_count params)" using that reg small len by (auto simp: sendable_def all_registered_def)
    then show "wp (send_local_mr_info sys cid reqs (p_count params)) (\<lambda>_ _. True) (\<lambda>_ _. False) w"
      by (rule send_local_mr_info_safe [OF assms(2) ample_room [OF assms(1)]])
  qed
  show ?thesis
    unfolding exchange_infos_def
    by (rule gives_if gives_thenP gives_log gives_bindP [OF get] gives_bind_any [OF send] gives_case_prod
        gives_whenP gives_ret TrueI | simp add: len)+
qed

lemma yields_latency_report:
  assumes "ample sys" and rate: "clock_rate \<noteq> 0" and cnt: "0 < p_count params" "unat (p_count params) < 2 ^ 31"
    and len: "length reqs = unat (p_count params)"
  shows "yields (print_latency_report sys clock_rate params reqs) (\<lambda>_. True)"
proof -
  let ?N = "unat (p_count params)"
  have N: "0 < ?N" using cnt(1) by (simp add: word_less_nat_alt)
  have alloc: "mallocs sys (p_count params * 8)" using assms(1) by (simp add: ample_def plenty_def)
  have sz: "unat (p_count params * 8) = 8 * ?N" using cnt(2) by (simp add: unat_word_ariths mult.commute)
  have loop: "forP [0..<?N] (stamps_step reqs (p_count params * 8) True) ([], []) =
      ret (fold (\<lambda>n (xs, ys). (xs @ [rq_start (reqs ! n)], ys @ [rq_end (reqs ! n)])) [0..<?N] ([], []))"
    by (rule forP_pure) (auto simp: stamps_step_def sz len split: prod.split)
  have stamps: "fold (\<lambda>n (xs, ys). (xs @ [rq_start (reqs ! n)], ys @ [rq_end (reqs ! n)])) [0..<k] ([], []) =
      (map (\<lambda>n. rq_start (reqs ! n)) [0..<k], map (\<lambda>n. rq_end (reqs ! n)) [0..<k])" for k
    by (induction k) simp_all
  have raw: "yields (print_latency_report_raw sys clock_rate (map (\<lambda>n. rq_start (reqs ! n)) [0..<?N])
      (map (\<lambda>n. rq_end (reqs ! n)) [0..<?N]) (p_count params) f v c l) (\<lambda>_. True)" for f v c l
    by (rule gives_orI, rule wp_mono [OF latency_report_wp [OF rate N cnt(2) _ _ alloc]]) simp_all
  show ?thesis
    unfolding print_latency_report_def
  proof (rule gives_bindP [OF yields_malloc [OF assms(1)]], rule gives_bindP [OF yields_malloc [OF assms(1)]])
    fix p q :: u64 assume "p \<noteq> 0" "q \<noteq> 0"
    then have nn: "(p \<noteq> 0 \<and> q \<noteq> 0) = True" by simp
    have ne: "reqs \<noteq> []" using len N by auto
    show "yields (bindP (forP [0..<?N] (stamps_step reqs (p_count params * 8) (p \<noteq> 0 \<and> q \<noteq> 0)) ([], [])) (\<lambda>(starts, ends).
        if reqs = [] then halt (Fault Out_of_bounds)
        else thenP (print_latency_report_raw sys clock_rate starts ends (p_count params) (rq_start (reqs ! 0))
               (p_verbose params) (p_count params) (p_length params)) (thenP (call_free sys p) (call_free sys q))))
       (\<lambda>_. True)"
      unfolding nn loop stamps bindP_ret prod.case if_not_P [OF ne]
      by (intro gives_thenP raw yields_free)
  qed
qed

lemma yields_hex: "ample sys \<Longrightarrow> yields (bin_to_hex_string sys buf len) (\<lambda>_. True)"
  by (simp add: ample_def yields_hex_string)

lemma yields_sha1sum:
  assumes "ample sys" and cnt: "0 < p_count params" "64 * unat (p_count params) < 2 ^ 64"
    and len: "length reqs = unat (p_count params)"
  shows "yields (print_sha1sum sys reqs (p_count params)) (\<lambda>_. True)"
proof -
  have N: "0 < unat (p_count params)" using cnt(1) by (simp add: word_less_nat_alt)
  have sz: "unat (p_count params * 8) = 8 * unat (p_count params)" using cnt(2) by (simp add: unat_word_ariths mult.commute)
  have collect: "yields (forP [0..<unat (p_count params)] (collect_step reqs p (p_count params * 8)) []) (\<lambda>_. True)" if "p \<noteq> 0" for p
    by (rule gives_forP) (use that len in \<open>auto simp: collect_step_def sz intro!: gives_ret\<close>)
  have sha: "yields (sha1sum_array sys array l) (\<lambda>_. True)" for array l
    unfolding sha1sum_array_def by (intro gives_bind_any gives_forP gives_calls gives_ret TrueI)
  have ne: "reqs \<noteq> []" "p_count params \<noteq> 0" using len N by auto
  show ?thesis
    unfolding print_sha1sum_def Let_def if_not_P [OF ne(2)] if_not_P [OF ne(1)]
    by (rule gives_bindP [OF yields_malloc [OF assms(1)]], rule gives_bind_any [OF collect], assumption)
      (rule gives_bind_any [OF sha] gives_bind_any [OF yields_hex [OF assms(1)]] gives_thenP gives_bind_any
        gives_calls gives_log yields_free)+
qed

lemma yields_throughput_report:
  assumes "0 < p_count params" and "p_warmup_count params < p_count params"
    and "length reqs = unat (p_count params)"
  shows "yields (print_throughput_report clock_rate params reqs) (\<lambda>_. True)"
proof -
  have "unat (p_warmup_count params) < length reqs" using assms(2,3) by (simp add: word_less_nat_alt)
  moreover have "unat (p_count params - 1) < length reqs"
    using word_gt_0 [THEN iffD1, OF assms(1)] by (simp add: assms(3) unat_minus_one unat_gt_0)
  ultimately show ?thesis
    unfolding print_throughput_report_def Let_def
    by (intro gives_if gives_thenP gives_log) auto
qed

lemma yields_round:
  assumes "ample sys" and C: "poll_contract sys" and rate: "clock_rate \<noteq> 0" and cnt: "0 < p_count params"
    and rep: "reportable params" and len: "length (snd st) = unat (p_count params)"
  shows "yields (rdma_round sys clock_rate role cid params n st) (\<lambda>st'. length (snd st') = unat (p_count params))"
proof -
  let ?N = "unat (p_count params)"
  have saw: "yields (send_and_wait_requests sys cid reqs params) (\<lambda>st'. length (snd st') = ?N)" if "length reqs = ?N" for reqs
    by (rule gives_orI, rule wp_mono [OF send_and_wait_requests_wp [OF C]])
      (use that rep in \<open>auto simp: reportable_def dest: same_requests_length\<close>)
  have recv: "yields (recv_requests sys cid reqs params) (\<lambda>_. True)" if "length reqs = ?N" for reqs
    by (rule gives_orI, rule wp_mono [OF recv_requests_wp [OF C]])
      (use that rep in \<open>auto simp: reportable_def\<close>)
  obtain rv reqs where st: "st = (rv, reqs)" by (cases st)
  have batch: "yields (round_batch sys role cid params st) (\<lambda>st'. length (snd st') = ?N)"
    unfolding round_batch_def st prod.case using len
    by (cases "p_verb params") (auto simp: st intro!: gives_if gives_thenP gives_log gives_ret gives_whenP
      gives_bindP [OF saw] gives_bindP [OF recv])
  have report: "yields (round_report sys clock_rate role params reqs) (\<lambda>_. True)" if "length reqs = ?N" for reqs
    unfolding round_report_def using rep that cnt
    by (cases "p_mode params")
      (auto simp: reportable_def intro!: gives_whenP yields_latency_report [OF assms(1) rate] yields_throughput_report)
  show ?thesis
    unfolding rdma_round_def
    by (rule gives_thenP [OF gives_log(2)], rule gives_bindP [OF batch])
      (auto intro!: gives_thenP gives_ret report)
qed

lemma yields_end_message:
  assumes "poll_contract sys"
  shows "yields (end_message sys sender cid) (\<lambda>_. True)"
proof -
  have "yields (send_message sys cid a n) (\<lambda>_. True)" for a n
    unfolding send_message_def by (rule gives_orI, intro wp_intros comm_safe assms TrueI) simp_all
  moreover have "yields (recv_message sys cid a n) (\<lambda>_. True)" for a n
    unfolding recv_message_def by (rule gives_orI, intro wp_intros comm_safe assms TrueI)
  ultimately show ?thesis
    unfolding end_message_def
    by (intro gives_if gives_thenP gives_log gives_calls gives_bind_any gives_whenP gives_ret TrueI)
qed

lemma yields_session:
  assumes "ample sys" and C: "poll_contract sys" and rate: "clock_rate \<noteq> 0" and cnt: "0 < p_count params"
    and rep: "reportable params"
    and len: "length reqs = unat (p_count params)"
    and reg: "all_registered (p_verb params) (unat (p_count params)) reqs"
  shows "yields (rdma_session sys clock_rate role cid params reqs) (\<lambda>(rv, reqs'). length reqs' = unat (p_count params))"
proof -
  let ?N = "unat (p_count params)"
  note small = reportable_size [OF rep]
  have rounds: "yields (forP [0..<unat (p_repeat params)] (rdma_round sys clock_rate role cid params) st)
      (\<lambda>st'. length (snd st') = ?N)" if "length (snd st) = ?N" for st
    by (rule gives_forP) (use that in \<open>auto intro: yields_round [OF assms(1) C rate cnt rep]\<close>)
  show ?thesis
    unfolding rdma_session_def
    by (rule gives_bindP [OF yields_exchange [OF assms(1) C small len reg]])
      (auto intro!: gives_if gives_ret gives_bindP [OF rounds] gives_bindP [OF yields_end_message [OF C]]
        gives_thenP yields_sha1sum [OF assms(1) cnt small])
qed

lemma yields_deallocate:
  assumes "p_count params div p_mr_count params \<noteq> 0" and "length reqs = unat (p_count params)"
    and "all_regions params reqs"
  shows "yields (deallocate_buffer sys reqs params) (\<lambda>_. True)"
  unfolding deallocate_buffer_def if_not_P [OF div_nonzero [OF assms(1)]]
  by (rule gives_forP)
    (use assms in \<open>auto simp: dealloc_step_def dccs_dereg_mr_def all_regions_def
      intro!: gives_ret gives_thenP gives_calls yields_free\<close>)

lemma same_buffers_regions:
  assumes "same_buffers xs ys" and "length ys = unat (p_count params)"
  shows "all_regions params xs \<longleftrightarrow> all_regions params ys"
proof -
  have "rq_mr (xs ! n) = rq_mr (ys ! n)" if "n < unat (p_count params)" for n
  proof -
    have "map (\<lambda>r. (rq_buf r, rq_mr r)) xs ! n = map (\<lambda>r. (rq_buf r, rq_mr r)) ys ! n"
      using assms(1) by (simp add: same_buffers_def)
    then show ?thesis using that assms(2) same_buffers_length [OF assms(1)] by simp
  qed
  then show ?thesis by (auto simp: all_regions_def)
qed

lemma valid_count:
  assumes "valid_parameters params"
  shows "0 < p_count params" "p_count params div p_mr_count params \<noteq> 0"
proof -
  have c: "0 < unat (p_count params)" and m: "0 < unat (p_mr_count params)" "unat (p_mr_count params) dvd unat (p_count params)"
    using assms by (auto simp: valid_parameters_def word_less_nat_alt)
  show "0 < p_count params" using assms by (simp add: valid_parameters_def)
  have "0 < unat (p_count params) div unat (p_mr_count params)"
    using c m by (metis dvd_div_eq_0_iff gr0I not_gr0)
  then have "unat (p_count params div p_mr_count params) \<noteq> 0" by (simp add: unat_div)
  then show "p_count params div p_mr_count params \<noteq> 0" by auto
qed

lemma yields_run:
  assumes A: "ample sys" and C: "poll_contract sys" and rate: "clock_rate \<noteq> 0"
    and valid: "valid_parameters params" and rep: "reportable params"
  shows "yields (rdma_run sys cid0 clock_rate params) (\<lambda>_. True)"
proof -
  note v = valid_count [OF valid]
  have session: "yields (bindP (rdma_session sys clock_rate role cid params reqs) (\<lambda>(rv, requests).
      thenP (log_debug ''de-allocating buffer\<newline>'') (thenP (deallocate_buffer sys requests params) (ret rv)))) (\<lambda>_. True)"
    if len: "length reqs = unat (p_count params)"
      and reg: "all_registered (p_verb params) (unat (p_count params)) reqs" for role cid reqs
  proof (rule gives_bindP [OF gives_conj [OF yields_session [OF A C rate v(1) rep len reg] gives_session]], clarify)
    fix rv :: int and reqs' assume reqs': "length reqs' = unat (p_count params)" "same_buffers reqs' reqs"
    have "all_regions params reqs"
      using reg valid by (auto simp: all_registered_def all_regions_def valid_parameters_def known_parameters_def)
    then have "all_regions params reqs'" using same_buffers_regions [OF reqs'(2) len] by simp
    from yields_deallocate [OF v(2) reqs'(1) this]
    show "yields (thenP (log_debug ''de-allocating buffer\<newline>'') (thenP (deallocate_buffer sys reqs' params) (ret rv))) (\<lambda>_. True)"
      by (intro gives_thenP gives_log gives_ret TrueI)
  qed
  have conn: "yields (rdma_connected sys clock_rate role listen_id cid params reqs) (\<lambda>_. True)"
    if "length reqs = unat (p_count params)" for role listen_id cid reqs
    unfolding rdma_connected_def
    by (rule gives_bindP [OF yields_allocate [OF A v(2) that]], clarsimp, rule gives_bind_any, rule session)
      (auto intro!: gives_thenP gives_log gives_ret yields_close)
  show ?thesis
    unfolding rdma_run_def Let_def
    by (rule gives_thenP, simp add: role_banner_def gives_log, rule gives_bindP [OF yields_open])
      (auto intro!: gives_if gives_ret gives_thenP gives_log gives_bindP [OF yields_new_requests [OF A reportable_size [OF rep]]] conn)
qed

section \<open>Runs only add to the trace\<close>

lemma grows_Verb:
  "grows a \<Longrightarrow> grows b \<Longrightarrow> grows c \<Longrightarrow> grows d \<Longrightarrow>
   grows (case v of None_verb \<Rightarrow> a | Send \<Rightarrow> b | Read \<Rightarrow> c | Write \<Rightarrow> d)"
  by (cases v) simp_all

lemma grows_Mode: "grows a \<Longrightarrow> grows b \<Longrightarrow> grows (case m of MODE_LATENCY \<Rightarrow> a | MODE_THROUGHPUT \<Rightarrow> b)"
  by (cases m) simp_all

lemmas grows_rules = grows_intros grows_log grows_get_cycles grows_malloc_random grows_Verb grows_Mode grows_wc_check

lemma grows_ops:
  "grows (dccs_dereg_mr sys mr)" "grows (reg_call sys k cid a len)"
  "grows (dccs_rdma_send_with_flags sys cid a len mr fl)" "grows (dccs_rdma_recv sys cid a len mr)"
  "grows (dccs_rdma_read_with_flags sys cid a len mr ra rk fl)"
  "grows (dccs_rdma_write_with_flags sys cid a len mr ra rk fl)"
  "grows (dccs_rdma_send_comp sys cid num arr)" "grows (dccs_rdma_recv_comp sys cid wc)"
  unfolding dccs_dereg_mr_def reg_call_def dccs_rdma_send_with_flags_def dccs_rdma_recv_def
    dccs_rdma_read_with_flags_def dccs_rdma_write_with_flags_def dccs_rdma_send_comp_def dccs_rdma_recv_comp_def
    send_comp_round_def call_poll_def add_int_def Let_def
  by (intro grows_rules)+

lemma grows_buffers:
  "grows (allocate_buffer sys cid reqs params)" "grows (deallocate_buffer sys reqs params)"
  unfolding allocate_buffer_def alloc_step_def alloc_group_def register_for_def deallocate_buffer_def
    dealloc_step_def dccs_reg_msgs_def dccs_reg_read_def dccs_reg_write_def call_free_def Let_def
  by (intro grows_rules grows_ops)+

lemma grows_exchange:
  "grows (get_remote_mr_info sys cid reqs cnt)" "grows (send_local_mr_info sys cid reqs cnt)"
  "grows (send_message sys cid a n)" "grows (recv_message sys cid a n)"
  unfolding get_remote_mr_info_def send_local_mr_info_def send_message_def recv_message_def recv_infos_def
    load_info_def send_infos_def store_info_def call_malloc_def call_free_def Let_def dccs_rdma_send_def
    dccs_reg_msgs_def
  by (intro grows_rules grows_ops)+

lemma grows_reports:
  "grows (print_latency_report_raw sys clock_rate starts ends len first verbose rc rl)"
  "grows (print_latency_report sys clock_rate params reqs)"
  "grows (print_throughput_report clock_rate params reqs)" "grows (print_sha1sum sys reqs cnt)"
  unfolding print_latency_report_def print_latency_report_raw_def print_throughput_report_def print_sha1sum_def
    report_summary_def print_raw_latencies_def collect_step_def raw_line_def report_step_def array_get_def
    percentile_def stamps_step_def sha1sum_array_def bin_to_hex_string_def call_malloc_def call_free_def
    add_int_def Let_def
  by (intro grows_rules)+

lemma grows_batches:
  "grows (recv_requests sys cid reqs params)" "grows (send_and_wait_requests sys cid reqs params)"
  unfolding recv_requests_def recv_step_def send_and_wait_requests_def send_wait_step_def post_request_def
    count_failed_def add_int_def Let_def
  by (intro grows_rules grows_ops)+

lemma grows_connected: "grows (rdma_connected sys clock_rate role listen_id cid params reqs)"
  unfolding rdma_connected_def rdma_session_def exchange_infos_def rdma_round_def round_batch_def
    round_report_def end_message_def close_connection_def dccs_client_disconnect_def
    dccs_server_disconnect_def conn_calls call_disconnect_def
  by (intro grows_rules grows_buffers grows_exchange grows_batches grows_reports)

lemma grows_open: "grows (open_connection sys cid0 role params)"
  unfolding open_connection_def dccs_connect_def dccs_listen_def conn_calls call_listen_def
    call_get_request_def call_accept_def
  by (intro grows_rules)

section \<open>The outcome of a run\<close>

lemma grows_connect: "grows (dccs_connect sys cid0 server port tos)"
  unfolding dccs_connect_def conn_calls by (intro grows_rules)

lemma open_connection_wp:
  assumes "owns L w"
  shows "wp (open_connection sys cid0 role params) (\<lambda>(rv, l, i) w'.
      if rv = 0 then owns (L + conn_resources role l i) w'
      else owns L w' \<or> (\<exists>es. trace w' = trace w @ es \<and> tos_failed i es \<and> owns (L + {#R_ep i#}) w'))
    (\<lambda>_ _. True) w"
proof (cases "role = ROLE_CLIENT")
  case True
  show ?thesis
    unfolding open_connection_def if_P [OF True] wp_bindP
    by (rule wp_mono [OF grows_wp [OF grows_connect dccs_connect_wp [OF assms]]])
      (auto simp: wp_ret conn_resources_def True split: if_splits)
next
  case False
  have "wp (dccs_listen sys 0 cid0 (p_port params)) (\<lambda>a. owns (L + (case a of (rv, l, i) \<Rightarrow>
      if rv = 0 then {#R_ep l, R_ep i#} else {#}))) (\<lambda>_ _. True) w"
    using dccs_listen_trades [of sys 0 cid0 "p_port params"] assms by (simp add: trades_def)
  then show ?thesis
    unfolding open_connection_def if_not_P [OF False]
    by (rule wp_mono) (auto simp: conn_resources_def False split: if_splits)
qed

text \<open>
  What a run that returns leaves behind: nothing when no connection was opened; else the array of
  requests, the block that its \<open>malloc\<close> returned; or the endpoint whose type of service could not be
  set.
\<close>

definition run_leftover ::
  "dccs_parameters \<Rightarrow> resource multiset \<Rightarrow> 'e world \<Rightarrow> int \<Rightarrow> 'e world \<Rightarrow> bool" where
  "run_leftover params L w rv w' \<longleftrightarrow> (\<exists>es. trace w' = trace w @ es \<and>
     (rv \<noteq> 0 \<and> owns L w' \<or>
      (\<exists>p. Ev_malloc (p_count params * sizeof_request) p \<in> set es \<and> owns (L + heap_block p) w') \<or>
      rv \<noteq> 0 \<and> (\<exists>i. tos_failed i es \<and> owns (L + {#R_ep i#}) w')))"

lemma new_requests_wp:
  assumes "owns L w" and "64 * unat (p_count params) < 2 ^ 64"
  shows "wp (new_requests sys params) (\<lambda>(p, reqs) w'. length reqs = unat (p_count params) \<and>
     owns (L + heap_block p) w' \<and> trace w' = trace w @ [Ev_malloc (p_count params * sizeof_request) p])
     (\<lambda>_ _. True) w"
  unfolding new_requests_def Let_def call_malloc_def
  by (intro wp_intros) (auto simp: requests_length [OF assms(2)] wp_simps owns_def own_append assms(1) [unfolded owns_def])

lemma run_wp:
  assumes own: "owns L w" and valid: "valid_parameters params" and small: "64 * unat (p_count params) < 2 ^ 64"
  shows "wp (rdma_run sys cid0 clock_rate params) (run_leftover params L w) (\<lambda>_ _. True) w"
proof -
  have after: "wp (bindP (new_requests sys params) (\<lambda>(p, requests).
        rdma_connected sys clock_rate role l i params requests)) (run_leftover params L w) (\<lambda>_ _. True) w1"
    if own1: "owns (L + conn_resources role l i) w1" and tr: "trace w1 = trace w @ es" for role l i w1 es
    unfolding wp_bindP
  proof (rule wp_mono [OF new_requests_wp [OF own1 small]], clarify)
    fix p and reqs :: "dccs_request list" and w2 :: "'a world"
    assume len: "length reqs = unat (p_count params)" and own2: "owns (L + conn_resources role l i + heap_block p) w2"
      and tr2: "trace w2 = trace w1 @ [Ev_malloc (p_count params * sizeof_request) p]"
    have "owns (L + heap_block p + conn_resources role l i) w2" using own2 by (simp add: ac_simps)
    then have "wp (rdma_connected sys clock_rate role l i params reqs) (\<lambda>_. owns (L + heap_block p)) (\<lambda>_ _. True) w2"
      using trades_connected [OF valid_count(2) [OF valid] len, of "{#}" role l i sys clock_rate] by (simp add: trades_def)
    from grows_wp [OF grows_connected this]
    show "wp (rdma_connected sys clock_rate role l i params reqs) (run_leftover params L w) (\<lambda>_ _. True) w2"
      by (rule wp_mono) (auto simp: run_leftover_def tr tr2)
  qed simp
  let ?w1 = "w\<lparr>trace := trace w @ [log_entry LOG_INFO (if role_of params = ROLE_CLIENT
      then ''Running in client mode ...\<newline>'' else ''Running in server mode ...\<newline>'')]\<rparr>"
  have own1: "owns L ?w1" using own by (simp add: owns_def own_append)
  have "wp (bindP (open_connection sys cid0 (role_of params) params) (\<lambda>(rv, listen_id, cid).
      if rv \<noteq> 0 then ret rv else
      thenP (log_debug ''Allocating buffer ...\<newline>'')
     (bindP (new_requests sys params) (\<lambda>(p, requests).
      rdma_connected sys clock_rate (role_of params) listen_id cid params requests)))) (run_leftover params L w) (\<lambda>_ _. True) ?w1"
    unfolding wp_bindP
  proof (rule wp_mono [OF grows_wp [OF grows_open open_connection_wp [OF own1]]], clarify)
    fix rv :: int and l i and w2 :: "'a world" and es
    assume post: "if rv = 0 then owns (L + conn_resources (role_of params) l i) w2
      else owns L w2 \<or> (\<exists>es. trace w2 = trace ?w1 @ es \<and> tos_failed i es \<and> owns (L + {#R_ep i#}) w2)"
      and tr: "trace w2 = trace ?w1 @ es"
    have "owns (L + conn_resources (role_of params) l i) (w2\<lparr>trace := trace w2 @ [log_entry LOG_DEBUG ''Allocating buffer ...\<newline>'']\<rparr>)" if "rv = 0"
      using post that by (simp add: owns_def own_append)
    then show "wp (if rv \<noteq> 0 then ret rv else thenP (log_debug ''Allocating buffer ...\<newline>'')
       (bindP (new_requests sys params) (\<lambda>(p, requests).
        rdma_connected sys clock_rate (role_of params) l i params requests))) (run_leftover params L w) (\<lambda>_ _. True) w2"
      using post tr by (auto simp: wp_ret wp_thenP wp_log run_leftover_def intro!: after)
  qed simp
  then show ?thesis
    unfolding rdma_run_def Let_def wp_thenP role_banner_def by (simp add: wp_log split: if_splits)
qed

lemma gives_end_message: "gives (end_message sys sender cid) (\<lambda>rv. rv \<noteq> 0)"
proof -
  have comp: "gives (dccs_rdma_send_comp sys cid 1 arr) (\<lambda>x. fst x \<noteq> 0)"
    "gives (dccs_rdma_recv_comp sys cid wc) (\<lambda>x. fst x \<noteq> 0)" for arr wc
    by (auto simp: gives_or_def send_comp_nonzero recv_comp_nonzero)
  have "gives (send_message sys cid a n) (\<lambda>rv. rv \<noteq> 0)" for a n
    unfolding send_message_def send_comp.retry_once
    by (rule gives_any gives_if gives_ret gives_then_same gives_next gives_bindP [OF comp(1)] gives_True gives_case_prod
        | simp)+
  moreover have "gives (recv_message sys cid a n) (\<lambda>rv. rv \<noteq> 0)" for a n
    unfolding recv_message_def recv_comp.retry_once
    by (rule gives_any gives_if gives_ret gives_then_same gives_next gives_bindP [OF comp(2)] gives_True gives_case_prod
        | simp)+
  ultimately show ?thesis
    unfolding end_message_def by (auto intro!: gives_if gives_next gives_then_same simp: gives_True)
qed

lemma gives_session_nonzero: "gives (rdma_session sys clock_rate role cid params reqs) (\<lambda>(rv, reqs'). rv \<noteq> 0)"
  unfolding rdma_session_def
  by (rule gives_bindP [OF gives_end_message] gives_any gives_if gives_ret gives_next gives_case_prod | simp)+

lemma gives_run_nonzero: "gives (rdma_run sys cid0 clock_rate params) (\<lambda>rv. rv \<noteq> 0)"
proof -
  have "gives (rdma_connected sys clock_rate role l i params reqs) (\<lambda>rv. rv \<noteq> 0)" for role l i reqs
    unfolding rdma_connected_def
    by (rule gives_bindP [OF gives_allocate_buffer [OF refl]], clarsimp, rule gives_bindP [where S = "\<lambda>rv. rv \<noteq> 0"],
        rule gives_bindP [OF gives_session_nonzero])
      (auto intro!: gives_next gives_ret)
  then show ?thesis
    unfolding rdma_run_def Let_def
    by (auto intro!: gives_next gives_any gives_if gives_ret)
qed

lemma total_Mode: "total a \<Longrightarrow> total b \<Longrightarrow> total (case m of MODE_LATENCY \<Rightarrow> a | MODE_THROUGHPUT \<Rightarrow> b)"
  by (cases m) simp_all

lemma total_run: "live_nic sys \<Longrightarrow> total (rdma_run sys cid0 clock_rate params)"
  unfolding rdma_run_def rdma_connected_def rdma_session_def rdma_round_def round_batch_def round_report_def
    end_message_def exchange_infos_def open_connection_def close_connection_def new_requests_def role_banner_def
    call_malloc_def Let_def
  by (intro total_intros total_calls total_log total_conn total_exchange total_batches total_reports
      total_allocate_buffer total_deallocate_buffer total_Verb total_Mode)

lemma poll_ready_cong:
  "poll_ready t q num e m \<Longrightarrow> ibv_poll_cq (rdma s) = ibv_poll_cq (rdma t) \<Longrightarrow> poll_ready s q num e m"
proof (induction rule: poll_ready.induct)
  case (ready_now e m rv wcs e' m')
  then show ?case by (intro poll_ready.ready_now [of s q num e m rv wcs e' m']) simp_all
next
  case (ready_later e m wcs e' m')
  then show ?case by (intro poll_ready.ready_later [of s q num e m wcs e' m']) simp_all
qed

lemma live_nic_cong: "live_nic t \<Longrightarrow> ibv_poll_cq (rdma s) = ibv_poll_cq (rdma t) \<Longrightarrow> live_nic s"
  by (auto simp: live_nic_def poll_contract_def intro!: poll_ready_cong [of t _ _ _ _ s])

definition ample_sys :: "test_env sys" where
  "ample_sys = report_sys\<lparr>rdma := test_rdma\<lparr>rdma_reg :=
     \<lambda>_ _ _ _ e m. (Some \<lparr>mr_handle = 1, mr_rkey = 101\<rparr>, e, m)\<rparr>\<rparr>"

lemma ample_sys_contracts: "ample ample_sys" "live_nic ample_sys" "poll_contract ample_sys"
proof -
  show "ample ample_sys" by (simp add: ample_def plenty_def mallocs_def ample_sys_def report_sys_def)
  show "live_nic ample_sys"
    by (rule live_nic_cong [OF test_contracts(1)]) (simp add: ample_sys_def test_sys_def)
  then show "poll_contract ample_sys" by (simp add: live_nic_def)
qed

section \<open>A run that is all warm-up\<close>

text \<open>Calls that open a connection and never fail.\<close>

definition connects :: "'e sys \<Rightarrow> bool" where
  "connects sys \<longleftrightarrow> (\<forall>s p h e m. fst (fst (rdma_getaddrinfo (rdma sys) s p h e m)) = 0) \<and>
     (\<forall>r a e m. fst (fst (rdma_create_ep (rdma sys) r a e m)) = 0) \<and>
     (\<forall>i t e m. fst (rdma_set_option_tos (rdma sys) i t e m) = 0) \<and>
     (\<forall>i e m. fst (rdma_connect (rdma sys) i e m) = 0)"

lemma yields_ext_call:
  "(\<And>e m. R (fst (f e m))) \<Longrightarrow> yields (ext_call f ev) R"
  by (rule gives_orI) (auto simp: wp_ext_call split: prod.split, metis fst_conv)

lemma yields_connect:
  assumes "connects sys"
  shows "yields (dccs_connect sys cid0 server port tos) (\<lambda>(rv, cid). rv = 0)"
proof -
  have "yields (call_getaddrinfo sys server port h) (\<lambda>(rv, res). rv = 0)"
    "yields (call_create_ep sys res a) (\<lambda>(rv, i). rv = 0)"
    "yields (ext_call (rdma_set_option_tos (rdma sys) i tos) ev) (\<lambda>rv. rv = 0)"
    "yields (call_connect sys i) (\<lambda>rv. rv = 0)" for h res a i ev
    using assms unfolding call_getaddrinfo_def call_create_ep_def call_connect_def connects_def
    by (intro yields_ext_call; simp add: split_beta)+
  then show ?thesis
    unfolding dccs_connect_def dccs_set_connection_tos_def call_freeaddrinfo_def
    by (auto intro!: gives_bindP [where S = "\<lambda>(rv, res). rv = 0"] gives_bindP [where S = "\<lambda>rv. rv = 0"]
        gives_thenP gives_then_same gives_log gives_calls gives_ret gives_whenP)
qed

text \<open>The report of such a run reads past the array; everything before it goes well.\<close>

lemma warmup_run_faults:
  assumes A: "ample sys" and C: "poll_contract sys" and conn: "connects sys"
    and valid: "valid_parameters params" and small: "unat (p_count params) < 2 ^ 31"
    and mode: "p_mode params = MODE_THROUGHPUT" "p_count params \<le> p_warmup_count params"
    and client: "p_server params = Some server" "p_verb params = Send"
  shows "gives_or (\<lambda>s. s = Fault Out_of_bounds) (rdma_run sys cid0 clock_rate params) (\<lambda>_. False)"
proof -
  let ?N = "unat (p_count params)" and ?E = "\<lambda>s. s = Fault Out_of_bounds"
  note v = valid_count [OF valid]
  have up: "gives_or ?E m R" if "yields m R" for m :: "('a world, int \<times> cm_id \<times> cm_id) prog" and R
    using that by (rule gives_weaken) simp
  have batch: "yields (send_and_wait_requests sys cid reqs params) (\<lambda>(rv, reqs'). length reqs' = ?N)"
    if "length reqs = ?N" for cid reqs
    by (rule gives_orI, rule wp_mono [OF send_and_wait_requests_wp [OF C]])
      (use that small in \<open>auto dest: same_requests_length\<close>)
  have report: "gives_or ?E (print_throughput_report clock_rate params reqs) R" if "length reqs = ?N" for reqs R
    using that mode(2) by (simp add: print_throughput_report_def Let_def word_le_nat_alt gives_halt)
  have stops: "gives_or ?E (thenP m n) R" if "gives_or ?E m (\<lambda>_. False)" for m :: "('a world, unit) prog"
    and n :: "('a world, int \<times> dccs_request list) prog" and R
    unfolding thenP_def using that by (rule gives_bindP) simp
  have whole: "gives_or ?E (round_batch sys ROLE_CLIENT cid params (rv, reqs)) (\<lambda>(rv, reqs'). length reqs' = ?N)"
    if "length reqs = ?N" for cid rv reqs
    unfolding round_batch_def
    by (simp, rule gives_thenP [OF gives_log(2)], rule gives_bindP [OF gives_weaken [OF batch [OF that]]])
      (auto intro!: gives_thenP gives_whenP gives_log gives_ret)
  have round: "gives_or ?E (rdma_round sys clock_rate ROLE_CLIENT cid params n (rv, reqs)) R"
    if "length reqs = ?N" for cid n rv reqs R
    unfolding rdma_round_def
    by (rule gives_thenP [OF gives_log(2)], rule gives_bindP [OF whole [OF that]])
      (auto simp: round_report_def mode(1) whenP_def intro!: stops report)
  obtain n where n: "[0..<unat (p_repeat params)] = 0 # n"
    using valid by (cases "unat (p_repeat params)")
      (auto simp: valid_parameters_def word_less_nat_alt upt_conv_Cons simp del: upt_Suc)
  have session: "gives_or ?E (rdma_session sys clock_rate ROLE_CLIENT cid params reqs) (\<lambda>_. False)"
    if "length reqs = ?N" for cid reqs
    unfolding rdma_session_def exchange_infos_def
    by (simp add: client(2) n) (rule gives_bindP [OF gives_bindP [where S = "\<lambda>_. False", OF round [OF that]]]; simp)
  have connected: "gives_or ?E (rdma_connected sys clock_rate ROLE_CLIENT l cid params reqs) (\<lambda>_. False)"
    if "length reqs = ?N" for l cid reqs
    unfolding rdma_connected_def
    by (rule gives_bindP [OF gives_weaken [OF yields_allocate [OF A v(2) that]]], simp, clarsimp,
        rule gives_bindP [where S = "\<lambda>_. False"], rule gives_bindP [OF session]) simp_all
  have fits: "64 * ?N < 2 ^ 64" using small by simp
  have role: "role_of params = ROLE_CLIENT" by (simp add: role_of_def client(1))
  have opened: "yields (open_connection sys cid0 ROLE_CLIENT params) (\<lambda>(rv, l, cid). rv = 0)"
    unfolding open_connection_def by (auto intro!: gives_bindP [OF yields_connect [OF conn]] gives_ret)
  show ?thesis
    unfolding rdma_run_def Let_def role
    by (rule gives_thenP, simp add: role_banner_def gives_log, rule gives_bindP [OF up [OF opened]])
      (auto intro!: gives_thenP gives_log connected
        gives_bindP [OF gives_weaken [OF yields_new_requests [OF A fits]]])
qed

section \<open>Properties\<close>

text \<open>
  C3. A run with valid parameters and fewer than \<open>2^30\<close> requests returns, for both roles and all
  verbs, when the network interface answers, the allocator does not run out and blocks can be
  registered; in throughput mode the warm-up must be shorter than the run.  No null pointer is
  followed, no array is left, no counter overflows and no division fails.  Whatever happened on the
  connection, everything acquired is given back except the array of requests (or, when setting the
  type of service failed, the endpoint); and the status is never 0, since a run that went well
  returns the 1 of its last completion.
\<close>

theorem rdma_run_returns:
  assumes "live_nic sys" and "ample sys" and "clock_rate \<noteq> 0" and "owns L w"
    and "valid_parameters params" and "unat (p_count params) < 2 ^ 30"
    and "p_mode params = MODE_THROUGHPUT \<Longrightarrow> p_warmup_count params < p_count params"
  shows "returns (rdma_run sys cid0 clock_rate params) (\<lambda>rv w'. rv \<noteq> 0 \<and> run_leftover params L w rv w') w"
proof (rule total_returns [OF total_run [OF assms(1)]])
  have rep: "reportable params" using assms(6,7) by (simp add: reportable_def)
  have "wp (rdma_run sys cid0 clock_rate params) (\<lambda>rv w'. rv \<noteq> 0 \<and> run_leftover params L w rv w')
      (\<lambda>_ _. True) w"
    by (rule wp_mono [OF wp_conj [OF gives_orD [OF gives_run_nonzero] run_wp [OF assms(4,5) reportable_size [OF rep]]]])
      simp_all
  then show "wp (rdma_run sys cid0 clock_rate params) (\<lambda>rv w'. rv \<noteq> 0 \<and> run_leftover params L w rv w') (\<lambda>_ _. False) w"
    by (rule wp_no_stop) (rule gives_orD [OF yields_run [OF assms(2) live_contract [OF assms(1)] assms(3,5) rep]])
qed

definition run_example :: dccs_parameters where
  "run_example = example_params\<lparr>p_server := Some ''server'', p_repeat := 3\<rparr>"

lemma run_example_valid: "valid_parameters run_example" "unat (p_count run_example) < 2 ^ 30"
  "p_mode run_example = MODE_LATENCY" "64 * unat (p_count run_example) < 2 ^ 64" "reportable run_example"
  by (simp_all add: valid_parameters_def known_parameters_def reportable_def run_example_def example_params_def)

theorem rdma_run_returns_witness:
  "returns (rdma_run ample_sys 0 BILLION run_example)
     (\<lambda>rv w'. rv \<noteq> 0 \<and> run_leftover run_example {#} world0 rv w') world0"
  by (rule rdma_run_returns [OF ample_sys_contracts(2,1) _ owns_world0(2) run_example_valid(1,2)])
    (simp_all add: BILLION_def run_example_valid)

text \<open>
  C17. Without any assumption on the allocator and the registration, a run still ends when the network
  interface answers.  If it ends by returning, whatever failed on the way, it has left one of three
  things: nothing, when no connection was opened; the array of requests, the block that the
  \<open>malloc\<close> of \<open>count * sizeof(struct dccs_request)\<close> bytes returned; or the endpoint, when its type of
  service could not be set.  No other endpoint, region or buffer leaks.
\<close>

theorem rdma_run_ledger:
  assumes "live_nic sys" and "owns L w" and "valid_parameters params" and "64 * unat (p_count params) < 2 ^ 64"
  shows "\<exists>r w'. rdma_run sys cid0 clock_rate params w = Some (r, w') \<and>
    (case r of Ret rv \<Rightarrow> rv \<noteq> 0 \<and> run_leftover params L w rv w' | Stop s \<Rightarrow> True)"
  by (rule total_outcome [OF total_run [OF assms(1)]],
      rule wp_mono [OF wp_conj [OF gives_orD [OF gives_run_nonzero] run_wp [OF assms(2-4)]]]) simp_all

text \<open>A run whose sends and receives fail, so that it ends early; it does return.\<close>

theorem rdma_run_ledger_witness:
  "\<exists>rv w'. rdma_run ample_sys 0 BILLION run_example (world0\<lparr>env := env0\<lparr>t_fail := [''post_send'', ''post_recv'']\<rparr>\<rparr>) =
      Some (Ret rv, w') \<and>
    rv \<noteq> 0 \<and> run_leftover run_example {#} (world0\<lparr>env := env0\<lparr>t_fail := [''post_send'', ''post_recv'']\<rparr>\<rparr>) rv w'"
proof -
  let ?w = "world0\<lparr>env := env0\<lparr>t_fail := [''post_send'', ''post_recv'']\<rparr>\<rparr>"
  obtain r w' where r: "rdma_run ample_sys 0 BILLION run_example ?w = Some (r, w')"
    "case r of Ret rv \<Rightarrow> rv \<noteq> 0 \<and> run_leftover run_example {#} ?w rv w' | Stop s \<Rightarrow> True"
    using rdma_run_ledger [OF ample_sys_contracts(2) owns_world0(1) run_example_valid(1,4)] by blast
  have "yields (rdma_run ample_sys 0 BILLION run_example) (\<lambda>_. True)"
    by (rule yields_run [OF ample_sys_contracts(1,3) _ run_example_valid(1,5)]) (simp add: BILLION_def)
  then have "wp (rdma_run ample_sys 0 BILLION run_example) (\<lambda>_ _. True) (\<lambda>_ _. False) ?w" by (rule gives_orD)
  with r show ?thesis by (cases r) (auto simp: wp_def)
qed

text \<open>
  C22. The whole program ends for every command line when the network interface answers, and its
  \<open>main\<close> never returns 0, the status of success.
\<close>

theorem rdma_main_status:
  assumes "live_nic sys"
  shows "\<exists>r w'. rdma_main sys cid0 argv w = Some (r, w') \<and> r \<noteq> Ret 0"
proof -
  have "total (rdma_main sys cid0 argv)"
    unfolding rdma_main_def print_parameters_def dccs_init_def set_cpu_affinity_def Let_def
    by (intro total_intros total_calls total_log total_parse_args total_run [OF assms])
  moreover have "gives (rdma_main sys cid0 argv) (\<lambda>rv. rv \<noteq> 0)"
    unfolding rdma_main_def by (intro gives_any gives_next gives_run_nonzero)
  ultimately have "\<exists>r w'. rdma_main sys cid0 argv w = Some (r, w') \<and> (case r of Ret rv \<Rightarrow> rv \<noteq> 0 | Stop s \<Rightarrow> True)"
    by (rule_tac total_outcome [OF _ gives_orD])
  then obtain r w' where r: "rdma_main sys cid0 argv w = Some (r, w')" "case r of Ret rv \<Rightarrow> rv \<noteq> 0 | Stop s \<Rightarrow> True"
    by blast
  then show ?thesis by (cases r) auto
qed

theorem rdma_main_status_witness:
  "\<exists>r w'. rdma_main (test_sys Little_endian) 0 [''rdma''] world0 = Some (r, w') \<and> r \<noteq> Ret 0"
  by (rule rdma_main_status [OF test_contracts(1)])

text \<open>
  C23. The command line \<open>-c 0 -w k -m throughput server\<close> gets through the validation, because the
  warm-up is added to the count before the count is tested.  The program then connects, sends all
  requests, and ends by reading past the end of the array of requests in its report: the warm-up is
  the whole run.  This happens even when every call of the run succeeds.
\<close>

theorem warmup_only_run_faults:
  assumes "live_nic sys" and "ample sys" and "connects sys"
    and "\<forall>cpu e m. fst (sched_setaffinity (libc sys) cpu e m) \<noteq> -1"
    and "0 < k" and "unat (k :: u64) < 2 ^ 31" and "take 1 server \<noteq> ''-''"
  shows "\<exists>w'. rdma_main sys cid0
      [argv0, ''-c'', ''0'', ''-w'', decimal (unat k), ''-m'', ''throughput'', server] w =
    Some (Stop (Fault Out_of_bounds), w')"
proof -
  let ?argv = "[argv0, ''-c'', ''0'', ''-w'', decimal (unat k), ''-m'', ''throughput'', server]"
  let ?p = "default_parameters\<lparr>p_count := k, p_warmup_count := k, p_mode := MODE_THROUGHPUT, p_server := Some server\<rparr>"
  let ?E = "\<lambda>s. s = Fault Out_of_bounds"
  have plain: "\<not> is_long server" "\<not> is_short server" "server \<noteq> ''--''"
    using assms(7) by (cases server; auto simp: is_long_def is_short_def numeral_2_eq_2)+
  have opts: "getopt_long posix ?argv = (map Some [(opt CHR ''c'', ''0''), (opt CHR ''w'', decimal (unat k)),
      (opt CHR ''m'', ''throughput'')], [server])" for posix
    using plain by (simp add: getopt_long_def is_long_def [of "_ # _"] is_short_def [of "_ # _"])
  have zero: "sscanf_zu ''0'' = Some 0" by (simp add: sscanf_zu_def is_space_def is_digit_def digits_value_def)
  then have first: "parse_option (opt CHR ''c'', ''0'') p = ret (p\<lparr>p_count := 0\<rparr>)" for p
    by (simp add: parse_option_def option_codes store_scanned_def)
  have parse: "parse_args sys ?argv = ret ?p"
    unfolding parse_args_def opts prod.case forP_results using assms(5)
    by (simp add: parse_one first Let_def validate_holds default_parameters_def config_defs)
  have valid: "valid_parameters ?p"
    using assms(5) by (simp add: valid_parameters_def known_parameters_def default_parameters_def config_defs)
  have init: "yields (dccs_init sys) (\<lambda>_. True)"
    unfolding dccs_init_def Let_def set_cpu_affinity_def
    by (rule gives_thenP [OF gives_log(3)], rule gives_thenP, rule gives_bindP [OF yields_ext_call [where R = "\<lambda>rv. rv \<noteq> -1"]])
      (use assms(4) in \<open>auto intro!: gives_ret\<close>)
  have "gives_or ?E (rdma_run sys cid0 rate ?p) (\<lambda>_. False)" for rate
    by (rule warmup_run_faults [OF assms(2) live_contract [OF assms(1)] assms(3) valid])
      (use assms(6) in \<open>simp_all add: default_parameters_def\<close>)
  then have "gives_or ?E (rdma_main sys cid0 ?argv) (\<lambda>_. False)"
    unfolding rdma_main_def parse bindP_ret print_parameters_def
    by (auto intro!: gives_thenP gives_log gives_whenP gives_bindP [OF gives_weaken [OF init]])
  then have ends: "wp (rdma_main sys cid0 ?argv) (\<lambda>_ _. False) (\<lambda>s _. ?E s) w" by (rule gives_orD)
  have "total (rdma_main sys cid0 ?argv)"
    unfolding rdma_main_def print_parameters_def dccs_init_def set_cpu_affinity_def Let_def
    by (intro total_intros total_calls total_log total_parse_args total_run [OF assms(1)])
  from total_outcome [OF this ends] obtain r w' where
    r: "rdma_main sys cid0 ?argv w = Some (r, w')" "case r of Ret _ \<Rightarrow> False | Stop s \<Rightarrow> ?E s" by blast
  then show ?thesis by (cases r) auto
qed

definition open_sys :: "test_env sys" where
  "open_sys = ample_sys\<lparr>
     rdma := (rdma ample_sys)\<lparr>rdma_getaddrinfo := \<lambda>_ _ _ e m. ((0, 1), e, m),
       rdma_create_ep := \<lambda>_ _ e m. ((0, 1), e, m), rdma_set_option_tos := \<lambda>_ _ e m. (0, e, m),
       rdma_connect := \<lambda>_ e m. (0, e, m)\<rparr>,
     libc := (libc ample_sys)\<lparr>sched_setaffinity := \<lambda>_ e m. (0, e, m)\<rparr>\<rparr>"

lemma open_sys_contracts: "live_nic open_sys" "ample open_sys" "connects open_sys"
proof -
  show "live_nic open_sys" by (rule live_nic_cong [OF ample_sys_contracts(2)]) (simp add: open_sys_def)
  show "ample open_sys" using ample_sys_contracts(1) by (simp add: ample_def plenty_def mallocs_def open_sys_def)
  show "connects open_sys" by (simp add: connects_def open_sys_def)
qed

theorem warmup_only_run_faults_witness:
  "\<exists>w'. rdma_main open_sys 0 [''rdma'', ''-c'', ''0'', ''-w'', ''5'', ''-m'', ''throughput'', ''host''] world0 =
     Some (Stop (Fault Out_of_bounds), w')"
proof -
  have "decimal (unat (5 :: u64)) = ''5''" by (simp add: decimal.simps char_of_def bit_0)
  then show ?thesis
    using warmup_only_run_faults [OF open_sys_contracts, of 5 "''host''" 0 "''rdma''" world0]
    by (simp add: open_sys_def)
qed

end
