(* ===== verification/Mpi_Main.thy ===== *)
theory Mpi_Main
  imports Parse_Args Outcomes
begin

text \<open>
  The MPI benchmark program (\<open>mpi_main.c\<close>), with the settings it is compiled with:
  \<open>TEST_SYNC_PACKET\<close>, \<open>USE_MPIWTIME\<close> and \<open>MPI_USE_ASYNC_VERB\<close> are 1, \<open>MPI_USE_WAIT\<close> is 0 and
  \<open>MPI_FIRE_AND_FORGET\<close> of \<open>dccs_config.h\<close> is 1.  MPI is a parameter.  The arrays of requests are variable-length
  arrays, so a length of 0 is undefined behaviour (fault \<open>Zero_length_array\<close>); their elements are
  never read by the program, so only the index of the next one is kept.  \<open>wait_for_gdb\<close> is not called.

  The lemmas show which messages each rank posts in a round, that what one rank sends another is
  what the other expects from it, for all three directions, and what the comparison of the
  checksums accepts.
\<close>

section \<open>Checksums\<close>

text \<open>\<open>strncmp\<close>: only the sign of the result is specified.\<close>

fun strncmp :: "nat \<Rightarrow> u8 list \<Rightarrow> u8 list \<Rightarrow> int" where
  "strncmp (Suc n) (a # as) (b # bs) =
     (if a \<noteq> b then (if a < b then - 1 else 1) else if a = 0 then 0 else strncmp n as bs)"
| "strncmp _ _ _ = 0"

text \<open>The loop of rank 0; \<open>False\<close> is the early return.\<close>

primrec check_digests :: "'e sys \<Rightarrow> u8 list \<Rightarrow> int list \<Rightarrow> ('e world, bool) prog" where
  "check_digests sys digest [] = ret True"
| "check_digests sys digest (src # srcs) =
     bindP (ext_call (MPI_Recv (mpi sys) src) (Ev_mpi_recv src)) (\<lambda>remote_digest.
     if strncmp 20 digest remote_digest \<noteq> 0 then
       thenP (log_error ''Incorrect SHA sum from rank %d.\<newline>'') (ret False)
     else check_digests sys digest srcs)"

definition verify_checksum :: "'e sys \<Rightarrow> u64 \<Rightarrow> u64 \<Rightarrow> int \<Rightarrow> int \<Rightarrow> ('e world, int) prog" where
  "verify_checksum sys buf buffer_size rank sz =
     bindP (sha1sum sys buf buffer_size) (\<lambda>digest.
     thenP (write_mem (local_addr sys ''digest'') digest)
    (bindP (bin_to_hex_string sys (local_addr sys ''digest'') 20) (\<lambda>digest_hex.
     if rank = 0 then
       bindP (check_digests sys digest [1..sz - 1]) (\<lambda>ok.
       if ok then thenP (call_free sys digest_hex) (ret 0) else ret (- 1))
     else
       thenP (ext_call (MPI_Send (mpi sys) 0 digest) (\<lambda>_. Ev_mpi_send 0 digest))
      (thenP (call_free sys digest_hex) (ret 0)))))"

section \<open>Messages\<close>

definition HOST_ALL :: int where "HOST_ALL = - 1"

definition HOST_NOSELF :: int where "HOST_NOSELF = - 2"

definition bad_host :: "int \<Rightarrow> int \<Rightarrow> bool" where
  "bad_host sz h \<longleftrightarrow> h \<noteq> HOST_ALL \<and> h \<noteq> HOST_NOSELF \<and> (h < 0 \<or> sz \<le> h)"

definition request_count :: "int \<Rightarrow> int \<Rightarrow> u64" where
  "request_count sz h = (if h = HOST_ALL then of_int sz else if h = HOST_NOSELF then of_int (sz - 1) else 1)"

text \<open>The two \<open>continue\<close> conditions of the loops over the ranks.\<close>

definition skip_rank :: "int \<Rightarrow> int \<Rightarrow> int \<Rightarrow> bool" where
  "skip_rank h rank i \<longleftrightarrow> (if h = HOST_NOSELF \<and> i = rank then True
     else h \<noteq> HOST_ALL \<and> h \<noteq> HOST_NOSELF \<and> i \<noteq> h)"

text \<open>\<open>(int)params.length\<close>.\<close>

definition int_length :: "dccs_parameters \<Rightarrow> int" where
  "int_length params = sint (ucast (p_length params) :: 32 word)"

definition send_one ::
  "'e sys \<Rightarrow> int \<Rightarrow> int \<Rightarrow> u64 \<Rightarrow> u64 \<Rightarrow> dccs_parameters \<Rightarrow> int \<Rightarrow> nat \<times> u64 \<Rightarrow> ('e world, nat \<times> u64) prog" where
  "send_one sys rank to n_requests sendbuf params dest = (\<lambda>(request_sent, bytes_sent).
     if skip_rank to rank dest then ret (request_sent, bytes_sent)
     else if unat n_requests \<le> request_sent then halt (Fault Out_of_bounds)
     else
     thenP (ext_call (MPI_Isend (mpi sys) sendbuf (int_length params) dest)
              (\<lambda>_. Ev_isend sendbuf (int_length params) dest))
    (thenP (ext_call (MPI_Request_free (mpi sys) request_sent) (\<lambda>_. Ev_request_free request_sent))
    (ret (request_sent + 1, bytes_sent + p_length params))))"

definition send_messages ::
  "'e sys \<Rightarrow> int \<Rightarrow> int \<Rightarrow> u64 \<Rightarrow> dccs_parameters \<Rightarrow> int \<Rightarrow> u64 \<Rightarrow> ('e world, int \<times> u64) prog" where
  "send_messages sys sz rank buf params to bytes_sent =
     (if bad_host sz to then
        thenP (log_error ''Invalid send destination %d.\<newline>'') (ret (- 1, bytes_sent))
      else if request_count sz to * p_count params = 0 then halt (Fault Zero_length_array)
      else
      bindP (forP [0..<unat (p_count params)] (\<lambda>n.
               forP [0..sz - 1] (send_one sys rank to (request_count sz to * p_count params)
                 (buf + of_nat n * p_length params) params)) (0, bytes_sent)) (\<lambda>(request_sent, bytes_sent).
      ret (0, bytes_sent)))"

definition recv_one ::
  "'e sys \<Rightarrow> int \<Rightarrow> int \<Rightarrow> u64 \<Rightarrow> u64 \<Rightarrow> dccs_parameters \<Rightarrow> int \<Rightarrow> nat \<times> u64 \<Rightarrow> ('e world, nat \<times> u64) prog" where
  "recv_one sys rank from n_requests recvbuf params src = (\<lambda>(request_sent, bytes_recvd).
     if skip_rank from rank src then ret (request_sent, bytes_recvd)
     else if unat n_requests \<le> request_sent then halt (Fault Out_of_bounds)
     else
     thenP (ext_call (MPI_Irecv (mpi sys) recvbuf (int_length params) src)
              (\<lambda>_. Ev_irecv recvbuf (int_length params) src))
    (ret (request_sent + 1, bytes_recvd + p_length params)))"

text \<open>\<open>while (!done) MPI_Testall(total_count, requests, &done, ...)\<close>.\<close>

definition test_all :: "'e sys \<Rightarrow> u64 \<Rightarrow> ('e world, unit) prog" where
  "test_all sys n_requests =
     (let total_count = sint (ucast n_requests :: 32 word) in
      loopP (\<lambda>_. bindP (ext_call (MPI_Testall (mpi sys) total_count) (Ev_testall total_count)) (\<lambda>ok.
        ret (if ok then Inl () else Inr ()))) ())"

definition recv_messages ::
  "'e sys \<Rightarrow> int \<Rightarrow> int \<Rightarrow> u64 \<Rightarrow> dccs_parameters \<Rightarrow> int \<Rightarrow> u64 \<Rightarrow> ('e world, int \<times> u64) prog" where
  "recv_messages sys sz rank buf params from bytes_recvd =
     (if bad_host sz from then
        thenP (log_error ''Invalid receive source %d.\<newline>'') (ret (- 1, bytes_recvd))
      else if request_count sz from * p_count params = 0 then halt (Fault Zero_length_array)
      else
      bindP (forP [0..<unat (p_count params)] (\<lambda>n.
               forP [0..sz - 1] (recv_one sys rank from (request_count sz from * p_count params)
                 (buf + of_nat n * p_length params) params)) (0, bytes_recvd)) (\<lambda>(request_sent, bytes_recvd).
      thenP (test_all sys (request_count sz from * p_count params))
     (ret (0, bytes_recvd))))"

section \<open>The program\<close>

text \<open>The \<open>switch\<close> over the direction: whether to send and receive, to whom and from whom.\<close>

definition mpi_plan :: "int \<Rightarrow> int \<Rightarrow> ('e world, bool \<times> bool \<times> int \<times> int) prog" where
  "mpi_plan direction rank =
     (if direction = direction_int DIR_OUT then ret (rank = 0, rank \<noteq> 0, HOST_NOSELF, 0)
      else if direction = direction_int DIR_IN then ret (rank \<noteq> 0, rank = 0, 0, HOST_NOSELF)
      else if direction = direction_int DIR_BOTH then ret (True, True, HOST_NOSELF, HOST_NOSELF)
      else thenP (log_error ''Unknown direction: %d.\<newline>'') (halt (Exit 1)))"

definition throughput_line :: string where
  "throughput_line = ''round = %zu, rank = %d, bytes recv'd = %zu, elapsed = %.3f'' @ micro_sec @
     '', throughput = %.3f gbits.\<newline>''"

definition mpi_round ::
  "'e sys \<Rightarrow> u64 \<Rightarrow> int \<Rightarrow> int \<Rightarrow> u64 \<Rightarrow> dccs_parameters \<Rightarrow> bool \<times> bool \<times> int \<times> int \<Rightarrow> nat \<Rightarrow> unit \<Rightarrow> ('e world, unit) prog" where
  "mpi_round sys clock_rate sz rank buf params = (\<lambda>(should_send, should_recv, send_target, recv_source) r _.
     thenP (ext_call (MPI_Barrier (mpi sys)) (\<lambda>_. Ev_barrier))
    (thenP (whenP should_send
       (bindP (send_messages sys sz rank buf params send_target 0) (\<lambda>_. ret ())))
    (whenP should_recv
      (bindP (get_cycles_mpi sys) (\<lambda>start.
       bindP (recv_messages sys sz rank buf params recv_source 0) (\<lambda>(rv, bytes_recvd).
       bindP (get_cycles_mpi sys) (\<lambda>fin.
       let elapsed = ddiv (double_of_nat (unat (fin - start))) (double_of_nat (unat clock_rate));
           elapsed_usec = dmul elapsed (Fin 1000000);
           throughput_gbits = ddiv (ddiv (dmul (double_of_nat (unat bytes_recvd)) (Fin 8)) elapsed) (Fin (2 ^ 30)) in
       log_info_args throughput_line [Arg_u64 (of_nat r), Arg_int rank, Arg_u64 bytes_recvd,
         Arg_double elapsed_usec, Arg_double throughput_gbits])))))))"

definition SYNC_PACKET_HEADER :: "u8 list" where
  "SYNC_PACKET_HEADER = [0x73, 0x79, 0x6e, 0x63]"

text \<open>The test packet: the header, which \<open>strcpy\<close> terminates, and the slot number 0 in place of the terminator.\<close>

definition sync_packet :: "'e sys \<Rightarrow> u64 \<Rightarrow> u64 \<Rightarrow> ('e world, unit) prog" where
  "sync_packet sys buf len =
     (if buf = 0 then halt (Fault Null_deref) else
      thenP (write_mem buf (SYNC_PACKET_HEADER @ [0]))
     (thenP (write_mem (buf + 4) [0])
     (bindP (bin_to_hex_string sys buf len) (\<lambda>s.
      bindP (read_mem s (2 * unat len)) (\<lambda>text.
      thenP (emit (Ev_printf ''Packet: %s\<newline>'' [Arg_bytes text]))
     (call_free sys s))))))"

definition mpi_run :: "'e sys \<Rightarrow> u64 \<Rightarrow> int \<Rightarrow> int \<Rightarrow> dccs_parameters \<Rightarrow> ('e world, int) prog" where
  "mpi_run sys clock_rate sz rank params0 =
     (let params = params0\<lparr>p_count := 1, p_length := 5\<rparr>;
          buffer_size = p_length params * p_count params in
      bindP (malloc_random sys buffer_size) (\<lambda>buf.
      thenP (sync_packet sys buf (p_length params))
     (bindP (mpi_plan (p_direction params) rank) (\<lambda>plan.
      thenP (forP [0..<unat (p_repeat params)] (mpi_round sys clock_rate sz rank buf params plan) ())
     (bindP (verify_checksum sys buf buffer_size rank sz) (\<lambda>_.
      thenP (call_free sys buf)
     (ret 0)))))))"

definition mpi_main :: "'e sys \<Rightarrow> string list \<Rightarrow> ('e world, int) prog" where
  "mpi_main sys argv =
     bindP (parse_args sys argv) (\<lambda>params.
     thenP (print_parameters params)
    (bindP (dccs_init sys) (\<lambda>clock_rate.
     thenP (ext_call (MPI_Init (mpi sys)) (\<lambda>_. Ev_mpi_init))
    (bindP (ext_call (MPI_Comm_size (mpi sys)) Ev_comm_size) (\<lambda>sz.
     bindP (ext_call (MPI_Comm_rank (mpi sys)) Ev_comm_rank) (\<lambda>rank.
     bindP (mpi_run sys clock_rate sz rank params) (\<lambda>rv.
     thenP (ext_call (MPI_Finalize (mpi sys)) (\<lambda>_. Ev_mpi_finalize))
    (ret rv))))))))"

section \<open>Which messages are posted\<close>

text \<open>Address, length and peer of the sends and of the receives of a trace.\<close>

fun isend_of :: "event \<Rightarrow> (u64 \<times> int \<times> int) list" where
  "isend_of (Ev_isend b l i) = [(b, l, i)]"
| "isend_of _ = []"

fun irecv_of :: "event \<Rightarrow> (u64 \<times> int \<times> int) list" where
  "irecv_of (Ev_irecv b l i) = [(b, l, i)]"
| "irecv_of _ = []"

definition isends :: "event list \<Rightarrow> (u64 \<times> int \<times> int) list" where
  "isends es = concat (map isend_of es)"

definition irecvs :: "event list \<Rightarrow> (u64 \<times> int \<times> int) list" where
  "irecvs es = concat (map irecv_of es)"

lemma posts_simps [simp]:
  "isends [] = []" "isends (e # es) = isend_of e @ isends es" "isends (es @ fs) = isends es @ isends fs"
  "irecvs [] = []" "irecvs (e # es) = irecv_of e @ irecvs es" "irecvs (es @ fs) = irecvs es @ irecvs fs"
  by (simp_all add: isends_def irecvs_def)

lemma posts_log [simp]:
  "isend_of (log_entry level fmt) = []" "isend_of (log_entry_args level fmt args) = []"
  "irecv_of (log_entry level fmt) = []" "irecv_of (log_entry_args level fmt args) = []"
  by (simp_all add: log_entry_def log_entry_args_def)

text \<open>
  The interface of the two loop bodies: a rank is skipped, or one message is posted to it, while there
  is room in the array of requests.
\<close>

locale rank_loop =
  fixes post :: "u64 \<Rightarrow> int \<Rightarrow> nat \<times> u64 \<Rightarrow> ('e world, nat \<times> u64) prog"
    and obs other :: "event list \<Rightarrow> (u64 \<times> int \<times> int) list" and skip :: "int \<Rightarrow> bool"
    and limit :: nat and len :: int and step :: u64
  assumes skipped: "skip i \<Longrightarrow> post b i s = ret s"
    and posts: "\<not> skip i \<Longrightarrow> fst s < limit \<Longrightarrow> wp (post b i s) (\<lambda>s' w'.
        s' = (fst s + 1, snd s + step) \<and> obs (trace w') = obs (trace w) @ [(b, len, i)] \<and>
        other (trace w') = other (trace w)) (\<lambda>_ _. False) w"
begin

abbreviation chosen :: "int list \<Rightarrow> int list" where
  "chosen is \<equiv> filter (\<lambda>i. \<not> skip i) is"

lemma inner:
  assumes "fst s + length (chosen is) \<le> limit"
  shows "wp (forP is (post b) s) (\<lambda>s' w'.
      s' = (fst s + length (chosen is), snd s + of_nat (length (chosen is)) * step) \<and>
      obs (trace w') = obs (trace w) @ map (\<lambda>i. (b, len, i)) (chosen is) \<and>
      other (trace w') = other (trace w)) (\<lambda>_ _. False) w"
  using assms
proof (induction "is" arbitrary: s w)
  case Nil
  then show ?case by (simp add: wp_ret)
next
  case (Cons i "is" s w)
  show ?case
  proof (cases "skip i")
    case True
    then show ?thesis using Cons by (simp add: skipped)
  next
    case False
    then have room: "fst s < limit" using Cons.prems by simp
    show ?thesis
      unfolding forP.simps wp_bindP
    proof (rule wp_mono [OF posts [OF False room]], clarify)
      fix w1 :: "'e world"
      assume w1: "obs (trace w1) = obs (trace w) @ [(b, len, i)]" "other (trace w1) = other (trace w)"
      show "wp (forP is (post b) (fst s + 1, snd s + step)) (\<lambda>s' w'.
          s' = (fst s + length (chosen (i # is)), snd s + of_nat (length (chosen (i # is))) * step) \<and>
          obs (trace w') = obs (trace w) @ map (\<lambda>i. (b, len, i)) (chosen (i # is)) \<and>
          other (trace w') = other (trace w)) (\<lambda>_ _. False) w1"
        by (rule wp_mono [OF Cons.IH]) (use Cons.prems w1 False in \<open>auto simp: algebra_simps\<close>)
    qed
  qed
qed

lemma outer:
  assumes "n * length (chosen is) \<le> limit"
  shows "wp (forP [0..<n] (\<lambda>m. forP is (post (buf m))) (0, x)) (\<lambda>s' w'.
      s' = (n * length (chosen is), x + of_nat (n * length (chosen is)) * step) \<and>
      obs (trace w') = obs (trace w) @ concat (map (\<lambda>m. map (\<lambda>i. (buf m, len, i)) (chosen is)) [0..<n]) \<and>
      other (trace w') = other (trace w)) (\<lambda>_ _. False) w"
proof (rule wp_forP [where I = "\<lambda>m s' w'.
      s' = (m * length (chosen is), x + of_nat (m * length (chosen is)) * step) \<and>
      obs (trace w') = obs (trace w) @ concat (map (\<lambda>m. map (\<lambda>i. (buf m, len, i)) (chosen is)) [0..<m]) \<and>
      other (trace w') = other (trace w)"])
  fix m s and w1 :: "'e world"
  assume m: "m < n" and I: "s = (m * length (chosen is), x + of_nat (m * length (chosen is)) * step) \<and>
      obs (trace w1) = obs (trace w) @ concat (map (\<lambda>m. map (\<lambda>i. (buf m, len, i)) (chosen is)) [0..<m]) \<and>
      other (trace w1) = other (trace w)"
  have "Suc m * length (chosen is) \<le> n * length (chosen is)" using m by (intro mult_le_mono1) simp
  then have "fst s + length (chosen is) \<le> limit" using I assms by simp
  then show "wp (forP is (post (buf m)) s) (\<lambda>s' w'.
      s' = (Suc m * length (chosen is), x + of_nat (Suc m * length (chosen is)) * step) \<and>
      obs (trace w') = obs (trace w) @ concat (map (\<lambda>m. map (\<lambda>i. (buf m, len, i)) (chosen is)) [0..<Suc m]) \<and>
      other (trace w') = other (trace w)) (\<lambda>_ _. False) w1"
    by (rule wp_mono [OF inner]) (use I in \<open>auto simp: algebra_simps\<close>)
qed simp

end

interpretation send_loop: rank_loop "\<lambda>b. send_one sys rank h n b params" isends irecvs "skip_rank h rank"
    "unat n" "int_length params" "p_length params" for sys rank h n params
  by unfold_locales (auto simp: send_one_def wp_simps split: prod.split)

interpretation recv_loop: rank_loop "\<lambda>b. recv_one sys rank h n b params" irecvs isends "skip_rank h rank"
    "unat n" "int_length params" "p_length params" for sys rank h n params
  by unfold_locales (auto simp: recv_one_def wp_simps split: prod.split)

text \<open>The ranks a message loop posts to.\<close>

definition hosts :: "int \<Rightarrow> int \<Rightarrow> int \<Rightarrow> int list" where
  "hosts sz rank h = filter (\<lambda>i. \<not> skip_rank h rank i) [0..sz - 1]"

lemma host_constants: "HOST_NOSELF \<noteq> HOST_ALL" "0 \<le> h \<Longrightarrow> h \<noteq> HOST_ALL" "0 \<le> h \<Longrightarrow> h \<noteq> HOST_NOSELF"
  by (simp_all add: HOST_NOSELF_def HOST_ALL_def)

lemma skip_rank_cases:
  "\<not> skip_rank HOST_NOSELF rank i \<longleftrightarrow> i \<noteq> rank" "\<not> skip_rank HOST_ALL rank i"
  "0 \<le> h \<Longrightarrow> \<not> skip_rank h rank i \<longleftrightarrow> i = h"
  by (simp_all add: skip_rank_def HOST_NOSELF_def HOST_ALL_def)

lemma set_hosts:
  "set (hosts sz rank HOST_NOSELF) = {0..sz - 1} - {rank}"
  "set (hosts sz rank HOST_ALL) = {0..sz - 1}"
  "0 \<le> h \<Longrightarrow> h < sz \<Longrightarrow> set (hosts sz rank h) = {h}"
  by (auto simp: hosts_def skip_rank_cases)

lemma distinct_hosts: "distinct (hosts sz rank h)"
  by (simp add: hosts_def)

lemma length_hosts:
  assumes "0 \<le> rank" "rank < sz" "\<not> bad_host sz h" "sz < 2 ^ 31"
  shows "length (hosts sz rank h) = unat (request_count sz h)"
proof -
  have card: "length (hosts sz rank h) = card (set (hosts sz rank h))"
    by (simp add: distinct_card distinct_hosts)
  have num: "unat (of_int k :: u64) = nat k" if "0 \<le> k" "k < 2 ^ 31" for k
  proof -
    have "k < 2 ^ LENGTH(64)" using that by simp
    then have "uint (word_of_int k :: u64) = k" using that(1) by (simp add: uint_word_of_int)
    then show ?thesis by (simp only: unat_eq_nat_uint)
  qed
  consider "h = HOST_NOSELF" | "h = HOST_ALL" | "0 \<le> h" "h < sz"
    using assms(3) by (auto simp: bad_host_def not_less not_le)
  then show ?thesis
  proof cases
    case 1
    have "card ({0..sz - 1} - {rank}) = nat (sz - 1)" using assms(1,2) by simp
    moreover have "unat (request_count sz h) = nat (sz - 1)"
      unfolding request_count_def using 1 assms num [of "sz - 1"] host_constants by auto
    ultimately show ?thesis using card 1 set_hosts(1) [of sz rank] by simp
  next
    case 2
    have "unat (request_count sz h) = nat sz"
      unfolding request_count_def using 2 assms num [of sz] by auto
    then show ?thesis using card 2 set_hosts(2) [of sz rank] by simp
  next
    case 3
    then have "unat (request_count sz h) = 1"
      unfolding request_count_def using host_constants by auto
    then show ?thesis using card set_hosts(3) [OF 3, of rank] by simp
  qed
qed

text \<open>The messages of one call: for every message of the count, one to every host.\<close>

definition message_posts :: "int \<Rightarrow> int \<Rightarrow> u64 \<Rightarrow> dccs_parameters \<Rightarrow> int \<Rightarrow> (u64 \<times> int \<times> int) list" where
  "message_posts sz rank buf params h =
     concat (map (\<lambda>m. map (\<lambda>i. (buf + of_nat m * p_length params, int_length params, i)) (hosts sz rank h))
       [0..<unat (p_count params)])"

definition message_ok :: "int \<Rightarrow> int \<Rightarrow> dccs_parameters \<Rightarrow> int \<Rightarrow> bool" where
  "message_ok sz rank params h \<longleftrightarrow> 0 \<le> rank \<and> rank < sz \<and> sz < 2 ^ 31 \<and> \<not> bad_host sz h \<and> hosts sz rank h \<noteq> [] \<and>
     0 < p_count params \<and> unat (p_count params) * length (hosts sz rank h) < 2 ^ 64"

lemma message_ok_array:
  assumes "message_ok sz rank params h"
  shows "unat (request_count sz h * p_count params) = unat (p_count params) * length (hosts sz rank h)"
    and "request_count sz h * p_count params \<noteq> 0"
proof -
  have rc: "unat (request_count sz h) = length (hosts sz rank h)"
    using assms by (simp add: message_ok_def length_hosts)
  with assms show eq: "unat (request_count sz h * p_count params) = unat (p_count params) * length (hosts sz rank h)"
    by (simp add: unat_word_ariths message_ok_def mult.commute)
  have "0 < unat (p_count params)" using assms by (simp add: message_ok_def word_less_nat_alt)
  then have "unat (request_count sz h * p_count params) \<noteq> 0"
    unfolding eq using assms by (simp add: message_ok_def)
  then show "request_count sz h * p_count params \<noteq> 0" by auto
qed

lemma send_messages_wp:
  assumes "message_ok sz rank params to"
  shows "wp (send_messages sys sz rank buf params to x) (\<lambda>(rv, bytes) w'. rv = 0 \<and>
      bytes = x + of_nat (unat (p_count params) * length (hosts sz rank to)) * p_length params \<and>
      isends (trace w') = isends (trace w) @ message_posts sz rank buf params to \<and>
      irecvs (trace w') = irecvs (trace w)) (\<lambda>_ _. False) w"
proof -
  have ok: "\<not> bad_host sz to" using assms by (simp add: message_ok_def)
  show ?thesis
    unfolding send_messages_def if_not_P [OF ok] if_not_P [OF message_ok_array(2) [OF assms]] wp_bindP
    by (rule wp_mono [OF send_loop.outer])
      (auto simp: wp_ret message_ok_array(1) [OF assms] message_posts_def hosts_def)
qed

text \<open>Testing the requests over and over finds them complete at last.\<close>

inductive testall_ready :: "'e sys \<Rightarrow> int \<Rightarrow> 'e \<Rightarrow> mem \<Rightarrow> bool" for sys n where
  complete_now: "MPI_Testall (mpi sys) n e m = (True, e', m') \<Longrightarrow> testall_ready sys n e m"
| complete_later: "MPI_Testall (mpi sys) n e m = (False, e', m') \<Longrightarrow> testall_ready sys n e' m' \<Longrightarrow>
     testall_ready sys n e m"

definition live_mpi :: "'e sys \<Rightarrow> bool" where
  "live_mpi sys \<longleftrightarrow> (\<forall>n e m. testall_ready sys n e m)"

lemma test_all_wp:
  "wp (test_all sys n) (\<lambda>_ w'. isends (trace w') = isends (trace w) \<and> irecvs (trace w') = irecvs (trace w)) (\<lambda>_ _. False) w"
  unfolding test_all_def Let_def
  by (rule wp_loopP [where I = "\<lambda>_ w'. isends (trace w') = isends (trace w) \<and> irecvs (trace w') = irecvs (trace w)"])
    (auto simp: wp_simps split: prod.split)

lemma total_test_all:
  assumes "live_mpi sys"
  shows "total (test_all sys n)"
proof -
  let ?n = "sint (ucast n :: 32 word)"
  have "test_all sys n w \<noteq> None" for w
  proof -
    have "testall_ready sys ?n (env w) (mem w)" using assms by (simp add: live_mpi_def)
    then show ?thesis
    proof (induction "env w" "mem w" arbitrary: w rule: testall_ready.induct)
      case (complete_now e' m' w)
      then show ?case
        unfolding test_all_def Let_def
        by (subst loopP_unfold) (simp add: bindP_def ext_call_def ret_def)
    next
      case (complete_later e' m' w)
      let ?w2 = "w\<lparr>env := e', mem := m', trace := trace w @ [Ev_testall ?n False]\<rparr>"
      have "test_all sys n ?w2 \<noteq> None" by (rule complete_later(3)) simp_all
      with complete_later(1) show ?case
        unfolding test_all_def Let_def
        by (subst loopP_unfold) (simp add: bindP_def ext_call_def ret_def)
    qed
  qed
  then show ?thesis by (simp add: total_def)
qed

lemma recv_messages_wp:
  assumes "message_ok sz rank params from"
  shows "wp (recv_messages sys sz rank buf params from x) (\<lambda>(rv, bytes) w'. rv = 0 \<and>
      bytes = x + of_nat (unat (p_count params) * length (hosts sz rank from)) * p_length params \<and>
      irecvs (trace w') = irecvs (trace w) @ message_posts sz rank buf params from \<and>
      isends (trace w') = isends (trace w)) (\<lambda>_ _. False) w"
proof -
  have ok: "\<not> bad_host sz from" using assms by (simp add: message_ok_def)
  show ?thesis
    unfolding recv_messages_def if_not_P [OF ok] if_not_P [OF message_ok_array(2) [OF assms]] wp_bindP
    by (rule wp_mono [OF recv_loop.outer])
      (auto simp: wp_ret wp_thenP message_ok_array(1) [OF assms] message_posts_def hosts_def
        intro!: wp_mono [OF test_all_wp])
qed

text \<open>The parts of the program that post nothing.\<close>

definition posted :: "event \<Rightarrow> bool" where
  "posted e \<longleftrightarrow> isend_of e \<noteq> [] \<or> irecv_of e \<noteq> []"

lemma posted_by_simps [simp]:
  "\<not> posted (log_entry level fmt)" "\<not> posted (log_entry_args level fmt args)"
  "isend_of e = [] \<Longrightarrow> irecv_of e = [] \<Longrightarrow> \<not> posted e"
  by (simp_all add: posted_def)

lemma posts_visible: "isends es = isends (filter posted es)" "irecvs es = irecvs (filter posted es)"
  by (induction es) (auto simp: posted_def)

abbreviation quiet :: "('e world, 'a) prog \<Rightarrow> bool" where
  "quiet \<equiv> hides posted"

lemma quietD:
  "quiet m \<Longrightarrow> wp m (\<lambda>_ w'. isends (trace w') = isends (trace w) \<and> irecvs (trace w') = irecvs (trace w)) (\<lambda>_ _. True) w"
  by (rule wp_mono [OF hidesD], assumption) (metis posts_visible)+

lemma quiet_utils:
  "quiet (call_free sys p)" "quiet (call_malloc sys n)" "quiet (get_cycles_mpi sys)" "quiet (sha1sum sys buf n)"
  unfolding call_free_def call_malloc_def get_cycles_mpi_def sha1sum_def by (intro hides_intros; simp)+

lemma quiet_hex: "quiet (bin_to_hex_string sys buf n)"
  unfolding bin_to_hex_string_def by (intro hides_intros quiet_utils)

lemma quiet_malloc_random: "quiet (malloc_random sys n)"
  unfolding malloc_random_def call_memalign_def fill_buffer_def
  by (intro hides_intros quiet_utils; simp split: prod.split)

lemma quiet_sync_packet: "quiet (sync_packet sys buf n)"
  unfolding sync_packet_def by (intro hides_intros quiet_utils quiet_hex; simp)

lemma quiet_check_digests: "quiet (check_digests sys digest srcs)"
  by (induction srcs) (auto intro!: hides_intros)

lemma quiet_verify_checksum: "quiet (verify_checksum sys buf n rank sz)"
  unfolding verify_checksum_def by (intro hides_intros quiet_utils quiet_hex quiet_check_digests; simp)

section \<open>Rounds and runs\<close>

text \<open>
  What the three directions mean: rank \<open>i\<close> sends to rank \<open>j\<close> in every round, from which the peers of
  a rank follow.
\<close>

definition sends :: "int \<Rightarrow> int \<Rightarrow> int \<Rightarrow> bool" where
  "sends d i j \<longleftrightarrow> i \<noteq> j \<and>
     (d = direction_int DIR_OUT \<and> i = 0 \<or> d = direction_int DIR_IN \<and> j = 0 \<or> d = direction_int DIR_BOTH)"

definition targets :: "int \<Rightarrow> int \<Rightarrow> int \<Rightarrow> int list" where
  "targets d sz rank = filter (\<lambda>j. sends d rank j) [0..sz - 1]"

definition sources :: "int \<Rightarrow> int \<Rightarrow> int \<Rightarrow> int list" where
  "sources d sz rank = filter (\<lambda>i. sends d i rank) [0..sz - 1]"

definition known_direction :: "int \<Rightarrow> bool" where
  "known_direction d \<longleftrightarrow> d = direction_int DIR_OUT \<or> d = direction_int DIR_IN \<or> d = direction_int DIR_BOTH"

definition plan_ok :: "int \<Rightarrow> int \<Rightarrow> int \<Rightarrow> bool \<times> bool \<times> int \<times> int \<Rightarrow> bool" where
  "plan_ok d sz rank = (\<lambda>(should_send, should_recv, send_target, recv_source).
     (if should_send then hosts sz rank send_target else []) = targets d sz rank \<and>
     (if should_recv then hosts sz rank recv_source else []) = sources d sz rank \<and>
     send_target \<in> {0, HOST_NOSELF} \<and> recv_source \<in> {0, HOST_NOSELF} \<and>
     (should_send \<longrightarrow> targets d sz rank \<noteq> []) \<and> (should_recv \<longrightarrow> sources d sz rank \<noteq> []))"

lemma peers_by_direction:
  "targets (direction_int DIR_OUT) sz rank = (if rank = 0 then hosts sz rank HOST_NOSELF else [])"
  "sources (direction_int DIR_OUT) sz rank = (if rank \<noteq> 0 then hosts sz rank 0 else [])"
  "targets (direction_int DIR_IN) sz rank = (if rank \<noteq> 0 then hosts sz rank 0 else [])"
  "sources (direction_int DIR_IN) sz rank = (if rank = 0 then hosts sz rank HOST_NOSELF else [])"
  "targets (direction_int DIR_BOTH) sz rank = hosts sz rank HOST_NOSELF"
  "sources (direction_int DIR_BOTH) sz rank = hosts sz rank HOST_NOSELF"
  by (auto simp: targets_def sources_def hosts_def sends_def skip_rank_cases intro!: filter_cong)

lemma mpi_plan_cases:
  assumes "known_direction d" and "0 \<le> rank" "rank < sz" "2 \<le> sz"
  obtains plan where "mpi_plan d rank = ret plan" and "plan_ok d sz rank plan"
proof -
  have "0 \<in> set (hosts sz rank 0)" using assms by (simp add: set_hosts)
  then have zero: "hosts sz rank 0 \<noteq> []" by (metis empty_iff empty_set)
  have "(if rank = 0 then 1 else 0) \<in> set (hosts sz rank HOST_NOSELF)" using assms by (auto simp: set_hosts)
  then have others: "hosts sz rank HOST_NOSELF \<noteq> []" by (metis empty_iff empty_set)
  consider "d = direction_int DIR_OUT" | "d = direction_int DIR_IN" | "d = direction_int DIR_BOTH"
    using assms(1) by (auto simp: known_direction_def)
  then show ?thesis using zero others
    by cases (rule that, simp add: mpi_plan_def, cases "rank = 0";
        simp add: plan_ok_def peers_by_direction [unfolded direction_int.simps])+
qed

lemma quiet_gives:
  assumes "quiet m" and "gives_or E m R"
  shows "wp m (\<lambda>a w'. R a \<and> isends (trace w') = isends (trace w) \<and> irecvs (trace w') = irecvs (trace w)) (\<lambda>s _. E s) w"
  by (rule wp_mono [OF wp_conj [OF gives_orD [OF assms(2)] quietD [OF assms(1)]]]) auto

text \<open>The parameters of the test packet, and what a call posts with them.\<close>

definition packet_params :: "dccs_parameters \<Rightarrow> dccs_parameters" where
  "packet_params params = params\<lparr>p_count := 1, p_length := 5\<rparr>"

lemma packet_fields [simp]:
  "p_count (packet_params params) = 1" "p_length (packet_params params) = 5"
  "p_repeat (packet_params params) = p_repeat params" "p_direction (packet_params params) = p_direction params"
  "int_length (packet_params params) = 5"
  by (simp_all add: packet_params_def int_length_def)

definition packets :: "u64 \<Rightarrow> int list \<Rightarrow> (u64 \<times> int \<times> int) list" where
  "packets buf ranks = map (\<lambda>i. (buf, 5, i)) ranks"

lemma packet_posts: "message_posts sz rank buf (packet_params params) h = packets buf (hosts sz rank h)"
  by (simp add: message_posts_def packets_def)

lemma packet_message_ok:
  assumes "0 \<le> rank" "rank < sz" "sz < 2 ^ 31" and "h \<in> {0, HOST_NOSELF}" and "hosts sz rank h \<noteq> []"
  shows "message_ok sz rank (packet_params params) h"
proof -
  have "length (hosts sz rank h) \<le> length [0..sz - 1]" by (simp add: hosts_def del: length_upto)
  also have "\<dots> < 2 ^ 64" using assms(3) by simp
  finally have "unat (1 :: u64) * length (hosts sz rank h) < 2 ^ 64" by simp
  then show ?thesis using assms by (auto simp: message_ok_def bad_host_def)
qed

lemma mpi_round_wp:
  assumes rank: "0 \<le> rank" "rank < sz" "sz < 2 ^ 31" and plan: "plan_ok d sz rank plan"
    and clock: "gives_or E (get_cycles_mpi sys) (\<lambda>_. True)"
  shows "wp (mpi_round sys clock_rate sz rank buf (packet_params params) plan r x) (\<lambda>_ w'.
      isends (trace w') = isends (trace w) @ packets buf (targets d sz rank) \<and>
      irecvs (trace w') = irecvs (trace w) @ packets buf (sources d sz rank)) (\<lambda>s _. E s) w"
proof -
  obtain ss sr st rs where p: "plan = (ss, sr, st, rs)" by (cases plan)
  let ?params = "packet_params params"
  have T: "ss \<Longrightarrow> message_ok sz rank ?params st \<and> hosts sz rank st = targets d sz rank" "\<not> ss \<Longrightarrow> targets d sz rank = []"
    and S: "sr \<Longrightarrow> message_ok sz rank ?params rs \<and> hosts sz rank rs = sources d sz rank" "\<not> sr \<Longrightarrow> sources d sz rank = []"
    using plan rank by (auto simp: p plan_ok_def intro!: packet_message_ok)
  have send: "wp (whenP ss (bindP (send_messages sys sz rank buf ?params st 0) (\<lambda>_. ret ()))) (\<lambda>_ w'.
      isends (trace w') = isends (trace w1) @ packets buf (targets d sz rank) \<and> irecvs (trace w') = irecvs (trace w1)) (\<lambda>s _. E s) w1" for w1
  proof (cases ss)
    case True
    with T(1) have "message_ok sz rank ?params st" "hosts sz rank st = targets d sz rank" by simp_all
    then show ?thesis
      unfolding whenP_def if_P [OF True] wp_bindP
      by (intro wp_mono [OF send_messages_wp]) (auto simp: wp_ret packet_posts)
  qed (simp add: T(2) wp_simps packets_def)
  have recv: "wp (recv_messages sys sz rank buf ?params rs 0) (\<lambda>_ w'.
      irecvs (trace w') = irecvs (trace w1) @ packets buf (sources d sz rank) \<and> isends (trace w') = isends (trace w1)) (\<lambda>s _. E s) w1"
    if sr for w1
  proof -
    from that S(1) have "message_ok sz rank ?params rs" "hosts sz rank rs = sources d sz rank" by simp_all
    then show ?thesis by (intro wp_mono [OF recv_messages_wp]) (auto simp: packet_posts)
  qed
  note tick = quiet_gives [OF quiet_utils(3) clock]
  have timed: "wp (bindP (get_cycles_mpi sys) (\<lambda>start. bindP (recv_messages sys sz rank buf ?params rs 0) (\<lambda>(rv, bytes).
        bindP (get_cycles_mpi sys) (\<lambda>fin. log_info_args fmt (args start bytes fin))))) (\<lambda>_ w'.
      irecvs (trace w') = irecvs (trace w1) @ packets buf (sources d sz rank) \<and> isends (trace w') = isends (trace w1)) (\<lambda>s _. E s) w1"
    if sr for w1 fmt args
    unfolding wp_bindP
    by (rule wp_mono [OF tick], clarify, rule wp_mono [OF recv [OF that]], clarify,
        unfold wp_bindP, rule wp_mono [OF tick])
      (auto simp: wp_simps)
  show ?thesis
    unfolding mpi_round_def p prod.case Let_def wp_thenP wp_ext_call
    by (clarsimp split: prod.split, rule wp_mono [OF send], clarsimp simp: wp_whenP S(2) packets_def,
        rule wp_mono [OF timed]) (auto simp: packets_def)
qed

text \<open>What a whole run has posted when it returns.\<close>

definition run_posts :: "int \<Rightarrow> int \<Rightarrow> nat \<Rightarrow> int \<Rightarrow> 'e world \<Rightarrow> 'e world \<Rightarrow> bool" where
  "run_posts d sz n rank w w' \<longleftrightarrow> (\<exists>buf.
     isends (trace w') = isends (trace w) @ concat (replicate n (packets buf (targets d sz rank))) \<and>
     irecvs (trace w') = irecvs (trace w) @ concat (replicate n (packets buf (sources d sz rank))))"

lemma concat_replicate_Suc: "concat (replicate (Suc n) xs) = concat (replicate n xs) @ xs"
  by (induction n) simp_all

lemma mpi_rounds_wp:
  assumes "0 \<le> rank" "rank < sz" "sz < 2 ^ 31" and "plan_ok d sz rank plan"
    and "gives_or E (get_cycles_mpi sys) (\<lambda>_. True)"
  shows "wp (forP [0..<n] (mpi_round sys clock_rate sz rank buf (packet_params params) plan) ()) (\<lambda>_ w'.
      isends (trace w') = isends (trace w) @ concat (replicate n (packets buf (targets d sz rank))) \<and>
      irecvs (trace w') = irecvs (trace w) @ concat (replicate n (packets buf (sources d sz rank)))) (\<lambda>s _. E s) w"
  by (rule wp_forP [where I = "\<lambda>i _ w'.
      isends (trace w') = isends (trace w) @ concat (replicate i (packets buf (targets d sz rank))) \<and>
      irecvs (trace w') = irecvs (trace w) @ concat (replicate i (packets buf (sources d sz rank)))"],
      rule wp_mono [OF mpi_round_wp [OF assms]])
    (auto simp: concat_replicate_Suc simp del: replicate_Suc)

lemma mpi_run_wp:
  assumes rank: "0 \<le> rank" "rank < sz" "2 \<le> sz" "sz < 2 ^ 31" and d: "known_direction (p_direction params)"
    and clock: "gives_or E (get_cycles_mpi sys) (\<lambda>_. True)"
    and alloc: "gives_or E (malloc_random sys 5) P"
    and packet: "\<And>buf. P buf \<Longrightarrow> gives_or E (sync_packet sys buf 5) (\<lambda>_. True)"
    and verify: "\<And>buf. gives_or E (verify_checksum sys buf 5 rank sz) (\<lambda>_. True)"
  shows "wp (mpi_run sys clock_rate sz rank params) (\<lambda>rv w'. rv = 0 \<and>
      run_posts (p_direction params) sz (unat (p_repeat params)) rank w w') (\<lambda>s _. E s) w"
proof -
  obtain plan where plan: "mpi_plan (p_direction params) rank = (ret plan :: ('a world, _) prog)"
    and ok: "plan_ok (p_direction params) sz rank plan"
    by (rule mpi_plan_cases [OF d rank(1-3)])
  show ?thesis
    unfolding mpi_run_def packet_params_def [symmetric] Let_def packet_fields plan bindP_ret mult_1_right
      wp_bindP wp_thenP wp_ret
    by (rule wp_mono [OF quiet_gives [OF quiet_malloc_random alloc]], clarify,
        rule wp_mono [OF quiet_gives [OF quiet_sync_packet packet]], assumption, clarify,
        rule wp_mono [OF mpi_rounds_wp [OF rank(1,2,4) ok clock]], clarify,
        rule wp_mono [OF quiet_gives [OF quiet_verify_checksum verify]], clarify,
        rule wp_mono [OF quiet_gives [OF quiet_utils(1) gives_free]])
      (auto simp: run_posts_def)
qed

text \<open>
  What is asked of the libraries for a run without faults: an allocator that does not run out, and a
  clock that counts seconds from a moment in the past (MPI leaves the origin open; \<open>2^32\<close> seconds
  are 136 years).
\<close>

definition sound_clock :: "'e sys \<Rightarrow> bool" where
  "sound_clock sys \<longleftrightarrow> (\<forall>e m. case fst (MPI_Wtime (mpi sys) e m) of Fin t \<Rightarrow> 0 \<le> t \<and> t \<le> 2 ^ 32 | _ \<Rightarrow> False)"

lemma yields_get_cycles_mpi:
  assumes "sound_clock sys"
  shows "yields (get_cycles_mpi sys) (\<lambda>_. True)"
proof (rule gives_orI)
  fix w :: "'a world"
  obtain t e' m' where r: "MPI_Wtime (mpi sys) (env w) (mem w) = (t, e', m')" by (cases "MPI_Wtime (mpi sys) (env w) (mem w)")
  with assms have "case t of Fin t \<Rightarrow> 0 \<le> t \<and> t \<le> 2 ^ 32 | _ \<Rightarrow> False"
    unfolding sound_clock_def by (metis fst_conv)
  then obtain x where t: "t = Fin x" and x: "0 \<le> x" "x \<le> 2 ^ 32" by (cases t) auto
  have B: "double_of_nat (unat BILLION) = Fin (10 ^ 9)" by (subst double_of_nat_exact) (simp_all add: BILLION_def)
  have "x * 10 ^ 9 \<le> 2 ^ 32 * 10 ^ 9" using x by (intro mult_right_mono) simp_all
  then have "\<bar>x * 10 ^ 9\<bar> \<le> 2 ^ 62" using x by simp
  from to_double_bounded [OF this] obtain r where d: "to_double (x * 10 ^ 9) = Fin r" and le: "\<bar>r\<bar> \<le> 2 ^ Suc 62" by auto
  have "0 \<le> r" by (rule to_double_nonneg [OF _ d]) (use x in simp)
  then have "0 \<le> trunc r" "trunc r < 2 ^ 64" using le by (simp_all add: trunc_def floor_less_iff)
  then have "cast_u64 (Fin r) = Some (of_int (trunc r))" by simp
  then show "wp (get_cycles_mpi sys) (\<lambda>_ _. True) (\<lambda>_ _. False) w"
    unfolding get_cycles_mpi_def wp_bindP wp_ext_call r prod.case t B dmul.simps d by (simp add: wp_ret del: cast_u64.simps)
qed

lemma yields_sync_packet:
  assumes "plenty sys" and "buf \<noteq> 0"
  shows "yields (sync_packet sys buf n) (\<lambda>_. True)"
  unfolding sync_packet_def if_not_P [OF assms(2)]
  by (rule gives_bind_any [OF yields_hex_string [OF assms(1)]] gives_bind_any gives_thenP gives_calls gives_free)+

lemma yields_check_digests: "yields (check_digests sys digest srcs) (\<lambda>_. True)"
  by (induction srcs) (auto intro!: gives_ret gives_bind_any gives_calls gives_if gives_thenP gives_log)

lemma yields_verify_checksum:
  assumes "plenty sys"
  shows "yields (verify_checksum sys buf n rank sz) (\<lambda>_. True)"
  unfolding verify_checksum_def sha1sum_def
  by (rule gives_bind_any [OF yields_hex_string [OF assms]] gives_bind_any [OF yields_check_digests]
      gives_bind_any gives_thenP gives_calls gives_free gives_if gives_ret TrueI)+

lemma total_check_digests: "total (check_digests sys digest srcs)"
  by (induction srcs) (auto intro!: total_intros total_calls total_log)

lemma total_mpi_round:
  assumes "live_mpi sys"
  shows "total (mpi_round sys clock_rate sz rank buf params plan r x)"
  unfolding mpi_round_def Let_def send_messages_def recv_messages_def send_one_def recv_one_def get_cycles_mpi_def
  by (cases plan, simp only: prod.case) (intro total_intros total_calls total_log total_test_all [OF assms])

lemma total_mpi_run:
  assumes "live_mpi sys"
  shows "total (mpi_run sys clock_rate sz rank params)"
  unfolding mpi_run_def Let_def sync_packet_def mpi_plan_def verify_checksum_def sha1sum_def call_free_def
  by (intro total_intros total_calls total_log total_malloc_random total_hex total_check_digests
      total_mpi_round [OF assms])

text \<open>The lengths of the messages of a list of posts that concern one rank.\<close>

definition to_rank :: "int \<Rightarrow> (u64 \<times> int \<times> int) list \<Rightarrow> int list" where
  "to_rank j posts = map (\<lambda>(b, l, i). l) (filter (\<lambda>(b, l, i). i = j) posts)"

lemma to_rank_concat: "to_rank j (concat (replicate n xs)) = concat (replicate n (to_rank j xs))"
  by (induction n) (simp_all add: to_rank_def)

lemma filter_one: "distinct xs \<Longrightarrow> filter (\<lambda>i. i = j) xs = (if j \<in> set xs then [j] else [])"
  by (induction xs) auto

lemma to_rank_packets:
  assumes "j \<in> {0..<sz}"
  shows "to_rank j (packets buf (filter P [0..sz - 1])) = (if P j then [5] else [])"
proof -
  have "to_rank j (packets buf xs) = map (\<lambda>_. 5) (filter (\<lambda>i. i = j) xs)" for xs
    by (induction xs) (simp_all add: to_rank_def packets_def)
  then show ?thesis using assms by (simp add: filter_one [of "filter P [0..sz - 1]"] del: filter_filter)
qed

lemma concat_singletons: "concat (replicate n (if b then [x] else [])) = replicate (if b then n else 0) x"
  by (induction n) simp_all

lemma run_result:
  assumes "mpi_run sys clock_rate sz rank params w = Some (Ret rv, w')"
    and "0 \<le> rank" "rank < sz" "2 \<le> sz" "sz < 2 ^ 31" and "known_direction (p_direction params)"
  shows "run_posts (p_direction params) sz (unat (p_repeat params)) rank w w'"
proof -
  have "wp (mpi_run sys clock_rate sz rank params) (\<lambda>rv w'. rv = 0 \<and>
      run_posts (p_direction params) sz (unat (p_repeat params)) rank w w') (\<lambda>_ _. True) w"
    by (rule mpi_run_wp [OF assms(2-6), where P = "\<lambda>_. True"]) (rule gives_True)+
  then show ?thesis by (simp add: wp_def assms(1))
qed

lemma mpi_run_safe:
  assumes "sound_heap sys" and "sound_clock sys"
    and "0 \<le> rank" and "rank < sz" and "2 \<le> sz" and "sz < 2 ^ 31" and "known_direction (p_direction params)"
  shows "wp (mpi_run sys clock_rate sz rank params) (\<lambda>rv w'. rv = 0 \<and>
      run_posts (p_direction params) sz (unat (p_repeat params)) rank w w') (\<lambda>_ _. False) w"
proof (rule mpi_run_wp [OF assms(3-7)])
  show "yields (get_cycles_mpi sys) (\<lambda>_. True)" by (rule yields_get_cycles_mpi [OF assms(2)])
  show "yields (malloc_random sys 5) (\<lambda>p. p \<noteq> 0)" by (rule yields_malloc_random_nonzero [OF assms(1)])
  have "plenty sys" using assms(1) by (simp add: sound_heap_def)
  then show "yields (sync_packet sys buf 5) (\<lambda>_. True)" if "buf \<noteq> 0" for buf
    using that by (rule yields_sync_packet)
  show "yields (verify_checksum sys buf 5 rank sz) (\<lambda>_. True)" for buf
    by (rule yields_verify_checksum) fact
qed

subsection \<open>Checksums\<close>

text \<open>The part of a buffer that \<open>strncmp\<close> looks at: the bytes before the first zero.\<close>

definition c_string :: "u8 list \<Rightarrow> u8 list" where
  "c_string bs = takeWhile (\<lambda>c. c \<noteq> 0) bs"

lemma strncmp_c_string:
  "length as = n \<Longrightarrow> length bs = n \<Longrightarrow> strncmp n as bs = 0 \<longleftrightarrow> c_string as = c_string bs"
  by (induction n as bs rule: strncmp.induct) (auto simp: c_string_def)

fun digest_of :: "event \<Rightarrow> (int \<times> u8 list) list" where
  "digest_of (Ev_mpi_recv src d) = [(src, d)]"
| "digest_of _ = []"

definition digests :: "event list \<Rightarrow> (int \<times> u8 list) list" where
  "digests es = concat (map digest_of es)"

lemma digests_simps [simp]:
  "digests [] = []" "digests (e # es) = digest_of e @ digests es" "digests (es @ fs) = digests es @ digests fs"
  by (simp_all add: digests_def)

lemma digest_of_log [simp]: "digest_of (log_entry level fmt) = []" "digest_of (log_entry_args level fmt args) = []"
  by (simp_all add: log_entry_def log_entry_args_def)

definition agree :: "u8 list \<Rightarrow> int \<times> u8 list \<Rightarrow> bool" where
  "agree digest = (\<lambda>(src, d). c_string digest = c_string d)"

text \<open>Digests have 20 bytes, those that are computed and those that arrive.\<close>

definition sha_digests :: "'e sys \<Rightarrow> bool" where
  "sha_digests sys \<longleftrightarrow> (\<forall>bs. length (SHA1 (libc sys) bs) = 20) \<and>
     (\<forall>src e m. length (fst (MPI_Recv (mpi sys) src e m)) = 20)"

definition verdict :: "u8 list \<Rightarrow> int list \<Rightarrow> (int \<times> u8 list) list \<Rightarrow> bool \<Rightarrow> bool" where
  "verdict digest srcs ds ok \<longleftrightarrow>
     (if ok then map fst ds = srcs \<and> (\<forall>x \<in> set ds. agree digest x)
      else (\<exists>k x ys. map fst ds = take k srcs \<and> ds = ys @ [x] \<and> (\<forall>y \<in> set ys. agree digest y) \<and> \<not> agree digest x))"

lemma verdict_Cons: "agree digest (src, d) \<Longrightarrow> verdict digest srcs ds ok \<Longrightarrow> verdict digest (src # srcs) ((src, d) # ds) ok"
  unfolding verdict_def
  by (cases ok) (auto, metis (no_types, lifting) append_Cons set_ConsD take_Suc_Cons)

lemma check_digests_wp:
  assumes "sha_digests sys" and "length digest = 20"
  shows "wp (check_digests sys digest srcs) (\<lambda>ok w'. \<exists>ds. digests (trace w') = digests (trace w) @ ds \<and>
      verdict digest srcs ds ok) (\<lambda>_ _. False) w"
proof (induction srcs arbitrary: w)
  case Nil
  then show ?case by (simp add: wp_ret verdict_def)
next
  case (Cons src srcs)
  obtain d e' m' where r: "MPI_Recv (mpi sys) src (env w) (mem w) = (d, e', m')"
    by (cases "MPI_Recv (mpi sys) src (env w) (mem w)")
  then have "length d = 20" using assms(1) unfolding sha_digests_def by (metis fst_conv)
  then have cmp: "strncmp 20 digest d = 0 \<longleftrightarrow> agree digest (src, d)"
    by (simp add: strncmp_c_string assms(2) agree_def)
  show ?case
  proof (cases "agree digest (src, d)")
    case True
    then show ?thesis
      unfolding check_digests.simps wp_bindP wp_ext_call r prod.case wp_if cmp [THEN iffD2, OF True]
      by (simp, rule_tac wp_mono [OF Cons.IH]) (auto intro: verdict_Cons)
  next
    case False
    then have "verdict digest (src # srcs) [(src, d)] False"
      by (auto simp: verdict_def intro!: exI [of _ "Suc 0"])
    with False show ?thesis
      unfolding check_digests.simps wp_bindP wp_ext_call r prod.case wp_if
      by (simp add: cmp wp_simps)
  qed
qed

lemma hex_digests:
  assumes "plenty sys"
  shows "wp (bin_to_hex_string sys buf n) (\<lambda>_ w'. digests (trace w') = digests (trace w)) (\<lambda>_ _. False) w"
proof -
  have "mallocs sys (2 * n + 1)" using assms by (simp add: plenty_def)
  then have "fst (sys_malloc (libc sys) (2 * n + 1) (env w) (mem w)) \<noteq> 0" by (simp add: mallocs_def)
  then show ?thesis
    unfolding bin_to_hex_string_def call_malloc_def wp_bindP wp_ext_call
    by (auto simp: wp_simps split: prod.split
        intro!: wp_mono [OF wp_forP_inv [where I = "\<lambda>_ w'. digests (trace w') = digests (trace w)"]])
qed

section \<open>Properties\<close>

text \<open>A concrete MPI: the clock stands, every test finds the requests complete.\<close>

definition steady_sys :: "test_env sys" where
  "steady_sys = report_sys\<lparr>libc := libc report_sys\<lparr>sys_memalign := \<lambda>_ _ e m. ((0, 0x4000), e, m)\<rparr>,
     mpi := test_mpi\<lparr>MPI_Wtime := \<lambda>e m. (Fin 10, e, m), MPI_Recv := \<lambda>_ e m. (0 # replicate 19 1, e, m)\<rparr>\<rparr>"

lemma steady_contracts: "live_mpi steady_sys" "sound_heap steady_sys" "sound_clock steady_sys" "plenty steady_sys"
  by (auto simp: live_mpi_def sound_heap_def sound_clock_def plenty_def mallocs_def steady_sys_def report_sys_def test_mpi_def
      intro: testall_ready.intros)

definition steady_params :: dccs_parameters where
  "steady_params = default_parameters\<lparr>p_repeat := 3, p_direction := 1\<rparr>"

lemma steady_digests: "sha_digests steady_sys"
  by (auto simp: sha_digests_def steady_sys_def report_sys_def test_sys_def test_libc_def)

lemma steady_run:
  assumes "rank \<in> {0..<4}"
  obtains rv w' where "mpi_run steady_sys BILLION 4 rank steady_params world0 = Some (Ret rv, w')"
proof -
  have "returns (mpi_run steady_sys BILLION 4 rank steady_params) (\<lambda>_ _. True) world0"
    by (rule returns_mono [OF total_returns [OF total_mpi_run mpi_run_safe]])
      (use assms in \<open>simp_all add: steady_contracts steady_params_def known_direction_def\<close>)
  then show ?thesis using that by (auto simp: returns_iff)
qed

text \<open>
  C13. A run of the MPI program with at least two ranks and a known direction returns 0 on every rank,
  when the requests complete at last, memory does not run out and the clock is sound.  In every
  round it posts exactly one 5-byte send to each rank it is to send to in this direction and one 5-byte
  receive from each rank that is to send to it, all on the same buffer.
\<close>

theorem mpi_run_returns:
  assumes "live_mpi sys" and "sound_heap sys" and "sound_clock sys"
    and "0 \<le> rank" and "rank < sz" and "2 \<le> sz" and "sz < 2 ^ 31" and "known_direction (p_direction params)"
  shows "returns (mpi_run sys clock_rate sz rank params) (\<lambda>rv w'. rv = 0 \<and>
      run_posts (p_direction params) sz (unat (p_repeat params)) rank w w') w"
  by (rule total_returns [OF total_mpi_run [OF assms(1)] mpi_run_safe [OF assms(2-8)]])

theorem mpi_run_returns_witness:
  "returns (mpi_run steady_sys BILLION 4 2 steady_params) (\<lambda>rv w'. rv = 0 \<and> run_posts 1 4 3 2 world0 w') world0"
  using mpi_run_returns [OF steady_contracts(1-3), where rank = 2 and sz = 4 and params = steady_params and w = world0
      and clock_rate = BILLION]
  by (simp add: steady_params_def default_parameters_def known_direction_def)

text \<open>
  C4. The ranks agree on the messages: whenever two different ranks of the same job return from their runs
  with the same number of rounds and direction, the number of sends the one has posted to the other is the
  number of receives the other has posted from it, one in every round if the direction says that it sends and
  none otherwise, and all are of the same length.  No assumption is made on MPI, and each rank has its own
  environment.
\<close>

theorem mpi_messages_match:
  assumes "mpi_run sys_i clock_i sz i params_i w_i = Some (Ret rv_i, w_i')"
    and "mpi_run sys_j clock_j sz j params_j w_j = Some (Ret rv_j, w_j')"
    and "isends (trace w_i) = []" and "irecvs (trace w_j) = []"
    and "p_direction params_i = d" and "p_direction params_j = d" and "known_direction d"
    and "p_repeat params_i = n" and "p_repeat params_j = n"
    and "i \<in> {0..<sz}" and "j \<in> {0..<sz}" and "i \<noteq> j" and "sz < 2 ^ 31"
  shows "to_rank j (isends (trace w_i')) = replicate (if sends d i j then unat n else 0) 5 \<and>
         to_rank i (irecvs (trace w_j')) = to_rank j (isends (trace w_i'))"
proof -
  have sz: "2 \<le> sz" using assms(10-12) by auto
  have "run_posts d sz (unat n) i w_i w_i'"
    using run_result [OF assms(1) _ _ sz assms(13)] assms(5,7,8,10) by simp
  then obtain a where i: "isends (trace w_i') = concat (replicate (unat n) (packets a (targets d sz i)))"
    using assms(3) by (auto simp: run_posts_def)
  have "run_posts d sz (unat n) j w_j w_j'"
    using run_result [OF assms(2) _ _ sz assms(13)] assms(6,7,9,11) by simp
  then obtain b where j: "irecvs (trace w_j') = concat (replicate (unat n) (packets b (sources d sz j)))"
    using assms(4) by (auto simp: run_posts_def)
  show ?thesis
    unfolding i j to_rank_concat targets_def sources_def to_rank_packets [OF assms(10)] to_rank_packets [OF assms(11)]
      concat_singletons by simp
qed

theorem mpi_messages_match_witness:
  "\<exists>rv2 w2 rv0 w0. mpi_run steady_sys BILLION 4 2 steady_params world0 = Some (Ret rv2, w2) \<and>
     mpi_run steady_sys BILLION 4 0 steady_params world0 = Some (Ret rv0, w0) \<and>
     to_rank 0 (isends (trace w2)) = [5, 5, 5] \<and> to_rank 2 (irecvs (trace w0)) = [5, 5, 5]"
proof -
  obtain rv2 w2 where r2: "mpi_run steady_sys BILLION 4 2 steady_params world0 = Some (Ret rv2, w2)"
    by (rule steady_run [of 2]) simp_all
  obtain rv0 w0 where r0: "mpi_run steady_sys BILLION 4 0 steady_params world0 = Some (Ret rv0, w0)"
    by (rule steady_run [of 0]) simp_all
  have "to_rank 0 (isends (trace w2)) = replicate (if sends 1 2 0 then unat (3 :: u64) else 0) 5 \<and>
      to_rank 2 (irecvs (trace w0)) = to_rank 0 (isends (trace w2))"
    by (rule mpi_messages_match [OF r2 r0])
      (simp_all add: world0_def steady_params_def known_direction_def)
  moreover have "replicate (if sends 1 2 0 then unat (3 :: u64) else 0) (5 :: int) = [5, 5, 5]"
  proof -
    have "unat (3 :: u64) = Suc (Suc (Suc 0))" by simp
    then show ?thesis by (simp only: sends_def) simp
  qed
  ultimately show ?thesis using r2 r0 by metis
qed

text \<open>
  C20. Rank 0 receives the digests of the other ranks in order and accepts them all exactly when each agrees
  with its own up to the first zero byte (the comparison is \<open>strncmp\<close>, although digests are binary); at the first
  that does not it stops and answers -1.
\<close>

theorem verify_checksum_accepts:
  assumes "sha_digests sys" and "plenty sys"
  shows "returns (verify_checksum sys buf n 0 sz) (\<lambda>rv w'. rv \<in> {0, - 1} \<and>
     (\<exists>ds. digests (trace w') = digests (trace w) @ ds \<and>
           verdict (SHA1 (libc sys) (load_bytes (mem w) buf (unat n))) [1..sz - 1] ds (rv = 0))) w"
proof (rule total_returns)
  show "total (verify_checksum sys buf n 0 sz)"
    unfolding verify_checksum_def sha1sum_def call_free_def
    by (intro total_intros total_calls total_hex total_check_digests)
  let ?d = "SHA1 (libc sys) (load_bytes (mem w) buf (unat n))"
  have "length ?d = 20" using assms(1) by (simp add: sha_digests_def)
  note check = check_digests_wp [OF assms(1) this]
  show "wp (verify_checksum sys buf n 0 sz) (\<lambda>rv w'. rv \<in> {0, - 1} \<and>
     (\<exists>ds. digests (trace w') = digests (trace w) @ ds \<and> verdict ?d [1..sz - 1] ds (rv = 0))) (\<lambda>_ _. False) w"
    unfolding verify_checksum_def sha1sum_def wp_bindP wp_thenP wp_read_mem wp_ret wp_write_mem if_P [OF refl]
    by (rule wp_mono [OF hex_digests [OF assms(2)]], rule wp_mono [OF check])
      (auto simp: wp_simps call_free_def split: prod.split)
qed

theorem verify_checksum_accepts_witness:
  "returns (verify_checksum steady_sys 0x300 5 0 2) (\<lambda>rv w'. rv \<in> {0, - 1} \<and>
     (\<exists>ds. digests (trace w') = digests (trace world0) @ ds \<and> verdict (replicate 20 0) [1] ds (rv = 0))) world0"
proof -
  have "load_bytes (mem world0) 0x300 (unat (5 :: u64)) = replicate 5 0"
    by (rule nth_equalityI) (simp_all add: world0_def)
  then have "SHA1 (libc steady_sys) (load_bytes (mem world0) 0x300 (unat (5 :: u64))) = replicate 20 0"
    by (simp add: steady_sys_def report_sys_def test_libc_def flip: replicate_add)
  then show ?thesis
    using verify_checksum_accepts [OF steady_digests steady_contracts(4), where buf = "0x300" and n = 5 and sz = 2 and w = world0] by simp
qed

text \<open>
  C25. A job with a single rank never gets through its first round, whatever the direction: the array of requests
  would have length 0.
\<close>

theorem mpi_single_rank_faults:
  assumes "live_mpi sys" and "sound_heap sys" and "sound_clock sys"
    and "known_direction (p_direction params)" and "0 < p_repeat params"
  shows "\<exists>w'. mpi_run sys clock_rate 1 0 params w = Some (Stop (Fault Zero_length_array), w')"
proof -
  let ?E = "\<lambda>s. s = Fault Zero_length_array"
  let ?params = "packet_params params"
  have alloc: "gives_or ?E (malloc_random sys 5) (\<lambda>p. p \<noteq> 0)"
    by (rule gives_weaken [OF yields_malloc_random_nonzero [OF assms(2)]]) simp
  have "plenty sys" using assms(2) by (simp add: sound_heap_def)
  then have packet: "gives_or ?E (sync_packet sys buf 5) (\<lambda>_. True)" if "buf \<noteq> 0" for buf
    using gives_weaken [OF yields_sync_packet [of sys buf 5]] that by simp
  have clock: "gives_or ?E (get_cycles_mpi sys) (\<lambda>_. True)"
    by (rule gives_weaken [OF yields_get_cycles_mpi [OF assms(3)]]) simp
  have rc: "request_count 1 HOST_NOSELF = 0" "\<not> bad_host 1 HOST_NOSELF"
    by (simp_all add: request_count_def bad_host_def HOST_NOSELF_def HOST_ALL_def)
  have halts: "send_messages sys 1 0 buf ?params HOST_NOSELF x = halt (Fault Zero_length_array)"
    "recv_messages sys 1 0 buf ?params HOST_NOSELF x = halt (Fault Zero_length_array)" for buf x
    by (simp_all add: send_messages_def recv_messages_def rc)
  have round: "wp (mpi_round sys clock_rate 1 0 buf ?params (ss, sr, st, rs) r x) (\<lambda>_ _. False) (\<lambda>s _. ?E s) w"
    if "ss \<and> st = HOST_NOSELF \<or> \<not> ss \<and> sr \<and> rs = HOST_NOSELF" for buf r x ss sr st rs w
    unfolding mpi_round_def prod.case Let_def wp_thenP wp_ext_call
    using that by (auto simp: wp_simps halts split: prod.split intro!: wp_mono [OF gives_orD [OF clock]])
  obtain n where n: "unat (p_repeat params) = Suc n"
    using assms(5) by (metis gr0_implies_Suc unat_gt_0 word_neq_0_conv)
  have rounds: "wp (forP [0..<unat (p_repeat params)] (mpi_round sys clock_rate 1 0 buf ?params (ss, sr, st, rs)) ())
      Q (\<lambda>s _. ?E s) w"
    if "ss \<and> st = HOST_NOSELF \<or> \<not> ss \<and> sr \<and> rs = HOST_NOSELF" for buf ss sr st rs w Q
    unfolding n upt_conv_Cons [OF zero_less_Suc] forP.simps wp_bindP by (rule wp_mono [OF round [OF that]]) simp_all
  obtain ss sr st rs where plan: "mpi_plan (p_direction params) 0 = (ret (ss, sr, st, rs) :: ('a world, _) prog)"
    and ok: "ss \<and> st = HOST_NOSELF \<or> \<not> ss \<and> sr \<and> rs = HOST_NOSELF"
    using assms(4) by (auto simp: known_direction_def mpi_plan_def)
  have "wp (mpi_run sys clock_rate 1 0 params) (\<lambda>_ _. False) (\<lambda>s _. ?E s) w"
    unfolding mpi_run_def packet_params_def [symmetric] Let_def packet_fields plan bindP_ret mult_1_right wp_bindP wp_thenP
    by (rule wp_mono [OF gives_orD [OF alloc]], rule wp_mono [OF gives_orD [OF packet]], assumption)
      (auto intro: rounds [OF ok])
  from total_outcome [OF total_mpi_run [OF assms(1)] this]
  obtain r w' where r: "mpi_run sys clock_rate 1 0 params w = Some (r, w')"
    and E: "case r of Ret a \<Rightarrow> False | Stop s \<Rightarrow> s = Fault Zero_length_array" by auto
  then show ?thesis by (cases r) auto
qed

theorem mpi_single_rank_faults_witness:
  "\<exists>w'. mpi_run steady_sys BILLION 1 0 steady_params world0 = Some (Stop (Fault Zero_length_array), w')"
  by (rule mpi_single_rank_faults [OF steady_contracts(1-3)])
    (simp_all add: steady_params_def known_direction_def word_less_nat_alt)

end
