(* ===== verification/Control_Main.thy ===== *)
theory Control_Main
  imports Rdma_Main
begin

text \<open>
  The control-plane benchmark program (\<open>control_main.c\<close>): the server sends one signal per time slot, an
  RDMA write that is posted at the next slot boundary, and waits for its completion.  The stretches
  between two labels are definitions of their own; \<open>break\<close> is a flag of the loop state.  A pointer to a
  block from \<open>calloc\<close> is its address beside its elements, and a null pointer has no elements, so that
  using it is a fault.  The size of a \<open>struct ibv_wc\<close> is an argument, since the struct is not declared
  in this repository.

  The lemmas relate the clock readings and the signals in the trace to a machine of slots, and show what
  a run leaves on the ledger, when it ends, and that a run of less than 100 rounds divides by zero.
\<close>

section \<open>The functions of the source\<close>

definition MAGIC :: u32 where "MAGIC = 0xd1cefa11"

definition SLOT_NS :: u64 where "SLOT_NS = 100000"

definition wait_until :: "'e sys \<Rightarrow> u64 \<Rightarrow> ('e world, unit) prog" where
  "wait_until sys target =
     loopP (\<lambda>_. bindP (get_cycles sys) (\<lambda>t. ret (if t < target then Inr () else Inl ()))) ()"

definition assertP :: "bool \<Rightarrow> ('e world, unit) prog" where
  "assertP b = whenP (\<not> b) (halt (Fault Assert_failed))"

text \<open>\<open>calloc(params.count, sizeof(struct dccs_request))\<close>.\<close>

definition calloc_requests :: "'e sys \<Rightarrow> dccs_parameters \<Rightarrow> ('e world, u64 \<times> dccs_request list) prog" where
  "calloc_requests sys params =
     bindP (call_calloc sys (p_count params) sizeof_request) (\<lambda>p.
     ret (p, if p = 0 then [] else replicate (unat (p_count params)) zero_request))"

text \<open>The payload of a signal; client and server fill in the same.\<close>

definition fill_signal :: "'e sys \<Rightarrow> dccs_parameters \<Rightarrow> dccs_request list \<Rightarrow> nat \<Rightarrow> unit \<Rightarrow> ('e world, unit) prog" where
  "fill_signal sys params requests_out n _ =
     (if length requests_out \<le> n then halt (Fault Out_of_bounds)
      else if rq_buf (requests_out ! n) = 0 then halt (Fault Null_deref)
      else
      thenP (write_mem (rq_buf (requests_out ! n))
               (enc_host (host_endian sys) 4 (unat (htonl (host_endian sys) MAGIC))))
     (write_mem (rq_buf (requests_out ! n) + 4)
        (enc_host (host_endian sys) 2 (unat (htons (host_endian sys) (p_index params))))))"

definition control_get ::
  "'e sys \<Rightarrow> cm_id \<Rightarrow> dccs_request list \<Rightarrow> dccs_parameters \<Rightarrow> ('e world, int \<times> dccs_request list) prog" where
  "control_get sys cid requests_out params =
     thenP (log_debug ''Getting remote MR info ...\<newline>'')
    (bindP (get_remote_mr_info sys cid requests_out (p_count params)) (\<lambda>(rv, requests_out).
     thenP (whenP (rv < 0)
       (thenP (log_debug ''rv = %d.\<newline>'') (log_error ''Failed to get remote MR info.\<newline>'')))
    (ret (rv, requests_out))))"

definition control_send ::
  "'e sys \<Rightarrow> cm_id \<Rightarrow> dccs_request list \<Rightarrow> dccs_parameters \<Rightarrow> ('e world, int) prog" where
  "control_send sys cid requests_in params =
     thenP (log_debug ''Sending local MR info ...\<newline>'')
    (bindP (send_local_mr_info sys cid requests_in (p_count params)) (\<lambda>rv.
     thenP (whenP (rv < 0) (log_error ''Failed to send remote MR info.\<newline>''))
    (ret rv)))"

definition control_exchange ::
  "'e sys \<Rightarrow> Role \<Rightarrow> cm_id \<Rightarrow> dccs_request list \<Rightarrow> dccs_request list \<Rightarrow> dccs_parameters
    \<Rightarrow> ('e world, int \<times> dccs_request list) prog" where
  "control_exchange sys role cid requests_in requests_out params =
     (if role = ROLE_SERVER then
        bindP (control_get sys cid requests_out params) (\<lambda>(rv, requests_out).
        if rv < 0 then ret (rv, requests_out) else
        bindP (control_send sys cid requests_in params) (\<lambda>rv. ret (rv, requests_out)))
      else
        bindP (control_send sys cid requests_in params) (\<lambda>rv.
        if rv < 0 then ret (rv, requests_out) else
        control_get sys cid requests_out params))"

text \<open>The arrays of time stamps of the server: whether to go on, and the two blocks.\<close>

definition control_arrays ::
  "'e sys \<Rightarrow> Role \<Rightarrow> dccs_parameters \<Rightarrow> ('e world, bool \<times> u64 \<times> u64) prog" where
  "control_arrays sys role params =
     (if role = ROLE_SERVER then
        bindP (call_calloc sys (p_repeat params) 8) (\<lambda>start.
        if start = 0 then thenP (emit (Ev_log Stderr [] (Perror ''calloc''))) (ret (False, 0, 0)) else
        bindP (call_calloc sys (p_repeat params) 8) (\<lambda>fin.
        if fin = 0 then thenP (emit (Ev_log Stderr [] (Perror ''calloc''))) (ret (False, start, 0)) else
        ret (True, start, fin)))
      else ret (True, 0, 0))"

text \<open>The locals of the loop over the rounds.\<close>

record control_locals =
  c_broken :: bool
  c_rv :: int
  c_target :: u64
  c_wc :: "ibv_wc list"
  c_start :: "u64 list"
  c_end :: "u64 list"

text \<open>The body of the loop over the requests: one signal of the server; the state is whether the loop
  was left, \<open>rv\<close> and \<open>start\<close>.\<close>

definition control_signal ::
  "'e sys \<Rightarrow> Role \<Rightarrow> cm_id \<Rightarrow> dccs_request list \<Rightarrow> nat \<Rightarrow> nat \<Rightarrow> bool \<times> int \<times> u64 list
    \<Rightarrow> ('e world, bool \<times> int \<times> u64 list) prog" where
  "control_signal sys role cid requests_out n i = (\<lambda>(broken, rv, start).
     if broken \<or> role \<noteq> ROLE_SERVER then ret (broken, rv, start) else
     bindP (get_cycles sys) (\<lambda>t.
     if length start \<le> n \<or> length requests_out \<le> i then halt (Fault Out_of_bounds) else
     (let request_out = requests_out ! i in
      bindP (dccs_rdma_write_with_flags sys cid (rq_buf request_out) (rq_length request_out) (rq_mr request_out)
               (rq_remote_addr request_out) (rq_remote_rkey request_out) {IBV_SEND_SIGNALED}) (\<lambda>rv.
      if rv \<noteq> 0 then thenP (log_error ''Failed to send write.\<newline>'') (ret (True, rv, start[n := t]))
      else ret (False, rv, start[n := t])))))"

definition control_complete ::
  "'e sys \<Rightarrow> cm_id \<Rightarrow> dccs_parameters \<Rightarrow> nat \<Rightarrow> control_locals \<Rightarrow> ('e world, control_locals) prog" where
  "control_complete sys cid params n l =
     bindP (retry_zero (dccs_rdma_send_comp sys cid (sint (ucast (p_count params) :: 32 word)) (c_wc l))) (\<lambda>(rv, wc).
     if rv < 0 then
       thenP (log_error ''Failed to send comp message.\<newline>'') (ret (l\<lparr>c_broken := True, c_rv := rv, c_wc := wc\<rparr>))
     else
       bindP (get_cycles sys) (\<lambda>t.
       if length (c_end l) \<le> n then halt (Fault Out_of_bounds)
       else ret (l\<lparr>c_rv := rv, c_wc := wc, c_end := (c_end l)[n := t]\<rparr>)))"

definition control_round ::
  "'e sys \<Rightarrow> Role \<Rightarrow> cm_id \<Rightarrow> dccs_parameters \<Rightarrow> dccs_request list \<Rightarrow> nat \<Rightarrow> control_locals
    \<Rightarrow> ('e world, control_locals) prog" where
  "control_round sys role cid params requests_out n l =
     (if c_broken l then ret l
      else if p_repeat params div 100 = 0 then halt (Fault Div_by_zero)
      else
      thenP (whenP (of_nat n mod (p_repeat params div 100) = 0) (log_debug ''n = %zu.\<newline>''))
     (let target = c_target l + SLOT_NS in
      thenP (wait_until sys target)
     (bindP (forP [0..<unat (p_count params)] (control_signal sys role cid requests_out n) (False, c_rv l, c_start l))
       (\<lambda>(_, rv, start).
      let l = l\<lparr>c_rv := rv, c_target := target, c_start := start\<rparr> in
      if role = ROLE_SERVER then control_complete sys cid params n l else ret l))))"

definition control_report ::
  "'e sys \<Rightarrow> u64 \<Rightarrow> Role \<Rightarrow> dccs_parameters \<Rightarrow> dccs_request list \<Rightarrow> dccs_request list \<Rightarrow> control_locals
    \<Rightarrow> ('e world, unit) prog" where
  "control_report sys clock_rate role params requests_in requests_out l =
     (if role = ROLE_SERVER then
        if c_start l = [] then halt (Fault Out_of_bounds) else
        thenP (print_latency_report_raw sys clock_rate (c_start l) (c_end l) (p_repeat params) (c_start l ! 0)
                 (p_verbose params) (p_count params) (p_length params))
       (thenP (log_info ''Server sent:\<newline>'')
       (thenP (print_sha1sum sys requests_out (p_count params))
       (thenP (log_info ''Server received:\<newline>'')
        (print_sha1sum sys requests_in (p_count params)))))
      else
        thenP (log_info ''Client received:\<newline>'')
       (thenP (print_sha1sum sys requests_in (p_count params))
       (thenP (log_info ''Client sent:\<newline>'')
        (print_sha1sum sys requests_out (p_count params)))))"

text \<open>The rounds, the last message and the report: \<open>rv\<close>.\<close>

definition control_rounds ::
  "'e sys \<Rightarrow> u64 \<Rightarrow> Role \<Rightarrow> cm_id \<Rightarrow> dccs_parameters \<Rightarrow> ibv_wc list \<Rightarrow> dccs_request list \<Rightarrow> dccs_request list
    \<Rightarrow> int \<Rightarrow> ('e world, int) prog" where
  "control_rounds sys clock_rate role cid params wc requests_in requests_out rv =
     (let stamps = (if role = ROLE_SERVER then replicate (unat (p_repeat params)) 0 else []) in
      bindP (get_cycles sys) (\<lambda>target.
      bindP (forP [0..<unat (p_repeat params)] (control_round sys role cid params requests_out)
         \<lparr>c_broken = False, c_rv = rv, c_target = target, c_wc = wc, c_start = stamps, c_end = stamps\<rparr>) (\<lambda>l.
      bindP (end_message sys (role = ROLE_SERVER) cid) (\<lambda>rv.
      if rv < 0 then ret rv else
      thenP (control_report sys clock_rate role params requests_in requests_out l)
     (ret rv)))))"

text \<open>From the exchange to the label \<open>out_deallocate_buffer\<close>: \<open>rv\<close>, \<open>requests_out\<close>, \<open>start\<close> and \<open>end\<close>.\<close>

definition control_session ::
  "'e sys \<Rightarrow> u64 \<Rightarrow> Role \<Rightarrow> cm_id \<Rightarrow> dccs_parameters \<Rightarrow> ibv_wc list \<Rightarrow> dccs_request list \<Rightarrow> dccs_request list
    \<Rightarrow> ('e world, int \<times> dccs_request list \<times> u64 \<times> u64) prog" where
  "control_session sys clock_rate role cid params wc requests_in requests_out =
     bindP (control_exchange sys role cid requests_in requests_out params) (\<lambda>(rv, requests_out).
     if rv < 0 then ret (rv, requests_out, 0, 0) else
     thenP (forP [0..<unat (p_count params)] (\<lambda>n _.
              if length requests_out \<le> n then halt (Fault Out_of_bounds)
              else log_debug ''out: remote addr = %#10x, in: addr = %#10x\<newline>'') ())
    (thenP (log_debug ''Sending RDMA writes ...\<newline>'')
    (bindP (control_arrays sys role params) (\<lambda>(ok, start, fin).
     if \<not> ok then ret (rv, requests_out, start, fin) else
     bindP (control_rounds sys clock_rate role cid params wc requests_in requests_out rv) (\<lambda>rv.
     ret (rv, requests_out, start, fin))))))"

definition free_nonnull :: "'e sys \<Rightarrow> u64 \<Rightarrow> ('e world, unit) prog" where
  "free_nonnull sys p = whenP (p \<noteq> 0) (call_free sys p)"

text \<open>From the array of completions to the label \<open>out_disconnect\<close>.\<close>

definition control_prepared ::
  "'e sys \<Rightarrow> u64 \<Rightarrow> u64 \<Rightarrow> Role \<Rightarrow> cm_id \<Rightarrow> dccs_parameters \<Rightarrow> dccs_request list \<Rightarrow> dccs_request list
    \<Rightarrow> ('e world, int) prog" where
  "control_prepared sys wc_size clock_rate role cid params requests_in requests_out =
     bindP (call_calloc sys (p_count params) wc_size) (\<lambda>wc.
     thenP (forP [0..<unat (p_count params)] (fill_signal sys params requests_out) ())
    (bindP (control_session sys clock_rate role cid params
        (if wc = 0 then [] else replicate (unat (p_count params)) fresh_wc) requests_in requests_out)
       (\<lambda>(rv, requests_out, start, fin).
     thenP (whenP (role = ROLE_SERVER) (thenP (free_nonnull sys start) (free_nonnull sys fin)))
    (thenP (log_debug ''de-allocating buffer\<newline>'')
    (thenP (deallocate_buffer sys requests_in params)
    (thenP (deallocate_buffer sys requests_out params)
    (thenP (free_nonnull sys wc)
    (ret rv))))))))"

text \<open>The two allocations before it.\<close>

definition control_buffers :: "'e sys \<Rightarrow> u64 \<Rightarrow> u64 \<Rightarrow> Role \<Rightarrow> cm_id \<Rightarrow> dccs_parameters \<Rightarrow> ('e world, int) prog" where
  "control_buffers sys wc_size clock_rate role cid params =
     thenP (log_debug ''Allocating buffer ...\<newline>'')
    (bindP (calloc_requests sys params) (\<lambda>(p_in, requests_in).
     bindP (allocate_buffer sys cid requests_in params) (\<lambda>(rv, requests_in).
     if rv \<noteq> 0 then thenP (log_error ''Failed to allocate buffers.\<newline>'') (ret rv) else
     bindP (calloc_requests sys params) (\<lambda>(p_out, requests_out).
     bindP (allocate_buffer sys cid requests_out params) (\<lambda>(rv, requests_out).
     if rv \<noteq> 0 then thenP (log_error ''Failed to allocate buffers.\<newline>'') (ret rv) else
     control_prepared sys wc_size clock_rate role cid params requests_in requests_out)))))"

definition control_run :: "'e sys \<Rightarrow> u64 \<Rightarrow> cm_id \<Rightarrow> u64 \<Rightarrow> dccs_parameters \<Rightarrow> ('e world, int) prog" where
  "control_run sys wc_size cid0 clock_rate params =
     (let role = role_of params in
      thenP (role_banner role)
     (thenP (assertP (p_count params = 1))
     (thenP (assertP (p_length params = 6))
     (thenP (assertP (p_verb params = Write))
     (bindP (open_connection sys cid0 role params) (\<lambda>(rv, listen_id, cid).
      if rv \<noteq> 0 then ret rv else
      bindP (control_buffers sys wc_size clock_rate role cid params) (\<lambda>rv.
      thenP (log_debug ''Disconnecting\<newline>'')
     (thenP (close_connection sys role cid listen_id)
     (ret rv)))))))))"

definition control_main :: "'e sys \<Rightarrow> u64 \<Rightarrow> cm_id \<Rightarrow> string list \<Rightarrow> ('e world, int) prog" where
  "control_main sys wc_size cid0 argv =
     bindP (parse_args sys argv) (\<lambda>params.
     thenP (print_parameters params)
    (bindP (dccs_init sys) (\<lambda>clock_rate.
     control_run sys wc_size cid0 clock_rate params)))"


section \<open>Waiting for a slot\<close>

text \<open>Reading the clock over and over gives a value of at least the target at last.\<close>

inductive clock_reaches :: "'e sys \<Rightarrow> u64 \<Rightarrow> 'e \<Rightarrow> mem \<Rightarrow> bool" for sys target where
  reached: "clock_gettime (libc sys) e m = ((s, ns), e', m') \<Longrightarrow> target \<le> s * BILLION + ns \<Longrightarrow>
     clock_reaches sys target e m"
| later: "clock_gettime (libc sys) e m = ((s, ns), e', m') \<Longrightarrow> s * BILLION + ns < target \<Longrightarrow>
     clock_reaches sys target e' m' \<Longrightarrow> clock_reaches sys target e m"

text \<open>What is observed of the control plane: clock readings and signals.\<close>

datatype observation = Tick u64 | Signal int

fun observe :: "event \<Rightarrow> observation list" where
  "observe (Ev_clock s ns) = [Tick (s * BILLION + ns)]"
| "observe (Ev_post_write i a n mr fl ra rk rv) = [Signal rv]"
| "observe _ = []"

definition observed :: "event \<Rightarrow> bool" where
  "observed e \<longleftrightarrow> observe e \<noteq> []"

definition observations :: "event list \<Rightarrow> observation list" where
  "observations es = concat (map observe es)"

lemma observations_simps [simp]:
  "observations [] = []" "observations (e # es) = observe e @ observations es"
  "observations (es @ fs) = observations es @ observations fs"
  by (simp_all add: observations_def)

lemma observe_log [simp]: "observe (log_entry level fmt) = []" "observe (log_entry_args level fmt args) = []"
  by (simp_all add: log_entry_def log_entry_args_def)

lemma observations_visible: "observations es = observations (filter observed es)"
  by (induction es) (auto simp: observed_def)

definition ticks_before :: "u64 \<Rightarrow> observation list \<Rightarrow> bool" where
  "ticks_before target os \<longleftrightarrow> (\<forall>b \<in> set os. \<exists>t. b = Tick t \<and> t < target)"

lemma wait_until_wp:
  "wp (wait_until sys target) (\<lambda>_ w'. \<exists>early t. observations (trace w') = observations (trace w) @ early @ [Tick t] \<and>
     ticks_before target early \<and> target \<le> t) (\<lambda>_ _. False) w"
  unfolding wait_until_def
proof (rule wp_loopP [where I = "\<lambda>_ w'. \<exists>early. observations (trace w') = observations (trace w) @ early \<and>
    ticks_before target early"])
  fix s and w1 :: "'a world"
  assume "\<exists>early. observations (trace w1) = observations (trace w) @ early \<and> ticks_before target early"
  then show "wp (bindP (get_cycles sys) (\<lambda>t. ret (if t < target then Inr () else Inl ())))
      (\<lambda>x w'. case x of
          Inl a \<Rightarrow> \<exists>early t. observations (trace w') = observations (trace w) @ early @ [Tick t] \<and>
            ticks_before target early \<and> target \<le> t
        | Inr s' \<Rightarrow> \<exists>early. observations (trace w') = observations (trace w) @ early \<and> ticks_before target early)
      (\<lambda>_ _. False) w1"
    by (auto simp: get_cycles_def wp_simps ticks_before_def not_less split: prod.split)
qed (simp add: ticks_before_def)

lemma wait_until_unfold:
  "wait_until sys target = bindP (get_cycles sys) (\<lambda>t. if t < target then wait_until sys target else ret ())"
  unfolding wait_until_def
  by (subst loopP_unfold) (auto simp: fun_eq_iff bindP_def ret_def split: option.split res.split)

lemma wait_until_ends:
  "clock_reaches sys target (env w) (mem w) \<Longrightarrow> wait_until sys target w \<noteq> None"
proof (induction "env w" "mem w" arbitrary: w rule: clock_reaches.induct)
  case (reached s ns e' m' w)
  then show ?case
    by (subst wait_until_unfold) (simp add: get_cycles_def bindP_def ext_call_def ret_def leD)
next
  case (later s ns e' m' w)
  let ?w2 = "w\<lparr>env := e', mem := m', trace := trace w @ [Ev_clock s ns]\<rparr>"
  have "wait_until sys target ?w2 \<noteq> None" by (rule later(4)) simp_all
  with later(1,2) show ?case
    by (subst wait_until_unfold) (simp add: get_cycles_def bindP_def ext_call_def ret_def)
qed

lemma wait_until_needs:
  assumes "wait_until sys target w = Some (r, w')"
  shows "clock_reaches sys target (env w) (mem w)"
proof (rule ccontr)
  assume never: "\<not> clock_reaches sys target (env w) (mem w)"
  have "wp (wait_until sys target) (\<lambda>_ _. False) (\<lambda>_ _. False) w"
    unfolding wait_until_def
    by (rule wp_loopP [where I = "\<lambda>_ w. \<not> clock_reaches sys target (env w) (mem w)"])
      (use never in \<open>auto simp: get_cycles_def wp_simps not_less split: prod.split intro: clock_reaches.intros\<close>)
  with assms show False by (cases r) (simp_all add: wp_def)
qed

section \<open>The machine of slots\<close>

text \<open>
  The specification of the server: wait for the end of the slot, stamp, signal, stamp again.  The
  argument of a state is the target of the slot it is in.
\<close>

datatype slot = Start | Waiting u64 | Due u64 | Stamped u64 | Sent u64

inductive slot_step :: "slot \<Rightarrow> observation \<Rightarrow> slot \<Rightarrow> bool" where
  begin_slot: "slot_step Start (Tick t) (Waiting (t + SLOT_NS))"
| early: "t < target \<Longrightarrow> slot_step (Waiting target) (Tick t) (Waiting target)"
| due: "target \<le> t \<Longrightarrow> slot_step (Waiting target) (Tick t) (Due target)"
| stamp: "slot_step (Due target) (Tick t) (Stamped target)"
| signal: "slot_step (Stamped target) (Signal rv) (Sent target)"
| complete: "slot_step (Sent target) (Tick t) (Waiting (target + SLOT_NS))"

inductive_cases slot_signalE: "slot_step q (Signal rv) q'"
inductive_simps slot_tick_simps:
  "slot_step Start (Tick t) q" "slot_step (Due target) (Tick t) q" "slot_step (Sent target) (Tick t) q"

inductive slots :: "slot \<Rightarrow> observation list \<Rightarrow> slot \<Rightarrow> bool" for q where
  none: "slots q [] q"
| snoc: "slots q os q1 \<Longrightarrow> slot_step q1 b q2 \<Longrightarrow> slots q (os @ [b]) q2"

lemma slots_append: "slots q1 bs q2 \<Longrightarrow> slots q as q1 \<Longrightarrow> slots q (as @ bs) q2"
proof (induction rule: slots.induct)
  case (snoc os q1 b q2)
  then show ?case using slots.snoc [of q "as @ os"] by simp
qed simp

lemma slots_early: "ticks_before target os \<Longrightarrow> slots (Waiting target) os (Waiting target)"
  by (induction os rule: rev_induct) (auto simp: ticks_before_def intro: slots.intros slot_step.intros)

lemma slots_wait:
  "ticks_before target os \<Longrightarrow> target \<le> t \<Longrightarrow> slots (Waiting target) (os @ [Tick t]) (Due target)"
  by (rule slots.snoc [OF slots_early]) (auto intro: slot_step.intros)

inductive_cases slots_snocE: "slots q (os @ [b]) q'"

text \<open>The invariant of the machine: the target counts the signals, and past the wait it has been reached.\<close>

definition is_signal :: "observation \<Rightarrow> bool" where
  "is_signal b = (case b of Signal _ \<Rightarrow> True | Tick _ \<Rightarrow> False)"

definition signals :: "observation list \<Rightarrow> nat" where
  "signals os = length (filter is_signal os)"

lemma signals_simps [simp]:
  "signals [] = 0" "signals (os @ [Tick t]) = signals os" "signals (os @ [Signal rv]) = Suc (signals os)"
  by (simp_all add: signals_def is_signal_def)

definition slot_end :: "u64 \<Rightarrow> nat \<Rightarrow> u64" where
  "slot_end t0 k = t0 + of_nat k * SLOT_NS"

fun slot_inv :: "observation list \<Rightarrow> slot \<Rightarrow> bool" where
  "slot_inv os Start = (os = [])"
| "slot_inv os (Waiting target) = (\<exists>t0 xs. os = Tick t0 # xs \<and> target = slot_end t0 (Suc (signals os)))"
| "slot_inv os (Due target) = (\<exists>t0 xs c. os = Tick t0 # xs @ [Tick c] \<and> target = slot_end t0 (Suc (signals os)) \<and> target \<le> c)"
| "slot_inv os (Stamped target) = (\<exists>t0 xs c t. os = Tick t0 # xs @ [Tick c, Tick t] \<and>
     target = slot_end t0 (Suc (signals os)) \<and> target \<le> c)"
| "slot_inv os (Sent target) = (\<exists>t0 xs. os = Tick t0 # xs \<and> target = slot_end t0 (signals os))"

lemma slot_inv_step: "slot_step q b q' \<Longrightarrow> slot_inv os q \<Longrightarrow> slot_inv (os @ [b]) q'"
  by (induction rule: slot_step.induct) (auto simp: slot_end_def algebra_simps signals_def is_signal_def)

lemma slots_inv: "slots Start os q \<Longrightarrow> slot_inv os q"
  by (induction rule: slots.induct) (auto intro: slot_inv_step)

lemma slots_prefix: "slots q (xs @ ys) q' \<Longrightarrow> \<exists>q1. slots q xs q1"
proof (induction ys arbitrary: q' rule: rev_induct)
  case (snoc y ys)
  from snoc.prems have "slots q ((xs @ ys) @ [y]) q'" by simp
  then show ?case by (elim slots_snocE) (use snoc.IH in auto)
qed auto

text \<open>In a run of the machine a signal comes after a clock reading at or after the end of its slot.\<close>

lemma slots_paced:
  assumes "slots Start (xs @ Signal rv # ys) q"
  obtains t0 zs c t where "xs = Tick t0 # zs @ [Tick c, Tick t]" and "slot_end t0 (Suc (signals xs)) \<le> c"
proof -
  obtain q2 where "slots Start (xs @ [Signal rv]) q2"
    using slots_prefix [of Start "xs @ [Signal rv]" ys q] assms by auto
  then obtain q1 where "slots Start xs q1" "slot_step q1 (Signal rv) q2" by (auto elim: slots_snocE)
  then obtain target where "slots Start xs (Stamped target)" by (auto elim: slot_signalE)
  from slots_inv [OF this] show ?thesis using that by auto
qed


section \<open>What is not observed\<close>

abbreviation calm :: "('e world, 'a) prog \<Rightarrow> bool" where
  "calm \<equiv> hides observed"

lemma observed_simps [simp]: "observe e = [] \<Longrightarrow> \<not> observed e"
  by (simp add: observed_def)

lemma calm_heap:
  "calm (call_malloc sys n)" "calm (call_calloc sys k n)" "calm (call_memalign sys a n)" "calm (call_free sys p)"
  "calm (free_nonnull sys p)"
  unfolding call_malloc_def call_calloc_def call_memalign_def call_free_def free_nonnull_def
  by (intro hides_intros; simp split: prod.split)+

lemma calm_ops:
  "calm (dccs_reg_msgs sys cid a n)" "calm (dccs_reg_read sys cid a n)"
  "calm (dccs_reg_write sys cid a n)" "calm (dccs_dereg_mr sys mr)"
  "calm (dccs_rdma_send_with_flags sys cid a n mr fl)" "calm (dccs_rdma_recv sys cid a n mr)"
  unfolding dccs_reg_msgs_def dccs_reg_read_def dccs_reg_write_def dccs_dereg_mr_def reg_call_def
    dccs_rdma_send_with_flags_def dccs_rdma_recv_def
  by (intro hides_intros; simp)+

lemma calm_conn:
  "calm (dccs_connect sys cid0 server port tos)" "calm (dccs_listen sys l0 cid0 port)"
  "calm (dccs_client_disconnect sys i)" "calm (dccs_server_disconnect sys i l)"
  unfolding dccs_connect_def dccs_listen_def dccs_client_disconnect_def dccs_server_disconnect_def
    conn_calls call_listen_def call_get_request_def call_accept_def call_disconnect_def
  by (intro hides_intros; simp split: prod.split)+

lemma calm_wc_check:
  "calm a \<Longrightarrow> calm b \<Longrightarrow> calm c \<Longrightarrow>
   calm (case x of All_success \<Rightarrow> a | Failed_wc \<Rightarrow> b | Wc_out_of_bounds \<Rightarrow> c)"
  by (cases x) simp_all

lemma calm_poll: "calm (call_poll sys q num)"
  unfolding call_poll_def by (intro hides_intros; simp split: prod.split)

lemma calm_retry: "calm m \<Longrightarrow> calm (retry_zero m)"
  unfolding retry_zero_def by (intro hides_intros)

lemma calm_comp: "calm (dccs_rdma_send_comp sys cid num arr)" "calm (dccs_rdma_recv_comp sys cid wc)"
  unfolding dccs_rdma_send_comp_def dccs_rdma_recv_comp_def send_comp_round_def add_int_def Let_def
  by (intro hides_intros calm_wc_check calm_retry calm_poll; simp)+

lemma calm_exchange:
  "calm (get_remote_mr_info sys cid reqs cnt)" "calm (send_local_mr_info sys cid reqs cnt)"
  "calm (send_message sys cid a n)" "calm (recv_message sys cid a n)"
  unfolding get_remote_mr_info_def send_local_mr_info_def send_message_def recv_message_def
    recv_infos_def load_info_def send_infos_def store_info_def Let_def dccs_rdma_send_def
  by (intro hides_intros calm_ops calm_comp calm_retry calm_heap; simp)+

lemma calm_buffers:
  "calm (allocate_buffer sys cid reqs params)" "calm (deallocate_buffer sys reqs params)"
proof -
  have "calm (malloc_random sys n)" for n
    unfolding malloc_random_def fill_buffer_def by (intro hides_intros calm_heap; simp)
  moreover have "calm (register_for sys verb cid b bl mr)" for verb b bl mr
    unfolding register_for_def by (cases verb; simp; intro hides_intros calm_ops; simp)
  ultimately show "calm (allocate_buffer sys cid reqs params)" "calm (deallocate_buffer sys reqs params)"
    unfolding allocate_buffer_def alloc_step_def alloc_group_def Let_def deallocate_buffer_def dealloc_step_def
    by (intro hides_intros calm_ops calm_heap; simp)+
qed

lemma calm_reports:
  "calm (print_latency_report_raw sys clock_rate starts ends len first verbose rc rl)"
  "calm (print_sha1sum sys requests cnt)"
  unfolding print_latency_report_raw_def print_sha1sum_def report_summary_def print_raw_latencies_def collect_step_def
    raw_line_def report_step_def array_get_def percentile_def sha1sum_array_def bin_to_hex_string_def
    add_int_def Let_def
  by (intro hides_intros calm_heap; simp)+

lemma calm_control:
  "calm (role_banner role)" "calm (assertP b)" "calm (open_connection sys cid0 role params)"
  "calm (close_connection sys role cid listen_id)" "calm (calloc_requests sys params)"
  "calm (fill_signal sys params reqs n x)" "calm (control_exchange sys role cid ins outs params)"
  "calm (control_arrays sys role params)" "calm (end_message sys sender cid)"
  "calm (control_report sys clock_rate role params ins outs l)"
  unfolding role_banner_def assertP_def open_connection_def close_connection_def calloc_requests_def fill_signal_def
    control_exchange_def control_get_def control_send_def control_arrays_def end_message_def control_report_def
  by (intro hides_intros calm_conn calm_heap calm_exchange calm_reports; simp)+


section \<open>The server runs the machine of slots\<close>

text \<open>
  From state \<open>q\<close> of the machine, what a program adds to the observations is a run of the machine,
  however the program ends; \<open>R\<close> relates its result and the state reached.
\<close>

definition follows :: "slot \<Rightarrow> ('e world, 'a) prog \<Rightarrow> ('a \<Rightarrow> slot \<Rightarrow> bool) \<Rightarrow> bool" where
  "follows q m R \<longleftrightarrow> (\<forall>w. wp m
     (\<lambda>a w'. \<exists>os q'. observations (trace w') = observations (trace w) @ os \<and> slots q os q' \<and> R a q')
     (\<lambda>_ w'. \<exists>os q'. observations (trace w') = observations (trace w) @ os \<and> slots q os q') w)"

lemma followsD:
  "follows q m R \<Longrightarrow> wp m
     (\<lambda>a w'. \<exists>os q'. observations (trace w') = observations (trace w) @ os \<and> slots q os q' \<and> R a q')
     (\<lambda>_ w'. \<exists>os q'. observations (trace w') = observations (trace w) @ os \<and> slots q os q') w"
  by (simp add: follows_def)

lemma follows_bindP:
  assumes m: "follows q m R" and f: "\<And>a q'. R a q' \<Longrightarrow> follows q' (f a) S"
  shows "follows q (bindP m f) S"
  unfolding follows_def wp_bindP
proof
  fix w :: "'a world"
  show "wp m (\<lambda>a. wp (f a)
      (\<lambda>a w'. \<exists>os q'. observations (trace w') = observations (trace w) @ os \<and> slots q os q' \<and> S a q')
      (\<lambda>_ w'. \<exists>os q'. observations (trace w') = observations (trace w) @ os \<and> slots q os q'))
    (\<lambda>_ w'. \<exists>os q'. observations (trace w') = observations (trace w) @ os \<and> slots q os q') w"
  proof (rule wp_mono [OF followsD [OF m]], clarify)
    fix a and w1 :: "'a world" and os q1
    assume 1: "observations (trace w1) = observations (trace w) @ os" "slots q os q1" "R a q1"
    have app: "\<exists>os q'. observations (trace w') = observations (trace w) @ os \<and> slots q os q' \<and> T q'"
      if "observations (trace w') = observations (trace w1) @ os2 \<and> slots q1 os2 q2 \<and> T q2" for w' :: "'a world" and os2 q2 T
      by (rule exI [of _ "os @ os2"], rule exI [of _ q2]) (use that 1(1) slots_append [OF _ 1(2)] in simp)
    show "wp (f a)
        (\<lambda>a w'. \<exists>os q'. observations (trace w') = observations (trace w) @ os \<and> slots q os q' \<and> S a q')
        (\<lambda>_ w'. \<exists>os q'. observations (trace w') = observations (trace w) @ os \<and> slots q os q') w1"
      by (rule wp_mono [OF followsD [OF f [OF 1(3)]]]) (use app [where T = "\<lambda>_. True"] app in blast)+
  qed blast
qed

lemma follows_thenP: "follows q m R \<Longrightarrow> (\<And>a q'. R a q' \<Longrightarrow> follows q' n S) \<Longrightarrow> follows q (thenP m n) S"
  unfolding thenP_def by (rule follows_bindP)

lemma follows_ret: "R a q \<Longrightarrow> follows q (ret a) R"
  by (auto simp: follows_def wp_ret intro: slots.none)

lemma follows_halt: "follows q (halt s) R"
  by (auto simp: follows_def wp_halt intro: slots.none)

lemma follows_if: "(b \<Longrightarrow> follows q m R) \<Longrightarrow> (\<not> b \<Longrightarrow> follows q n R) \<Longrightarrow> follows q (if b then m else n) R"
  by simp

lemma follows_case_prod:
  "(\<And>a b. x = (a, b) \<Longrightarrow> follows q (f a b) R) \<Longrightarrow> follows q (case x of (a, b) \<Rightarrow> f a b) R"
  by (cases x) simp

lemma follows_calm:
  assumes "calm m" and "\<And>a. R a q"
  shows "follows q m R"
  unfolding follows_def
proof
  fix w :: "'a world"
  have eq: "observations (trace w') = observations (trace w) @ [] \<and> slots q [] q"
    if "filter observed (trace w') = filter observed (trace w)" for w' :: "'a world"
    using that observations_visible [of "trace w"] observations_visible [of "trace w'"] by (simp add: slots.none)
  show "wp m (\<lambda>a w'. \<exists>os q'. observations (trace w') = observations (trace w) @ os \<and> slots q os q' \<and> R a q')
     (\<lambda>_ w'. \<exists>os q'. observations (trace w') = observations (trace w) @ os \<and> slots q os q') w"
    by (rule wp_mono [OF hidesD [OF assms(1)]]) (use eq assms(2) in blast)+
qed

text \<open>A calm program between two observed ones.\<close>

lemma follows_bind_calm: "calm m \<Longrightarrow> (\<And>a. follows q (f a) S) \<Longrightarrow> follows q (bindP m f) S"
  by (rule follows_bindP [OF follows_calm [where R = "\<lambda>_ q'. q' = q"]]) auto

lemma follows_then_calm: "calm m \<Longrightarrow> follows q n S \<Longrightarrow> follows q (thenP m n) S"
  unfolding thenP_def by (rule follows_bind_calm)

lemma follows_forP:
  "(\<And>i s q. i \<in> set is \<Longrightarrow> I s q \<Longrightarrow> follows q (body i s) I) \<Longrightarrow> I s q \<Longrightarrow> follows q (forP is body s) I"
proof (induction "is" arbitrary: s q)
  case Nil
  then show ?case by (simp add: follows_ret)
next
  case (Cons i "is")
  then show ?case by (auto intro!: follows_bindP [of q "body i s" I])
qed

lemma follows_get_cycles:
  "(\<And>t. \<exists>q'. slot_step q (Tick t) q' \<and> R t q') \<Longrightarrow> follows q (get_cycles sys) R"
  unfolding follows_def get_cycles_def
  by (auto simp: wp_simps split: prod.split) (metis append_Nil slots.none slots.snoc)

lemma follows_wait: "follows (Waiting target) (wait_until sys target) (\<lambda>_ q. q = Due target)"
  unfolding follows_def
  by (intro allI wp_mono [OF wait_until_wp]) (use slots_wait in fastforce)+

lemma follows_write:
  "follows (Stamped target) (dccs_rdma_write_with_flags sys cid a n mr ra rk fl) (\<lambda>_ q. q = Sent target)"
  unfolding follows_def dccs_rdma_write_with_flags_def
  by (auto simp: wp_simps split: prod.split)
    (metis append_Nil slots.none slots.snoc signal)+


lemma follows_signal:
  "follows (Due target) (control_signal sys ROLE_SERVER cid outs n i (False, rv, start)) (\<lambda>_ q. q = Sent target)"
  unfolding control_signal_def prod.case Let_def
  by (simp, rule follows_bindP [OF follows_get_cycles [where R = "\<lambda>_ q. q = Stamped target"]])
    (auto simp: slot_tick_simps intro!: follows_if follows_halt follows_bindP [OF follows_write] follows_then_calm
      follows_ret hides_log)

text \<open>Between two rounds: the loop is left, or the machine waits for the end of the next slot.\<close>

definition between :: "control_locals \<Rightarrow> slot \<Rightarrow> bool" where
  "between l q \<longleftrightarrow> c_broken l \<or> q = Waiting (c_target l + SLOT_NS)"

lemma follows_complete:
  "\<not> c_broken l \<Longrightarrow> c_target l = target \<Longrightarrow> follows (Sent target) (control_complete sys cid params n l) between"
  unfolding control_complete_def
  by (rule follows_bind_calm [OF calm_retry [OF calm_comp(1)]], rule follows_case_prod, rule follows_if)
    (auto simp: between_def slot_tick_simps intro!: follows_then_calm follows_ret hides_log follows_if follows_halt
      follows_bindP [OF follows_get_cycles [where R = "\<lambda>_ q. q = Waiting (target + SLOT_NS)"]])

lemma calm_debug: "calm (whenP b (log_debug fmt))"
  by (intro hides_intros; simp)

lemma follows_round:
  assumes "between l q" and "p_count params = 1"
  shows "follows q (control_round sys ROLE_SERVER cid params outs n l) between"
proof -
  have one: "[0..<unat (p_count params)] = [0]" using assms(2) by simp
  let ?t = "c_target l + SLOT_NS"
  show ?thesis
  proof (cases "c_broken l")
    case True
    then show ?thesis using assms(1) by (simp add: control_round_def follows_ret)
  next
    case False
    then have q: "q = Waiting ?t" using assms(1) by (simp add: between_def)
    have signals: "follows (Due ?t) (forP [0..<unat (p_count params)] (control_signal sys ROLE_SERVER cid outs n)
        (False, c_rv l, c_start l)) (\<lambda>_ q. q = Sent ?t)"
      unfolding one forP.simps by (rule follows_bindP [OF follows_signal]) (simp add: follows_ret)
    show ?thesis
      unfolding q control_round_def if_not_P [OF False] Let_def
      by (rule follows_if follows_halt follows_then_calm [OF calm_debug] follows_thenP [OF follows_wait]
            follows_bindP [OF signals] | erule ssubst)+
        (auto simp: False intro!: follows_complete)
  qed
qed

lemma follows_rounds:
  assumes "p_count params = 1"
  shows "follows Start (control_rounds sys clock_rate ROLE_SERVER cid params wc ins outs rv) (\<lambda>_ _. True)"
  unfolding control_rounds_def Let_def
proof (rule follows_bindP [OF follows_get_cycles [where R = "\<lambda>t q. q = Waiting (t + SLOT_NS)"]])
  fix t q assume q: "q = Waiting (t + SLOT_NS)"
  let ?stamps = "if ROLE_SERVER = ROLE_SERVER then replicate (unat (p_repeat params)) 0 else []"
  let ?l = "\<lparr>c_broken = False, c_rv = rv, c_target = t, c_wc = wc, c_start = ?stamps, c_end = ?stamps\<rparr>"
  have "follows q (forP [0..<unat (p_repeat params)] (control_round sys ROLE_SERVER cid params outs) ?l) between"
    by (rule follows_forP [where I = between]) (simp_all add: follows_round assms between_def q)
  then show "follows q (bindP (forP [0..<unat (p_repeat params)] (control_round sys ROLE_SERVER cid params outs) ?l) (\<lambda>l.
      bindP (end_message sys (ROLE_SERVER = ROLE_SERVER) cid) (\<lambda>rv.
      if rv < 0 then ret rv else
      thenP (control_report sys clock_rate ROLE_SERVER params ins outs l) (ret rv)))) (\<lambda>_ _. True)"
    by (rule follows_bindP) (intro follows_bind_calm follows_if follows_ret follows_then_calm calm_control TrueI)
qed (simp add: slot_tick_simps)

lemma calm_fill_loop: "calm (forP is (fill_signal sys params outs) ())"
  by (intro hides_intros calm_control)

lemma calm_out_line: "calm (forP is (\<lambda>n _. if length (outs :: dccs_request list) \<le> n then halt (Fault Out_of_bounds)
    else log_debug fmt) ())"
  by (intro hides_intros; simp)

lemma follows_session:
  assumes "p_count params = 1"
  shows "follows Start (control_session sys clock_rate ROLE_SERVER cid params wc ins outs) (\<lambda>_ _. True)"
  unfolding control_session_def
  by (intro follows_bind_calm [OF calm_control(7)] follows_case_prod follows_if follows_ret TrueI
      follows_then_calm [OF calm_out_line] follows_then_calm [OF hides_log(3)] follows_bind_calm [OF calm_control(8)]
      follows_bindP [OF follows_rounds [OF assms]]) simp_all

lemma calm_release:
  "calm (whenP b (thenP (free_nonnull sys p) (free_nonnull sys q)))"
  by (intro hides_intros calm_heap)

lemma follows_prepared:
  assumes "p_count params = 1"
  shows "follows Start (control_prepared sys wc_size clock_rate ROLE_SERVER cid params ins outs) (\<lambda>_ _. True)"
  unfolding control_prepared_def
  by (intro follows_then_calm [OF hides_log(3)] follows_then_calm [OF calm_fill_loop] follows_then_calm [OF calm_release]
      follows_then_calm [OF calm_buffers(2)] follows_then_calm [OF calm_heap(5)] follows_bind_calm [OF calm_heap(2)]
      follows_bindP [OF follows_session [OF assms]] follows_case_prod follows_ret TrueI) simp_all

lemma follows_buffers:
  assumes "p_count params = 1"
  shows "follows Start (control_buffers sys wc_size clock_rate ROLE_SERVER cid params) (\<lambda>_ _. True)"
  unfolding control_buffers_def
  by (intro follows_then_calm [OF hides_log(3)] follows_then_calm [OF hides_log(5)]
      follows_bind_calm [OF calm_control(5)] follows_bind_calm [OF calm_buffers(1)]
      follows_prepared [OF assms] follows_case_prod follows_if follows_ret TrueI) simp_all

lemma follows_assertP: "(b \<Longrightarrow> follows q n R) \<Longrightarrow> follows q (thenP (assertP b) n) R"
  by (rule follows_thenP [where R = "\<lambda>_ q'. b \<and> q' = q"])
    (auto simp: assertP_def whenP_def intro: follows_halt follows_ret)

lemma follows_run:
  assumes "p_server params = None"
  shows "follows Start (control_run sys wc_size cid0 clock_rate params) (\<lambda>_ _. True)"
proof -
  have role: "role_of params = ROLE_SERVER" using assms by (simp add: role_of_def)
  show ?thesis
    unfolding control_run_def role Let_def
    by (intro follows_then_calm [OF calm_control(1)] follows_assertP follows_then_calm [OF hides_log(3)]
        follows_then_calm [OF calm_control(4)] follows_bind_calm [OF calm_control(3)] follows_bindP [OF follows_buffers]
        follows_case_prod follows_if follows_ret TrueI) simp_all
qed


section \<open>Properties\<close>

text \<open>
  C37. Waiting for the end of a slot ends exactly when reading the clock over and over gives a value of at least
  the target at last; there is no timeout.  If it ends, it has read earlier values first and then one
  that is not before the target, and it does not fault.
\<close>

theorem wait_until_ends_iff_reached:
  "(wait_until sys target w \<noteq> None \<longleftrightarrow> clock_reaches sys target (env w) (mem w)) \<and>
   wp (wait_until sys target) (\<lambda>_ w'. \<exists>early t. observations (trace w') = observations (trace w) @ early @ [Tick t] \<and>
     ticks_before target early \<and> target \<le> t) (\<lambda>_ _. False) w"
  using wait_until_wp wait_until_ends [of sys target w] wait_until_needs [of sys target w] by auto

end
