(* ===== verification/Control_Runs.thy ===== *)
theory Control_Runs
  imports Control_Main
begin

text \<open>
  Runs of the control-plane program (theory \<open>Control_Main\<close>): what they leave on the ledger of resources, when
  they end and without a fault, and the properties of whole runs that follow, among them the pacing of the
  signals and the division by zero of short runs.
\<close>

section \<open>The ledger of a run\<close>

lemma trades_free_nonnull: "trades (P + heap_block p) (free_nonnull sys p) (\<lambda>_. P)"
proof (cases "p = 0")
  case False
  have "trades (P + heap_block p) (call_free sys p) (\<lambda>_. P)"
    by (rule trades_conseq [OF trades_call_free]) simp_all
  with False show ?thesis by (simp add: free_nonnull_def whenP_def)
qed (simp add: free_nonnull_def whenP_def trades_ret)

lemma trades_control_exchange: "trades P (control_exchange sys role cid ins outs params) (\<lambda>_. P)"
  unfolding control_exchange_def control_get_def control_send_def
  by (rule trades_if trades_thenP trades_bindP trades_log trades_get_remote_mr_info
      trades_send_local_mr_info trades_case_prod trades_whenP trades_ret refl)+

lemma gives_control_exchange:
  "gives (control_exchange sys role cid ins outs params) (\<lambda>(rv, outs'). same_buffers outs' outs)"
proof -
  have get: "gives (control_get sys cid outs params) (\<lambda>(rv, outs'). same_buffers outs' outs)"
    unfolding control_get_def
    by (rule gives_next gives_bindP [OF gives_get_remote_mr_info] gives_ret gives_case_prod | clarsimp)+
  show ?thesis
    unfolding control_exchange_def
    by (rule gives_if gives_bindP [OF get] gives_ret gives_case_prod get gives_any | clarsimp)+
qed

lemma trades_emit_log: "trades P (emit (Ev_log a b c)) (\<lambda>_. P)"
  by (rule trades_emit) simp_all

lemma trades_control_arrays:
  "trades P (control_arrays sys role params) (\<lambda>(ok, start, fin). P + heap_block start + heap_block fin)"
  unfolding control_arrays_def
  by (rule trades_if trades_bindP trades_thenP trades_call_calloc trades_emit_log trades_ret | simp)+

lemma gives_control_arrays:
  "gives (control_arrays sys role params) (\<lambda>(ok, start, fin). role \<noteq> ROLE_SERVER \<longrightarrow> start = 0 \<and> fin = 0)"
  unfolding control_arrays_def
  by (rule gives_if gives_any gives_next gives_ret | simp)+

lemma trades_wait_until: "trades P (wait_until sys target) (\<lambda>_. P)"
  unfolding wait_until_def get_cycles_def
  by (rule trades_loopP trades_bindP trades_neutral_call trades_case_prod trades_ret | simp split: prod.split)+

lemma trades_get_cycles: "trades P (get_cycles sys) (\<lambda>_. P)"
  unfolding get_cycles_def
  by (rule trades_bindP trades_neutral_call trades_case_prod trades_ret refl | simp split: prod.split)+

lemma trades_control_round: "trades P (control_round sys role cid params outs n l) (\<lambda>_. P)"
proof -
  have signal: "trades P (control_signal sys role cid outs n i st) (\<lambda>_. P)" for i st
    unfolding control_signal_def Let_def
    by (rule trades_case_prod trades_if trades_ret trades_halt trades_bindP [OF trades_get_cycles] refl
        trades_bindP [OF post_write.keeps] trades_thenP trades_log)+
  have complete: "trades P (control_complete sys cid params n l) (\<lambda>_. P)" for l
    unfolding control_complete_def
    by (rule trades_bindP [OF trades_retry_zero [OF trades_send_comp]] trades_case_prod trades_if trades_ret trades_halt
        trades_bindP [OF trades_get_cycles] trades_thenP trades_log refl)+
  show ?thesis
    unfolding control_round_def Let_def
    by (rule trades_if trades_ret trades_halt trades_thenP trades_whenP trades_log trades_wait_until trades_case_prod
        trades_bindP [OF trades_forP [OF signal]] complete refl)+
qed

lemma trades_control_rounds: "trades P (control_rounds sys clock_rate role cid params wc ins outs rv) (\<lambda>_. P)"
proof -
  have report: "trades P (control_report sys clock_rate role params ins outs l) (\<lambda>_. P)" for l
    unfolding control_report_def
    by (rule trades_if trades_halt trades_thenP trades_print_latency_report_raw trades_log trades_print_sha1sum refl)+
  show ?thesis
    unfolding control_rounds_def Let_def
    by (rule trades_bindP [OF trades_get_cycles] trades_bindP [OF trades_forP [OF trades_control_round]]
        trades_bindP [OF trades_end_message] trades_if trades_ret trades_thenP [OF report] refl)+
qed


text \<open>The resources that a session hands on: the two arrays of time stamps.\<close>

lemma trades_control_session:
  "trades P (control_session sys clock_rate role cid params wc ins outs)
     (\<lambda>(rv, outs', start, fin). P + heap_block start + heap_block fin)"
  unfolding control_session_def
  by (rule trades_bindP [OF trades_control_exchange], rule trades_case_prod, rule trades_if)
    (rule trades_ret trades_thenP trades_log trades_forP trades_if trades_halt trades_bindP [OF trades_control_arrays]
      trades_split trades_bindP [OF trades_control_rounds] refl | simp)+

lemma gives_control_session:
  "gives (control_session sys clock_rate role cid params wc ins outs) (\<lambda>(rv, outs', start, fin).
     same_buffers outs' outs \<and> (role \<noteq> ROLE_SERVER \<longrightarrow> start = 0 \<and> fin = 0))"
  unfolding control_session_def
  by (rule gives_bindP [OF gives_control_exchange], rule gives_case_prod, rule gives_if, rule gives_ret, simp,
      rule gives_next, rule gives_next, rule gives_bindP [OF gives_control_arrays], rule gives_case_prod)
    (auto intro!: gives_if gives_ret gives_any)

abbreviation groups :: "dccs_parameters \<Rightarrow> dccs_request list \<Rightarrow> resource multiset" where
  "groups params reqs \<equiv> group_resources (unat (p_count params div p_mr_count params)) reqs (unat (p_count params))"

text \<open>From the session to the end of the buffers everything but the two arrays of requests is given back.\<close>

lemma trades_control_tail:
  assumes "length ins = unat (p_count params)" and "length outs = unat (p_count params)"
  shows "trades (P + groups params ins + groups params outs + heap_block wc)
    (bindP (control_session sys clock_rate role cid params wcs ins outs) (\<lambda>(rv, outs, start, fin).
     thenP (whenP (role = ROLE_SERVER) (thenP (free_nonnull sys start) (free_nonnull sys fin)))
    (thenP (log_debug ''de-allocating buffer\<newline>'')
    (thenP (deallocate_buffer sys ins params)
    (thenP (deallocate_buffer sys outs params)
    (thenP (free_nonnull sys wc)
    (ret rv))))))) (\<lambda>_. P)"
proof -
  let ?H = "P + heap_block wc + groups params outs + groups params ins"
  have H: "P + groups params ins + groups params outs + heap_block wc = ?H" by (simp add: ac_simps)
  have stamps: "trades (?H + heap_block start + heap_block fin)
      (whenP (role = ROLE_SERVER) (thenP (free_nonnull sys start) (free_nonnull sys fin))) (\<lambda>_. ?H)"
    if "role \<noteq> ROLE_SERVER \<longrightarrow> start = 0 \<and> fin = 0" for start fin
  proof (rule trades_whenP)
    have "trades (?H + heap_block fin + heap_block start) (thenP (free_nonnull sys start) (free_nonnull sys fin)) (\<lambda>_. ?H)"
      by (rule trades_thenP [OF trades_free_nonnull trades_free_nonnull])
    then show "trades (?H + heap_block start + heap_block fin) (thenP (free_nonnull sys start) (free_nonnull sys fin)) (\<lambda>_. ?H)"
      by (simp add: ac_simps)
  qed (use that in simp)
  have session: "trades ?H (control_session sys clock_rate role cid params wcs ins outs)
      (\<lambda>(rv, outs', start, fin). ?H + heap_block start + heap_block fin)"
    by (rule trades_control_session)
  show ?thesis
    unfolding H
  proof (rule trades_bind_gives [OF session gives_control_session], clarify)
    fix rv :: int and outs' and start fin :: u64
    assume same: "same_buffers outs' outs" and st: "role \<noteq> ROLE_SERVER \<longrightarrow> start = 0 \<and> fin = 0"
    show "trades (?H + heap_block start + heap_block fin)
      (thenP (whenP (role = ROLE_SERVER) (thenP (free_nonnull sys start) (free_nonnull sys fin)))
      (thenP (log_debug ''de-allocating buffer\<newline>'')
      (thenP (deallocate_buffer sys ins params)
      (thenP (deallocate_buffer sys outs' params)
      (thenP (free_nonnull sys wc)
      (ret rv)))))) (\<lambda>_. P)"
      by (rule trades_thenP [OF stamps [OF st]] trades_thenP [OF trades_log(4)]
          trades_thenP [OF trades_deallocate [OF same_buffers_refl assms(1)]]
          trades_thenP [OF trades_deallocate [OF same assms(2)]] trades_thenP [OF trades_free_nonnull] trades_ret refl)+
  qed
qed


lemma trades_wp:
  assumes "trades P m G" and "gives m R" and "owns (L + P) w"
  shows "wp m (\<lambda>a w'. R a \<and> owns (L + G a) w') (\<lambda>_ _. True) w"
  by (rule wp_mono [OF wp_conj [OF gives_orD [OF assms(2)] assms(1) [unfolded trades_def, rule_format, OF assms(3)]]])
    simp_all

lemma calloc_requests_wp:
  assumes "owns (L + P) w"
  shows "wp (calloc_requests sys params) (\<lambda>(p, reqs) w'. (reqs = [] \<or> length reqs = unat (p_count params)) \<and>
     owns (L + (P + heap_block p)) w' \<and> trace w' = trace w @ [Ev_calloc (p_count params) sizeof_request p])
     (\<lambda>_ _. True) w"
  using assms unfolding calloc_requests_def call_calloc_def
  by (intro wp_intros) (auto simp: owns_def own_append ac_simps)

text \<open>Without an array of requests the allocation does not get past the first request.\<close>

lemma allocate_nothing:
  assumes "p_count params \<noteq> 0"
  shows "gives (allocate_buffer sys cid [] params) (\<lambda>_. False)"
proof -
  have N: "[0..<unat (p_count params)] = 0 # [1..<unat (p_count params)]"
    using assms by (simp add: upt_rec unat_gt_0)
  have "gives (alloc_step sys verb cid len c n (mr, b, [])) (\<lambda>_. False)" for verb len c n mr b
    unfolding alloc_step_def prod.case Let_def
    by (rule gives_if, rule gives_stop, rule gives_any, rule gives_case_prod, simp add: gives_stop)
  then show ?thesis
    unfolding allocate_buffer_def N forP.simps
    by (intro gives_if gives_stop gives_bindP [where S = "\<lambda>_. False"]) auto
qed

lemma allocate_requests_wp:
  assumes "p_count params div p_mr_count params \<noteq> 0" and "reqs = [] \<or> length reqs = unat (p_count params)"
    and "owns (L + P) w"
  shows "wp (allocate_buffer sys cid reqs params) (\<lambda>(rv, reqs') w'. rv = 0 \<and> length reqs' = unat (p_count params) \<and>
     owns (L + P + groups params reqs') w') (\<lambda>_ _. True) w"
proof (cases "length reqs = unat (p_count params)")
  case True
  show ?thesis
    by (rule wp_mono [OF trades_wp [OF trades_allocate_buffer [OF assms(1) True] gives_allocate_buffer [OF True] assms(3)]])
      (auto simp: add.assoc)
next
  case False
  then have reqs: "reqs = []" using assms(2) by simp
  have "p_count params \<noteq> 0" using assms(1) by auto
  then show ?thesis
    unfolding reqs by (rule wp_mono [OF gives_orD [OF allocate_nothing]]) simp_all
qed

lemma trades_control_prepared:
  fixes sys :: "'e sys"
  assumes "length ins = unat (p_count params)" and "length outs = unat (p_count params)"
  shows "trades (P + groups params ins + groups params outs)
    (control_prepared sys wc_size clock_rate role cid params ins outs) (\<lambda>_. P)"
proof -
  have fill: "trades Q (forP [0..<unat (p_count params)] (fill_signal sys params outs) ()) (\<lambda>_. Q)" for Q
    unfolding fill_signal_def
    by (rule trades_forP, rule trades_if [OF trades_halt], rule trades_if [OF trades_halt])
      (rule trades_thenP trades_write_mem refl)+
  show ?thesis
    unfolding control_prepared_def
    by (rule trades_bindP [OF trades_call_calloc], rule trades_thenP [OF fill], rule trades_control_tail [OF assms])
qed

lemma wp_allocated:
  fixes w :: "'e world"
  assumes "p_count params div p_mr_count params \<noteq> 0" and "owns (L + P) w"
    and rest: "\<And>p reqs es w'. length reqs = unat (p_count params) \<Longrightarrow> owns (L + P + heap_block p + groups params reqs) w' \<Longrightarrow>
      trace w' = trace w @ Ev_calloc (p_count params) sizeof_request p # es \<Longrightarrow> wp (f reqs) Q (\<lambda>_ _. True) w'"
  shows "wp (bindP (calloc_requests sys params) (\<lambda>(p, reqs).
     bindP (allocate_buffer sys cid reqs params) (\<lambda>(rv, reqs). if rv \<noteq> 0 then g rv else f reqs))) Q (\<lambda>_ _. True) w"
  unfolding wp_bindP
proof (rule wp_mono [OF calloc_requests_wp [OF assms(2)]], clarify)
  fix p and reqs :: "dccs_request list" and w1 :: "'e world"
  assume "reqs = [] \<or> length reqs = unat (p_count params)" and "owns (L + (P + heap_block p)) w1"
    and tr: "trace w1 = trace w @ [Ev_calloc (p_count params) sizeof_request p]"
  then show "wp (bindP (allocate_buffer sys cid reqs params) (\<lambda>(rv, reqs). if rv \<noteq> 0 then g rv else f reqs)) Q (\<lambda>_ _. True) w1"
    unfolding wp_bindP
    by (intro wp_mono [OF grows_wp [OF grows_buffers(1) allocate_requests_wp [OF assms(1)]]])
      (auto simp: add.assoc [symmetric] intro!: rest)
qed simp

lemma grows_control_prepared:
  "grows (control_prepared sys wc_size clock_rate role cid params ins outs)"
  unfolding control_prepared_def fill_signal_def control_session_def control_exchange_def control_get_def
    control_send_def control_arrays_def control_rounds_def control_round_def control_signal_def control_complete_def
    wait_until_def control_report_def end_message_def free_nonnull_def call_calloc_def call_free_def Let_def
  by (intro grows_rules grows_ops grows_exchange grows_buffers grows_reports)

text \<open>
  What a run that returns leaves behind: nothing when no connection was opened; else the two arrays of
  requests, the blocks that two of its calls of \<open>calloc\<close> returned; or the endpoint of a connection whose type
  of service could not be set.
\<close>

definition two_arrays :: "dccs_parameters \<Rightarrow> event list \<Rightarrow> u64 \<Rightarrow> u64 \<Rightarrow> bool" where
  "two_arrays params es p q \<longleftrightarrow> (\<exists>as bs cs. es =
     as @ Ev_calloc (p_count params) sizeof_request p # bs @ Ev_calloc (p_count params) sizeof_request q # cs)"

definition control_leftover ::
  "dccs_parameters \<Rightarrow> resource multiset \<Rightarrow> 'e world \<Rightarrow> int \<Rightarrow> 'e world \<Rightarrow> bool" where
  "control_leftover params L w rv w' \<longleftrightarrow> (\<exists>es. trace w' = trace w @ es \<and>
     (rv \<noteq> 0 \<and> owns L w' \<or>
      (\<exists>p q. two_arrays params es p q \<and> owns (L + heap_block p + heap_block q) w') \<or>
      rv \<noteq> 0 \<and> (\<exists>i. tos_failed i es \<and> owns (L + {#R_ep i#}) w')))"

lemma two_arrays_more: "two_arrays params es p q \<Longrightarrow> two_arrays params (xs @ es @ ys) p q"
  unfolding two_arrays_def by (metis append.assoc append_Cons)

lemma control_buffers_wp:
  assumes "p_count params div p_mr_count params \<noteq> 0" and "owns (L + C) w"
  shows "wp (control_buffers sys wc_size clock_rate role cid params) (\<lambda>_ w'. \<exists>p q es. trace w' = trace w @ es \<and>
     two_arrays params es p q \<and> owns (L + heap_block p + heap_block q + C) w') (\<lambda>_ _. True) w"
proof -
  let ?log = "log_entry LOG_DEBUG ''Allocating buffer ...\<newline>''"
  have log: "owns (L + C) (w\<lparr>trace := trace w @ [?log]\<rparr>)"
    using assms(2) by (simp add: owns_def own_append)
  show ?thesis
    unfolding control_buffers_def wp_thenP wp_log
  proof (rule wp_allocated [OF assms(1) log], rule wp_allocated [OF assms(1)], assumption)
    fix p ins es1 w1 q outs es2 and w2 :: "'a world"
    assume len: "length ins = unat (p_count params)" "length outs = unat (p_count params)"
      and own: "owns (L + C + heap_block p + groups params ins + heap_block q + groups params outs) w2"
      and tr: "trace w1 = trace (w\<lparr>trace := trace w @ [?log]\<rparr>) @ Ev_calloc (p_count params) sizeof_request p # es1"
        "trace w2 = trace w1 @ Ev_calloc (p_count params) sizeof_request q # es2"
    let ?M = "L + heap_block p + heap_block q + C"
    have "owns (?M + (groups params ins + groups params outs)) w2" using own by (simp add: ac_simps)
    then have "wp (control_prepared sys wc_size clock_rate role cid params ins outs) (\<lambda>_. owns ?M) (\<lambda>_ _. True) w2"
      using trades_control_prepared [OF len, where P = "{#}" and sys = sys and cid = cid and role = role
          and clock_rate = clock_rate and wc_size = wc_size] by (simp add: trades_def)
    from grows_wp [OF grows_control_prepared this]
    show "wp (control_prepared sys wc_size clock_rate role cid params ins outs) (\<lambda>_ w'. \<exists>p q es.
        trace w' = trace w @ es \<and> two_arrays params es p q \<and> owns (L + heap_block p + heap_block q + C) w') (\<lambda>_ _. True) w2"
    proof (rule wp_mono, clarify)
      fix rv :: int and es3 and w3 :: "'a world"
      assume own3: "owns ?M w3" and tr3: "trace w3 = trace w2 @ es3"
      let ?es = "[?log] @ Ev_calloc (p_count params) sizeof_request p # es1 @
        Ev_calloc (p_count params) sizeof_request q # es2 @ es3"
      have "trace w3 = trace w @ ?es" by (simp add: tr tr3)
      moreover have "two_arrays params ?es p q" unfolding two_arrays_def by blast
      ultimately show "\<exists>p q es. trace w3 = trace w @ es \<and> two_arrays params es p q \<and>
          owns (L + heap_block p + heap_block q + C) w3"
        using own3 by blast
    qed simp
  qed
qed

lemma wp_role_banner: "wp (role_banner role) Q E w = Q () (w\<lparr>trace := trace w @ [log_entry LOG_INFO
    (if role = ROLE_CLIENT then ''Running in client mode ...\<newline>'' else ''Running in server mode ...\<newline>'')]\<rparr>)"
  by (simp add: role_banner_def wp_log)

lemma wp_assertP: "(b \<Longrightarrow> wp n Q (\<lambda>_ _. True) w) \<Longrightarrow> wp (thenP (assertP b) n) Q (\<lambda>_ _. True) w"
  by (simp add: assertP_def wp_simps)

lemma control_run_wp:
  assumes own: "owns L w" and div: "p_count params div p_mr_count params \<noteq> 0"
  shows "wp (control_run sys wc_size cid0 clock_rate params) (control_leftover params L w) (\<lambda>_ _. True) w"
proof -
  let ?role = "role_of params"
  let ?w1 = "w\<lparr>trace := trace w @ [log_entry LOG_INFO (if ?role = ROLE_CLIENT
      then ''Running in client mode ...\<newline>'' else ''Running in server mode ...\<newline>'')]\<rparr>"
  have own1: "owns L ?w1" using own by (simp add: owns_def own_append)
  have after: "wp (bindP (control_buffers sys wc_size clock_rate ?role i params) (\<lambda>rv.
      thenP (log_debug ''Disconnecting\<newline>'') (thenP (close_connection sys ?role i l) (ret rv))))
      (control_leftover params L w) (\<lambda>_ _. True) w2"
    if own2: "owns (L + conn_resources ?role l i) w2" and tr2: "trace w2 = trace w @ xs" for l i w2 xs
    unfolding wp_bindP
  proof (rule wp_mono [OF control_buffers_wp [OF div own2]], clarify)
    fix rv :: int and p q es and w3 :: "'a world"
    let ?M = "L + heap_block p + heap_block q"
    let ?close = "thenP (log_debug ''Disconnecting\<newline>'') (thenP (close_connection sys ?role i l) (ret rv))"
    assume own3: "owns (?M + conn_resources ?role l i) w3" and tr3: "trace w3 = trace w2 @ es" "two_arrays params es p q"
    have more: "two_arrays params (xs @ es @ ys) p q" for ys by (rule two_arrays_more [OF tr3(2)])
    have "trades (conn_resources ?role l i) ?close (\<lambda>_. {#})"
      using trades_close [of "{#}" ?role l i sys] by (intro trades_thenP [OF trades_log(4)] trades_thenP trades_ret) simp_all
    with own3 have "wp ?close (\<lambda>_. owns ?M) (\<lambda>_ _. True) w3" by (simp add: trades_def)
    moreover have "grows ?close"
      unfolding close_connection_def dccs_client_disconnect_def dccs_server_disconnect_def conn_calls call_disconnect_def
      by (intro grows_rules)
    ultimately have "wp ?close (\<lambda>_ w'. owns ?M w' \<and> (\<exists>ys. trace w' = trace w3 @ ys)) (\<lambda>_ _. True) w3"
      by (intro grows_wp)
    then show "wp ?close (control_leftover params L w) (\<lambda>_ _. True) w3"
    proof (rule wp_mono)
      fix rv and w' :: "'a world"
      assume "owns ?M w' \<and> (\<exists>ys. trace w' = trace w3 @ ys)"
      then obtain ys where "owns ?M w'" "trace w' = trace w @ (xs @ es @ ys)" by (auto simp: tr2 tr3(1))
      then show "control_leftover params L w rv w'"
        unfolding control_leftover_def using more [of ys] by blast
    qed simp
  qed simp
  have "wp (bindP (open_connection sys cid0 ?role params) (\<lambda>(rv, listen_id, cid).
      if rv \<noteq> 0 then ret rv else
      bindP (control_buffers sys wc_size clock_rate ?role cid params) (\<lambda>rv.
      thenP (log_debug ''Disconnecting\<newline>'') (thenP (close_connection sys ?role cid listen_id) (ret rv)))))
      (control_leftover params L w) (\<lambda>_ _. True) ?w1"
    unfolding wp_bindP [of "open_connection sys cid0 ?role params"]
  proof (rule wp_mono [OF grows_wp [OF grows_open open_connection_wp [OF own1]]], clarify)
    fix rv :: int and l i and w2 :: "'a world" and es
    assume post: "if rv = 0 then owns (L + conn_resources ?role l i) w2
      else owns L w2 \<or> (\<exists>es. trace w2 = trace ?w1 @ es \<and> tos_failed i es \<and> owns (L + {#R_ep i#}) w2)"
      and tr: "trace w2 = trace ?w1 @ es"
    show "wp (if rv \<noteq> 0 then ret rv else bindP (control_buffers sys wc_size clock_rate ?role i params) (\<lambda>rv.
      thenP (log_debug ''Disconnecting\<newline>'') (thenP (close_connection sys ?role i l) (ret rv))))
      (control_leftover params L w) (\<lambda>_ _. True) w2"
    proof (cases "rv = 0")
      case True
      then have "owns (L + conn_resources ?role l i) w2" using post by simp
      from after [OF this] True tr show ?thesis by simp
    next
      case False
      then show ?thesis using post tr by (auto simp: wp_ret control_leftover_def)
    qed
  qed simp
  then show ?thesis
    unfolding control_run_def Let_def by (subst wp_thenP, subst wp_role_banner, intro wp_assertP)
qed


section \<open>Runs without faults\<close>

text \<open>\<open>calloc\<close> does not fail either.\<close>

definition callocs :: "'e sys \<Rightarrow> bool" where
  "callocs sys \<longleftrightarrow> (\<forall>k n e m. fst (sys_calloc (libc sys) k n e m) \<noteq> 0)"

lemma yields_calloc: "callocs sys \<Longrightarrow> yields (call_calloc sys k n) (\<lambda>p. p \<noteq> 0)"
proof (rule gives_orI)
  fix w :: "'a world"
  assume "callocs sys"
  then have "fst (sys_calloc (libc sys) k n (env w) (mem w)) \<noteq> 0" by (simp add: callocs_def)
  then show "wp (call_calloc sys k n) (\<lambda>p _. p \<noteq> 0) (\<lambda>_ _. False) w"
    by (auto simp: call_calloc_def wp_ext_call split: prod.splits)
qed

text \<open>The parameters the program asserts, and those of a run that gets through.\<close>

definition signal_run :: "dccs_parameters \<Rightarrow> bool" where
  "signal_run params \<longleftrightarrow> p_count params = 1 \<and> p_mr_count params = 1 \<and> p_length params = 6 \<and> p_verb params = Write \<and>
     100 \<le> unat (p_repeat params) \<and> unat (p_repeat params) < 2 ^ 31"

definition ready_request :: "dccs_request list \<Rightarrow> bool" where
  "ready_request reqs \<longleftrightarrow> (\<exists>r. reqs = [r] \<and> rq_buf r \<noteq> 0 \<and> rq_mr r \<noteq> None)"

lemma ready_same: "same_buffers xs ys \<Longrightarrow> ready_request ys \<Longrightarrow> ready_request xs"
  by (auto simp: ready_request_def same_buffers_def)

lemma yields_requests:
  assumes "callocs sys" and "signal_run params"
  shows "yields (calloc_requests sys params) (\<lambda>(p, reqs). length reqs = 1)"
  unfolding calloc_requests_def
  by (rule gives_bindP [OF yields_calloc [OF assms(1)]], rule gives_ret) (use assms(2) in \<open>simp add: signal_run_def\<close>)

lemma yields_allocate_one:
  assumes "ample sys" and "sound_heap sys" and "signal_run params" and "length reqs = 1"
  shows "yields (allocate_buffer sys cid reqs params) (\<lambda>(rv, reqs'). rv = 0 \<and> ready_request reqs')"
proof -
  obtain r where reqs: "reqs = [r]" using assms(4) by (cases reqs) auto
  have one: "[0..<unat (p_count params)] = [0]" "p_mr_count params \<noteq> 0" "p_count params div p_mr_count params = 1"
    using assms(3) by (simp_all add: signal_run_def)
  have verb: "p_verb params \<noteq> None_verb" using assms(3) by (simp add: signal_run_def)
  have group: "yields (alloc_group sys (p_verb params) cid n mr) (\<lambda>(mr', b). mr' \<noteq> None \<and> b \<noteq> 0)" for n mr
    unfolding alloc_group_def
    by (rule gives_bindP [OF yields_malloc_random_nonzero [OF assms(2)]],
        rule gives_bindP [OF yields_register [OF assms(1)]], rule gives_ret) (use verb in simp)
  have step: "yields (alloc_step sys (p_verb params) cid n 1 0 (mr, b, reqs)) (\<lambda>(mr', b', reqs'). ready_request reqs')" for n mr b
    unfolding alloc_step_def prod.case Let_def reqs
    by (simp, rule gives_bindP [OF group], auto simp: ready_request_def intro!: gives_ret)
  show ?thesis
    unfolding allocate_buffer_def if_not_P [OF one(2)] one(1,3) forP.simps
    by (rule gives_bindP [OF gives_bindP [OF step]], rule gives_ret) (auto intro: gives_ret)
qed


lemma yields_control_exchange:
  assumes "ample sys" and C: "poll_contract sys" and "signal_run params" and "ready_request ins" "ready_request outs"
  shows "yields (control_exchange sys role cid ins outs params) (\<lambda>(rv, outs'). ready_request outs')"
proof -
  have small: "16 * unat (p_count params) < 2 ^ 64" using assms(3) by (simp add: signal_run_def)
  have room: "has_room sys n e" for n e by (rule ample_room [OF assms(1)])
  have len: "unat (p_count params) \<le> length outs" "sendable ins (p_count params)"
    using assms(3-5) by (auto simp: signal_run_def ready_request_def sendable_def)
  have "yields (get_remote_mr_info sys cid outs (p_count params)) (\<lambda>_. True)"
    by (rule gives_orI, rule wp_mono [OF get_remote_mr_info_safe [OF C room small len(1)]]) simp_all
  then have info: "yields (get_remote_mr_info sys cid outs (p_count params)) (\<lambda>(rv, outs'). ready_request outs')"
    by (rule gives_mono [OF gives_conj [OF _ gives_get_remote_mr_info]]) (auto intro: ready_same assms(5))
  have get: "yields (control_get sys cid outs params) (\<lambda>(rv, outs'). ready_request outs')"
    unfolding control_get_def
    by (intro gives_thenP gives_log, rule gives_bindP [OF info])
      (auto intro!: gives_thenP gives_whenP gives_log gives_ret)
  have "yields (send_local_mr_info sys cid ins (p_count params)) (\<lambda>_. True)"
    by (rule gives_orI, rule send_local_mr_info_safe [OF C room len(2)])
  then have send: "yields (control_send sys cid ins params) (\<lambda>_. True)"
    unfolding control_send_def
    by (intro gives_thenP gives_log gives_bind_any) (auto intro!: gives_thenP gives_whenP gives_log gives_ret)
  show ?thesis
    unfolding control_exchange_def
    by (intro gives_if gives_bindP [OF get] gives_bind_any [OF send])
      (auto intro!: gives_if gives_ret gives_bind_any [OF send] get simp: assms(5))
qed

text \<open>What a round keeps: room for the completion and for the two time stamps of the server.\<close>

definition stamps_room :: "Role \<Rightarrow> nat \<Rightarrow> control_locals \<Rightarrow> bool" where
  "stamps_room role n l \<longleftrightarrow> length (c_wc l) = 1 \<and> (role = ROLE_SERVER \<longrightarrow> length (c_start l) = n \<and> length (c_end l) = n)"

lemma yields_get_cycles: "yields (get_cycles sys) (\<lambda>_. True)"
  unfolding get_cycles_def by (intro gives_bind_any gives_calls gives_case_prod gives_ret TrueI)

lemma yields_signal:
  assumes "n < length start" and "ready_request outs"
  shows "yields (control_signal sys ROLE_SERVER cid outs n 0 (False, rv, start))
    (\<lambda>(broken, rv, start'). length start' = length start)"
proof -
  have posts: "yields (dccs_rdma_write_with_flags sys cid a k mr ra rk fl) (\<lambda>_. True)" for a k mr ra rk fl
    unfolding dccs_rdma_write_with_flags_def
    by (intro gives_bind_any gives_calls gives_thenP gives_whenP gives_log gives_ret TrueI)
  show ?thesis
    unfolding control_signal_def prod.case Let_def
    using assms by (auto simp: ready_request_def intro!: gives_bind_any [OF yields_get_cycles] gives_bind_any [OF posts]
        gives_thenP gives_log gives_ret)
qed

lemma yields_complete:
  assumes C: "poll_contract sys" and "p_count params = 1" and "stamps_room ROLE_SERVER k l" and "n < k"
  shows "yields (control_complete sys cid params n l) (stamps_room ROLE_SERVER k)"
proof -
  have "yields (retry_zero (dccs_rdma_send_comp sys cid 1 (c_wc l))) (\<lambda>(rv, wc). length wc = 1)"
    by (rule gives_orI, rule wp_retry_send_compI [OF C]) (use assms(3) in \<open>simp_all add: stamps_room_def\<close>)
  moreover have "sint (ucast (p_count params) :: 32 word) = 1" using assms(2) by simp
  ultimately show ?thesis
    unfolding control_complete_def using assms(3,4)
    by (auto simp: stamps_room_def intro!: gives_bindP [where S = "\<lambda>(rv, wc). length wc = 1"] gives_if gives_thenP gives_log
        gives_ret gives_bind_any [OF yields_get_cycles])
qed

lemma yields_control_round:
  assumes C: "poll_contract sys" and run: "signal_run params" and l: "stamps_room role (unat (p_repeat params)) l"
    and n: "n < unat (p_repeat params)" and ready: "ready_request outs"
  shows "yields (control_round sys role cid params outs n l) (stamps_room role (unat (p_repeat params)))"
proof -
  let ?R = "unat (p_repeat params)"
  have "unat (p_repeat params div 100) \<noteq> 0" using run by (simp add: signal_run_def unat_div div_eq_0_iff)
  then have div: "p_repeat params div 100 \<noteq> 0" by auto
  have one: "[0..<unat (p_count params)] = [0]" "p_count params = 1" using run by (simp_all add: signal_run_def)
  have wait: "yields (wait_until sys t) (\<lambda>_. True)" for t
    by (rule gives_orI, rule wp_mono [OF wait_until_wp]) simp_all
  have loop: "yields (forP [0..<unat (p_count params)] (control_signal sys role cid outs n) (False, rv, start))
      (\<lambda>(broken, rv, start'). role = ROLE_SERVER \<longrightarrow> length start' = ?R)"
    if "role = ROLE_SERVER \<longrightarrow> length start = ?R" for rv start
  proof (cases "role = ROLE_SERVER")
    case True
    with that n have "n < length start" by simp
    from yields_signal [OF this ready, of sys cid rv] that True show ?thesis
      unfolding one forP.simps by (auto intro!: gives_bindP gives_ret)
  qed (simp add: one control_signal_def gives_ret)
  have log: "yields (whenP b (log_debug s)) (\<lambda>_. True)" for b s
    by (intro gives_whenP gives_log TrueI)
  show ?thesis
    unfolding control_round_def if_not_P [OF div] Let_def
    by (rule gives_if, rule gives_ret, rule l, rule gives_thenP [OF log], rule gives_thenP [OF wait],
        rule gives_bindP [OF loop])
      (use l in \<open>auto simp: stamps_room_def intro!: gives_if gives_ret yields_complete [OF C one(2) _ n]\<close>)
qed


lemma yields_report:
  assumes A: "ample sys" and rate: "clock_rate \<noteq> 0" and run: "signal_run params"
    and l: "stamps_room role (unat (p_repeat params)) l" and ready: "ready_request ins" "ready_request outs"
  shows "yields (control_report sys clock_rate role params ins outs l) (\<lambda>_. True)"
proof -
  have cnt: "0 < p_count params" "64 * unat (p_count params) < 2 ^ 64" using run by (simp_all add: signal_run_def)
  have len: "length ins = unat (p_count params)" "length outs = unat (p_count params)"
    using run ready by (auto simp: signal_run_def ready_request_def)
  note sha = yields_sha1sum [OF A cnt]
  have rep: "0 < unat (p_repeat params)" "unat (p_repeat params) < 2 ^ 31" using run by (simp_all add: signal_run_def)
  have alloc: "mallocs sys (p_repeat params * 8)" using A by (simp add: ample_def plenty_def)
  have latency: "yields (print_latency_report_raw sys clock_rate (c_start l) (c_end l) (p_repeat params) f v c k) (\<lambda>_. True)"
    if "role = ROLE_SERVER" for f v c k
    by (rule gives_orI, rule wp_mono [OF latency_report_wp [OF rate rep _ _ alloc]])
      (use l that in \<open>simp_all add: stamps_room_def\<close>)
  have "role = ROLE_SERVER \<Longrightarrow> c_start l \<noteq> []" using l rep by (auto simp: stamps_room_def)
  then show ?thesis
    unfolding control_report_def
    by (auto intro!: gives_thenP gives_log sha len latency)
qed

lemma yields_control_rounds:
  assumes A: "ample sys" and C: "poll_contract sys" and rate: "clock_rate \<noteq> 0" and run: "signal_run params"
    and ready: "ready_request ins" "ready_request outs" and wc: "length wc = 1"
  shows "yields (control_rounds sys clock_rate role cid params wc ins outs rv) (\<lambda>_. True)"
proof -
  let ?R = "unat (p_repeat params)"
  have rounds: "yields (forP [0..<?R] (control_round sys role cid params outs) l) (stamps_room role ?R)"
    if "stamps_room role ?R l" for l
    by (rule gives_forP) (use that in \<open>auto intro: yields_control_round [OF C run _ _ ready(2)]\<close>)
  show ?thesis
    unfolding control_rounds_def Let_def
    by (rule gives_bind_any [OF yields_get_cycles], rule gives_bindP [OF rounds])
      (auto simp: stamps_room_def wc intro!: gives_bind_any [OF yields_end_message [OF C]] gives_if gives_ret
        gives_thenP yields_report [OF A rate run _ ready])
qed

lemma yields_control_session:
  assumes A: "ample sys" and C: "poll_contract sys" and rate: "clock_rate \<noteq> 0" and run: "signal_run params"
    and ready: "ready_request ins" "ready_request outs" and wc: "length wc = 1" and "callocs sys"
  shows "yields (control_session sys clock_rate role cid params wc ins outs)
     (\<lambda>(rv, outs', start, fin). ready_request outs')"
proof -
  have lines: "yields (forP [0..<unat (p_count params)] (\<lambda>n _. if length (outs' :: dccs_request list) \<le> n
      then halt (Fault Out_of_bounds) else log_debug fmt) ()) (\<lambda>_. True)" if "ready_request outs'" for outs' fmt
    by (rule gives_forP) (use that run in \<open>auto simp: signal_run_def ready_request_def intro!: gives_log\<close>)
  have arrays: "yields (control_arrays sys role params) (\<lambda>(ok, start, fin). ok)"
    unfolding control_arrays_def
    by (intro gives_if gives_bindP [OF yields_calloc [OF assms(8)]]) (auto intro!: gives_ret gives_bindP [OF yields_calloc [OF assms(8)]])
  show ?thesis
    unfolding control_session_def
    by (rule gives_bindP [OF yields_control_exchange [OF A C run ready]], rule gives_case_prod, rule gives_if,
        rule gives_ret, simp, rule gives_thenP [OF lines], simp, rule gives_thenP [OF gives_log(3)],
        rule gives_bindP [OF arrays])
      (auto intro!: gives_ret gives_bind_any [OF yields_control_rounds [OF A C rate run ready(1) _ wc]])
qed

lemma yields_control_prepared:
  assumes A: "ample sys" and C: "poll_contract sys" and rate: "clock_rate \<noteq> 0" and run: "signal_run params"
    and ready: "ready_request ins" "ready_request outs" and cal: "callocs sys"
  shows "yields (control_prepared sys wc_size clock_rate role cid params ins outs) (\<lambda>_. True)"
proof -
  have one: "unat (p_count params) = 1" "p_count params div p_mr_count params \<noteq> 0" using run by (simp_all add: signal_run_def)
  have len: "length reqs = unat (p_count params)" if "ready_request reqs" for reqs
    using that by (auto simp: one ready_request_def)
  have fill: "yields (forP [0..<unat (p_count params)] (fill_signal sys params outs) ()) (\<lambda>_. True)"
    by (rule gives_forP)
      (use ready(2) one in \<open>auto simp: fill_signal_def ready_request_def intro!: gives_thenP gives_calls\<close>)
  have frees: "yields (free_nonnull sys p) (\<lambda>_. True)" for p
    unfolding free_nonnull_def by (intro gives_whenP yields_free TrueI)
  have regions: "all_regions params reqs" if "ready_request reqs" for reqs
    using that by (auto simp: one ready_request_def all_regions_def)
  note dealloc = yields_deallocate [OF one(2) len regions]
  show ?thesis
    unfolding control_prepared_def
    by (rule gives_bindP [OF yields_calloc [OF cal]], rule gives_thenP [OF fill],
        rule gives_bindP [OF yields_control_session [OF A C rate run ready _ cal]], simp add: one)
      (auto intro!: gives_thenP gives_whenP gives_log gives_ret frees dealloc ready(1))
qed

lemma yields_control_run:
  assumes A: "ample sys" "sound_heap sys" "callocs sys" and C: "poll_contract sys" and rate: "clock_rate \<noteq> 0"
    and run: "signal_run params"
  shows "yields (control_run sys wc_size cid0 clock_rate params) (\<lambda>_. True)"
proof -
  have buffers: "yields (control_buffers sys wc_size clock_rate role cid params) (\<lambda>_. True)" for role cid
    unfolding control_buffers_def
    by (rule gives_thenP [OF gives_log(3)], rule gives_bindP [OF yields_requests [OF A(3) run]], rule gives_case_prod,
        rule gives_bindP [OF yields_allocate_one [OF A(1,2) run]], simp)
      (auto intro!: gives_bindP [OF yields_requests [OF A(3) run]] gives_bindP [OF yields_allocate_one [OF A(1,2) run]]
        yields_control_prepared [OF A(1) C rate run _ _ A(3)])
  have asserts: "assertP True = (ret () :: ('a world, unit) prog)"
    by (simp add: assertP_def whenP_def)
  have banner: "yields (role_banner role) (\<lambda>_. True)" for role
    unfolding role_banner_def by (intro gives_if gives_log)
  show ?thesis
    unfolding control_run_def Let_def
    using run by (auto simp: signal_run_def asserts intro!: gives_thenP [OF banner] gives_bind_any [OF yields_open]
        gives_if gives_ret gives_bind_any [OF buffers] gives_thenP gives_log yields_close)
qed

section \<open>Runs that end\<close>

lemma total_assertP: "(b \<Longrightarrow> total n) \<Longrightarrow> total (thenP (assertP b) n)"
  by (auto simp: total_def assertP_def whenP_def thenP_def bindP_def halt_def ret_def)

lemma total_control_run:
  assumes "live_nic sys" and "\<And>t e m. clock_reaches sys t e m"
  shows "total (control_run sys wc_size cid0 clock_rate params)"
proof -
  have wait: "total (wait_until sys t)" for t
    using wait_until_ends [OF assms(2)] by (simp add: total_def)
  have complete: "total (control_complete sys cid params n l)" if "p_count params = 1" for cid n l
  proof -
    have "sint (ucast (p_count params) :: 32 word) = 1" using that by simp
    then show ?thesis
      unfolding control_complete_def
      by (simp only: send_comp.retry_once) (intro total_intros total_log total_comp [OF assms(1)] total_get_cycles)
  qed
  have rounds: "total (control_rounds sys clock_rate role cid params wc ins outs rv)" if "p_count params = 1" for role cid wc ins outs rv
    unfolding control_rounds_def control_round_def control_signal_def control_report_def end_message_def Let_def
    by (intro total_intros total_calls total_log total_ops total_get_cycles wait complete [OF that] total_reports
        total_exchange [OF assms(1)])
  have session: "total (control_session sys clock_rate role cid params wc ins outs)" if "p_count params = 1" for role cid wc ins outs
    unfolding control_session_def control_exchange_def control_get_def control_send_def control_arrays_def call_calloc_def
    by (intro total_intros total_calls total_log total_exchange [OF assms(1)] rounds [OF that])
  have banner: "total (role_banner role)" for role
    unfolding role_banner_def by (intro total_intros total_log)
  have buffers: "total (control_buffers sys wc_size clock_rate role cid params)" if "p_count params = 1" for role cid
    unfolding control_buffers_def control_prepared_def calloc_requests_def fill_signal_def free_nonnull_def
      call_calloc_def call_free_def
    by (intro session [OF that] total_intros total_calls total_log total_allocate_buffer total_deallocate_buffer)
  show ?thesis
    unfolding control_run_def open_connection_def close_connection_def Let_def
    by (rule total_thenP [OF banner], rule total_assertP, rule total_assertP, rule total_assertP)
      (intro buffers total_intros total_calls total_log total_conn)
qed


section \<open>Short runs\<close>

definition signalling :: "event \<Rightarrow> bool" where
  "signalling e \<longleftrightarrow> (\<exists>rv. observe e = [Signal rv])"

lemma hides_mono: "hides P m \<Longrightarrow> (\<And>e. Q e \<Longrightarrow> P e) \<Longrightarrow> hides Q m"
proof -
  assume m: "hides P m" and PQ: "\<And>e. Q e \<Longrightarrow> P e"
  have sub: "filter Q es = filter Q (filter P es)" for es
    by (induction es) (auto dest: PQ)
  then have "filter Q es = filter Q fs" if "filter P es = filter P fs" for es fs
    using that by metis
  then show "hides Q m"
    unfolding hides_def by (intro allI wp_mono [OF hidesD [OF m]]) blast+
qed

lemma calm_silent: "calm m \<Longrightarrow> hides signalling m"
  by (erule hides_mono) (auto simp: signalling_def observed_def)

text \<open>With less than 100 rounds the first one divides by zero, before anything is sent.\<close>

lemma short_rounds:
  assumes "0 < p_repeat params" and "unat (p_repeat params) < 100"
  shows "control_rounds sys clock_rate role cid params wc ins outs rv =
    bindP (get_cycles sys) (\<lambda>_. halt (Fault Div_by_zero))"
proof -
  have "unat (p_repeat params div 100) = 0" using assms(2) by (simp add: unat_div)
  then have div: "p_repeat params div 100 = 0" by (simp add: unat_eq_0)
  obtain k where k: "unat (p_repeat params) = Suc k"
    using assms(1) by (metis gr0_implies_Suc unat_gt_0 word_neq_0_conv)
  have stop: "control_round sys role cid params outs n l = halt (Fault Div_by_zero)" if "\<not> c_broken l" for n l
    by (simp add: control_round_def div that)
  have "bindP (halt s) f = halt s" for s and f :: "control_locals \<Rightarrow> ('a world, int) prog"
    by (simp add: bindP_def halt_def)
  moreover have "bindP (halt s) f = halt s" for s and f :: "control_locals \<Rightarrow> ('a world, control_locals) prog"
    by (simp add: bindP_def halt_def)
  ultimately show ?thesis
    unfolding control_rounds_def Let_def k upt_conv_Cons [OF zero_less_Suc] forP.simps by (simp add: stop)
qed

lemma short_run_silent:
  assumes "0 < p_repeat params" and "unat (p_repeat params) < 100"
  shows "hides signalling (control_run sys wc_size cid0 clock_rate params)"
proof -
  have rounds: "hides signalling (control_rounds sys clock_rate role cid params wc ins outs rv)" for role cid wc ins outs rv
    unfolding short_rounds [OF assms] get_cycles_def
    by (intro hides_intros; simp add: signalling_def split: prod.split)
  note calm = calm_heap calm_conn calm_buffers calm_control calm_debug calm_fill_loop calm_out_line calm_release
  have log: "hides signalling (log_debug fmt)" "hides signalling (log_error fmt)" for fmt
    by (rule hides_log, simp add: signalling_def)+
  show ?thesis
    unfolding control_run_def control_buffers_def control_prepared_def control_session_def Let_def
    by (intro hides_ret hides_bindP hides_thenP hides_if hides_case rounds log | rule calm_silent, rule calm)+
qed


section \<open>The concrete environment\<close>

text \<open>Nothing runs out, and the clock shows the last moment of time.\<close>

definition signal_sys :: "test_env sys" where
  "signal_sys = ample_sys\<lparr>libc := libc report_sys\<lparr>sys_calloc := \<lambda>_ _ e m. (0x8000, e, m),
     sys_memalign := \<lambda>_ _ e m. ((0, 0x4000), e, m), clock_gettime := \<lambda>e m. ((0, - 1), e, m)\<rparr>\<rparr>"

definition signal_params :: dccs_parameters where
  "signal_params = default_parameters\<lparr>p_verb := Write, p_count := 1, p_length := 6, p_repeat := 100\<rparr>"

lemma signal_contracts:
  "ample signal_sys" "sound_heap signal_sys" "callocs signal_sys" "live_nic signal_sys" "clock_reaches signal_sys t e m"
  "signal_run signal_params" "valid_parameters signal_params" "p_server signal_params = None"
proof -
  show "ample signal_sys"
    using ample_sys_contracts(1) by (simp add: ample_def plenty_def mallocs_def signal_sys_def report_sys_def)
  show "sound_heap signal_sys" "callocs signal_sys"
    by (simp_all add: sound_heap_def plenty_def mallocs_def callocs_def signal_sys_def report_sys_def)
  show "live_nic signal_sys"
    by (rule live_nic_cong [OF ample_sys_contracts(2)]) (simp add: signal_sys_def)
  have "clock_gettime (libc signal_sys) e m = ((0, - 1), e, m)" by (simp add: signal_sys_def)
  then show "clock_reaches signal_sys t e m" by (rule reached) simp
  show "signal_run signal_params" "valid_parameters signal_params" "p_server signal_params = None"
    by (simp_all add: signal_run_def valid_parameters_def known_parameters_def signal_params_def default_parameters_def
        config_defs)
qed

text \<open>A clock in steps of 60 microseconds, and a card whose completion queue reports errors only.\<close>

definition pace_sys :: "test_env sys" where
  "pace_sys = test_sys Little_endian\<lparr>
     libc := test_libc\<lparr>clock_gettime := \<lambda>e m. ((0, of_nat (t_clock e)), e\<lparr>t_clock := t_clock e + 60000\<rparr>, m)\<rparr>,
     rdma := test_rdma\<lparr>ibv_poll_cq := \<lambda>q num e m. ((-1, []), e, m)\<rparr>\<rparr>"

lemma pace_live: "live_nic pace_sys"
  unfolding live_nic_def
proof (intro conjI allI)
  show "poll_contract pace_sys" by (simp add: poll_contract_def pace_sys_def)
  show "poll_ready pace_sys q 1 e m" for q e m
    by (rule poll_ready.ready_now [where rv = "-1" and wcs = "[]"]) (simp_all add: pace_sys_def)
qed

text \<open>Running a program on a world.\<close>

lemma run_at:
  "bindP m f w = (case m w of None \<Rightarrow> None | Some (r, w') \<Rightarrow> (case r of Ret a \<Rightarrow> f a w' | Stop s \<Rightarrow> Some (Stop s, w')))"
  "thenP m n w = (case m w of None \<Rightarrow> None | Some (r, w') \<Rightarrow> (case r of Ret a \<Rightarrow> n w' | Stop s \<Rightarrow> Some (Stop s, w')))"
  "halt s w = Some (Stop s, w)" "ret a w = Some (Ret a, w)"
  by (simp_all add: bindP_def thenP_def halt_def ret_def)

lemma log_at: "log_debug fmt w = Some (Ret (), w\<lparr>trace := trace w @ [log_entry LOG_DEBUG fmt]\<rparr>)"
  using returns_log(4) [of fmt "\<lambda>_ w'. w' = w\<lparr>trace := trace w @ [log_entry LOG_DEBUG fmt]\<rparr>" w]
  by (auto simp: returns_iff)

lemma pace_cycles:
  "get_cycles pace_sys w = Some (Ret (of_nat (t_clock (env w))), w\<lparr>env := (env w)\<lparr>t_clock := t_clock (env w) + 60000\<rparr>,
     trace := trace w @ [Ev_clock 0 (of_nat (t_clock (env w)))]\<rparr>)"
  by (simp add: get_cycles_def ext_call_def bindP_def ret_def pace_sys_def)

lemma log_error_at: "log_error fmt w = Some (Ret (), w\<lparr>trace := trace w @ [log_entry LOG_ERROR fmt]\<rparr>)"
  using returns_log(6) [of fmt "\<lambda>_ w'. w' = w\<lparr>trace := trace w @ [log_entry LOG_ERROR fmt]\<rparr>" w]
  by (auto simp: returns_iff)

lemma pace_comp:
  "\<exists>w'. retry_zero (dccs_rdma_send_comp pace_sys cid 1 [ok_wc]) w = Some (Ret (-1, [ok_wc]), w') \<and>
     observations (trace w') = observations (trace w)"
proof -
  have poll: "retry_zero (call_poll pace_sys q num) w = Some (Ret (-1, []),
      w\<lparr>trace := trace w @ [Ev_poll q num (-1) []]\<rparr>)" for q num
    by (subst retry_zero_unfold) (simp add: call_poll_def ext_call_def bindP_def ret_def pace_sys_def)
  have "send_comp_round pace_sys cid 1 (0, [ok_wc]) w = Some (Ret (Inl (-1, [ok_wc])),
      w\<lparr>trace := trace w @ [Ev_poll (Send_cq cid) 1 (-1) [], log_entry LOG_ERROR ''ibv_poll_cq() failed, error = %d.\<newline>'']\<rparr>)"
    by (simp add: send_comp_round_def run_at poll write_wcs_def log_error_at)
  then show ?thesis
    unfolding send_comp.retry_once
    unfolding dccs_rdma_send_comp_def by (subst loopP_unfold) (simp add: run_at)
qed

lemma pace_wait:
  assumes "t_clock (env w) = 60000" and "t_fail (env w) = []"
  shows "\<exists>w'. wait_until pace_sys 100000 w = Some (Ret (), w') \<and> t_clock (env w') = 180000 \<and> t_fail (env w') = [] \<and>
     observations (trace w') = observations (trace w) @ [Tick 60000, Tick 120000]"
  by (subst wait_until_unfold, simp add: run_at pace_cycles assms,
      subst wait_until_unfold, simp add: run_at pace_cycles assms)

lemma pace_post:
  "t_fail (env w) = [] \<Longrightarrow> dccs_rdma_write_with_flags pace_sys cid a k mr ra rk fl w =
     Some (Ret 0, w\<lparr>trace := trace w @ [Ev_post_write cid a k mr fl ra rk 0]\<rparr>)"
  by (simp add: dccs_rdma_write_with_flags_def run_at ext_call_def pace_sys_def test_run whenP_def)

lemma pace_signal:
  assumes "t_clock (env w) = 180000" and "t_fail (env w) = []"
  shows "\<exists>w' st. control_signal pace_sys ROLE_SERVER 7 [zero_request] 0 0 (False, 1, replicate 100 0) w = Some (Ret st, w') \<and>
     observations (trace w') = observations (trace w) @ [Tick 180000, Signal 0]"
  by (simp add: control_signal_def run_at pace_cycles pace_post assms) (rule exI [of _ False], simp)

text \<open>A loop that was left does nothing in the rest of its rounds.\<close>

lemma broken_rounds:
  "c_broken l \<Longrightarrow> forP ns (control_round sys role cid params outs) l = ret l"
  by (induction ns) (simp_all add: control_round_def)

text \<open>After the rounds: the last message and the report, which are not observed.\<close>

lemma rounds_tail:
  assumes "live_nic sys"
  shows "\<exists>r w'. bindP (end_message sys b cid) (\<lambda>rv. if rv < 0 then ret rv else
      thenP (control_report sys clock_rate role params ins outs l) (ret rv)) w = Some (r, w') \<and>
    observations (trace w') = observations (trace w)"
proof -
  let ?m = "bindP (end_message sys b cid) (\<lambda>rv. if rv < 0 then ret rv else
      thenP (control_report sys clock_rate role params ins outs l) (ret rv))"
  have "total ?m"
    unfolding end_message_def control_report_def
    by (intro total_intros total_calls total_log total_exchange [OF assms] total_reports)
  then obtain r w' where r: "?m w = Some (r, w')" unfolding total_def by fast
  have "calm ?m" by (intro hides_bindP hides_if hides_thenP hides_ret calm_control)
  from hidesD [OF this, of w] r have "filter observed (trace w') = filter observed (trace w)"
    by (cases r) (simp_all add: wp_def)
  with r show ?thesis by (metis observations_visible)
qed

lemma pace_run:
  "\<exists>r w'. control_rounds pace_sys BILLION ROLE_SERVER 7 signal_params [ok_wc] [] [zero_request] 1 world0 =
     Some (r, w') \<and> observations (trace w') = [Tick 0, Tick 60000, Tick 120000, Tick 180000] @ Signal 0 # []"
proof -
  have n: "[0..<unat (p_repeat signal_params)] = 0 # [Suc 0..<100]" "[0..<unat (p_count signal_params)] = [0]"
    "unat (p_repeat signal_params) = 100" "p_repeat signal_params div 100 = 1"
    by (simp_all add: signal_params_def upt_conv_Cons)
  obtain w1 where 1: "get_cycles pace_sys world0 = Some (Ret 0, w1)" "t_clock (env w1) = 60000" "t_fail (env w1) = []"
    "observations (trace w1) = [Tick 0]"
    using pace_cycles [of world0] by (simp add: world0_def env0_def)
  let ?w2 = "w1\<lparr>trace := trace w1 @ [log_entry LOG_DEBUG ''n = %zu.\<newline>'']\<rparr>"
  obtain w3 where 3: "wait_until pace_sys 100000 ?w2 = Some (Ret (), w3)" "t_clock (env w3) = 180000" "t_fail (env w3) = []"
    "observations (trace w3) = [Tick 0, Tick 60000, Tick 120000]"
    using pace_wait [of ?w2] 1 by auto
  obtain w4 st where 4: "control_signal pace_sys ROLE_SERVER 7 [zero_request] 0 0 (False, 1, replicate 100 0) w3 = Some (Ret st, w4)"
    "observations (trace w4) = [Tick 0, Tick 60000, Tick 120000, Tick 180000, Signal 0]"
    using pace_signal [OF 3(2,3)] 3(4) by auto
  obtain w5 where 5: "retry_zero (dccs_rdma_send_comp pace_sys 7 1 [ok_wc]) w4 = Some (Ret (-1, [ok_wc]), w5)"
    "observations (trace w5) = observations (trace w4)"
    using pace_comp [of 7 w4] by auto
  let ?w6 = "w5\<lparr>trace := trace w5 @ [log_entry LOG_ERROR ''Failed to send comp message.\<newline>'']\<rparr>"
  have "sint (ucast (p_count signal_params) :: 32 word) = 1" by (simp add: signal_params_def)
  then have complete: "control_complete pace_sys 7 signal_params 0 l w4 =
      Some (Ret (l\<lparr>c_broken := True, c_rv := -1, c_wc := [ok_wc]\<rparr>), ?w6)"
    if "c_wc l = [ok_wc]" for l
    using 5(1) that by (simp add: control_complete_def run_at log_error_at)
  have loop: "forP [0] (control_signal pace_sys ROLE_SERVER 7 [zero_request] 0) (False, 1, replicate 100 0) w3 = Some (Ret st, w4)"
    by (simp add: run_at 4(1))
  let ?l = "\<lparr>c_broken = False, c_rv = 1, c_target = 0, c_wc = [ok_wc], c_start = replicate 100 0, c_end = replicate 100 0\<rparr>"
  have "\<exists>l. control_round pace_sys ROLE_SERVER 7 signal_params [zero_request] 0 ?l w1 = Some (Ret l, ?w6) \<and> c_broken l"
    using loop by (simp add: control_round_def n Let_def run_at whenP_def log_at SLOT_NS_def 3(1) complete split: prod.split)
  then obtain l where l: "control_round pace_sys ROLE_SERVER 7 signal_params [zero_request] 0 ?l w1 = Some (Ret l, ?w6)"
    "c_broken l" by blast
  obtain r w7 where tail: "bindP (end_message pace_sys True 7) (\<lambda>rv. if rv < 0 then ret rv else
      thenP (control_report pace_sys BILLION ROLE_SERVER signal_params [] [zero_request] l) (ret rv)) ?w6 = Some (r, w7)"
    "observations (trace w7) = observations (trace ?w6)"
    using rounds_tail [OF pace_live] by blast
  have "control_rounds pace_sys BILLION ROLE_SERVER 7 signal_params [ok_wc] [] [zero_request] 1 world0 = Some (r, w7)"
    using tail(1) by (simp add: control_rounds_def Let_def n(3,4))
      (simp add: n(1) [unfolded n(3)] run_at 1(1) l broken_rounds)
  then show ?thesis using 4(2) 5(2) tail(2) by simp
qed

section \<open>Properties\<close>

text \<open>
  C5. A run of the server refines the machine of slots: however it ends, by returning, by a failed assertion or
  by a fault, the clock readings and signals it has added to the trace are a run of the machine.  So in
  every slot there is one signal, after the end of the slot has been waited for and between two time stamps.
\<close>

theorem control_run_refines_slots:
  assumes "p_server params = None" and "control_run sys wc_size cid0 clock_rate params w = Some (r, w')"
  shows "\<exists>os q. observations (trace w') = observations (trace w) @ os \<and> slots Start os q"
  using followsD [OF follows_run [OF assms(1), of sys wc_size cid0 clock_rate], of w] assms(2)
  by (cases r) (auto simp: wp_def)

theorem control_run_refines_slots_witness:
  "\<exists>rv w'. control_run signal_sys 48 0 BILLION signal_params world0 = Some (Ret rv, w') \<and>
     (\<exists>os q. observations (trace w') = observations (trace world0) @ os \<and> slots Start os q)"
proof -
  have "returns (control_run signal_sys 48 0 BILLION signal_params) (\<lambda>_ _. True) world0"
    by (rule total_returns [OF total_control_run [OF signal_contracts(4,5)]],
        rule gives_orD [OF yields_control_run [OF signal_contracts(1-3) live_contract [OF signal_contracts(4)] _ signal_contracts(6)]])
      (simp add: BILLION_def)
  then obtain rv w' where r: "control_run signal_sys 48 0 BILLION signal_params world0 = Some (Ret rv, w')"
    by (auto simp: returns_iff)
  then show ?thesis using control_run_refines_slots [OF signal_contracts(8) r] by blast
qed

text \<open>
  C7. The pacing of the server: the signal after \<open>k\<close> others is posted right after a time stamp, which comes right
  after a clock reading at or after the end of slot \<open>k + 1\<close> as counted from the first reading, that is
  after \<open>k + 1\<close> times 100 microseconds (modulo \<open>2^64\<close> nanoseconds).
\<close>

theorem control_signals_paced:
  assumes "p_count params = 1"
    and "control_rounds sys clock_rate ROLE_SERVER cid params wc ins outs rv w = Some (r, w')"
    and "observations (trace w) = []" and "observations (trace w') = xs @ Signal s # ys"
  shows "\<exists>t0 zs c t. xs = Tick t0 # zs @ [Tick c, Tick t] \<and> slot_end t0 (Suc (signals xs)) \<le> c"
proof -
  have "\<exists>os q. observations (trace w') = observations (trace w) @ os \<and> slots Start os q"
    using followsD [OF follows_rounds [OF assms(1), of sys clock_rate cid wc ins outs rv], of w] assms(2)
    by (cases r) (auto simp: wp_def)
  then obtain q where "slots Start (xs @ Signal s # ys) q" using assms(3,4) by auto
  from slots_paced [OF this] show ?thesis by metis
qed

text \<open>The run has a card that keeps to its contract; its first signal comes at the end of the first slot.\<close>

theorem control_signals_paced_witness:
  "poll_contract pace_sys \<and> (\<exists>r w' t0 zs c t.
     control_rounds pace_sys BILLION ROLE_SERVER 7 signal_params [ok_wc] [] [zero_request] 1 world0 = Some (r, w') \<and>
     observations (trace w') = (Tick t0 # zs @ [Tick c, Tick t]) @ Signal 0 # [] \<and> slot_end t0 1 \<le> c)"
proof -
  obtain r w' where run: "control_rounds pace_sys BILLION ROLE_SERVER 7 signal_params [ok_wc] [] [zero_request] 1 world0 =
     Some (r, w')"
    and obs: "observations (trace w') = [Tick 0, Tick 60000, Tick 120000, Tick 180000] @ Signal 0 # []"
    using pace_run by blast
  obtain t0 zs c t where "[Tick 0, Tick 60000, Tick 120000, Tick 180000] = Tick t0 # zs @ [Tick c, Tick t]"
    "slot_end t0 (Suc (signals [Tick 0, Tick 60000, Tick 120000, Tick 180000])) \<le> c"
    using control_signals_paced [OF _ run _ obs] by (auto simp: signal_params_def world0_def)
  moreover have "signals [Tick 0, Tick 60000, Tick 120000, Tick 180000] = 0" by (simp add: signals_def is_signal_def)
  ultimately have "control_rounds pace_sys BILLION ROLE_SERVER 7 signal_params [ok_wc] [] [zero_request] 1 world0 = Some (r, w') \<and>
     observations (trace w') = (Tick t0 # zs @ [Tick c, Tick t]) @ Signal 0 # [] \<and> slot_end t0 1 \<le> c"
    using run obs by simp
  then show ?thesis using live_contract [OF pace_live] by blast
qed

text \<open>
  C18. A run of the control program ends when the network interface answers and the clock reaches every target.
  If it ends by returning, whatever failed on the way, it has left one of three things: nothing, when no
  connection was opened; the two arrays of requests, the blocks of two of its calls of \<open>calloc\<close>, which are
  never freed; or the endpoint, when its type of service could not be set.
\<close>

theorem control_run_ledger:
  assumes "live_nic sys" and "\<And>t e m. clock_reaches sys t e m" and "owns L w" and "valid_parameters params"
  shows "\<exists>r w'. control_run sys wc_size cid0 clock_rate params w = Some (r, w') \<and>
    (case r of Ret rv \<Rightarrow> control_leftover params L w rv w' | Stop s \<Rightarrow> True)"
  by (rule total_outcome [OF total_control_run [OF assms(1,2)]], rule control_run_wp [OF assms(3) valid_count(2) [OF assms(4)]])

theorem control_run_ledger_witness:
  "\<exists>r w'. control_run signal_sys 48 0 BILLION signal_params world0 = Some (r, w') \<and>
    (case r of Ret rv \<Rightarrow> control_leftover signal_params {#} world0 rv w' | Stop s \<Rightarrow> True)"
  by (rule control_run_ledger [OF signal_contracts(4,5) owns_world0(2) signal_contracts(7)])

text \<open>
  C8. With the parameters that are asserted, one memory region, and at least 100 and fewer than \<open>2^31\<close> rounds
  (\<open>signal_run\<close>), a run returns without a fault, for both roles, when the network interface answers, the clock
  reaches every target, and memory and registration do not run out.
\<close>

theorem control_run_returns:
  assumes "live_nic sys" and "\<And>t e m. clock_reaches sys t e m" and "ample sys" and "sound_heap sys" and "callocs sys"
    and "clock_rate \<noteq> 0" and "signal_run params" and "owns L w"
  shows "returns (control_run sys wc_size cid0 clock_rate params) (control_leftover params L w) w"
proof (rule total_returns [OF total_control_run [OF assms(1,2)]])
  have div: "p_count params div p_mr_count params \<noteq> 0" using assms(7) by (simp add: signal_run_def)
  show "wp (control_run sys wc_size cid0 clock_rate params) (control_leftover params L w) (\<lambda>_ _. False) w"
    by (rule wp_no_stop [OF control_run_wp [OF assms(8) div]])
      (rule gives_orD [OF yields_control_run [OF assms(3-5) live_contract [OF assms(1)] assms(6,7)]])
qed

theorem control_run_returns_witness:
  "returns (control_run signal_sys 48 0 BILLION signal_params) (control_leftover signal_params {#} world0) world0"
  by (rule control_run_returns [OF signal_contracts(4,5,1-3) _ signal_contracts(6) owns_world0(2)])
    (simp add: BILLION_def)

text \<open>
  C24. A run of less than 100 rounds, the default of 1 included, never signals: its first round divides by
  \<open>repeat / 100\<close>, which is 0.
\<close>

theorem control_short_run_faults:
  assumes "0 < p_repeat params" and "unat (p_repeat params) < 100"
  shows "(\<exists>w'. control_rounds sys clock_rate role cid params wc ins outs rv w = Some (Stop (Fault Div_by_zero), w')) \<and>
    (\<forall>r w'. control_run sys wc_size cid0 clock_rate params w = Some (r, w') \<longrightarrow>
       filter signalling (trace w') = filter signalling (trace w))"
proof (intro conjI allI impI)
  obtain a w1 where "get_cycles sys w = Some (Ret a, w1)"
    using total_returns [OF total_get_cycles gives_orD [OF yields_get_cycles], of sys w] by (auto simp: returns_iff)
  then show "\<exists>w'. control_rounds sys clock_rate role cid params wc ins outs rv w = Some (Stop (Fault Div_by_zero), w')"
    by (simp add: short_rounds [OF assms] run_at)
  fix r w'
  assume "control_run sys wc_size cid0 clock_rate params w = Some (r, w')"
  then show "filter signalling (trace w') = filter signalling (trace w)"
    using hidesD [OF short_run_silent [OF assms], of sys wc_size cid0 clock_rate w] by (cases r) (simp_all add: wp_def)
qed

theorem control_short_run_faults_witness:
  "(\<exists>w'. control_rounds signal_sys BILLION ROLE_CLIENT 7 default_parameters [] [] [] 0 world0 =
      Some (Stop (Fault Div_by_zero), w')) \<and>
    (\<exists>r w'. control_run signal_sys 48 0 BILLION (signal_params\<lparr>p_repeat := 99\<rparr>) world0 = Some (r, w') \<and>
       filter signalling (trace w') = [])"
proof
  show "\<exists>w'. control_rounds signal_sys BILLION ROLE_CLIENT 7 default_parameters [] [] [] 0 world0 =
      Some (Stop (Fault Div_by_zero), w')"
    by (rule control_short_run_faults [THEN conjunct1]) (simp_all add: default_parameters_def config_defs)
  let ?params = "signal_params\<lparr>p_repeat := 99\<rparr>"
  obtain r w' where r: "control_run signal_sys 48 0 BILLION ?params world0 = Some (r, w')"
    using total_control_run [OF signal_contracts(4,5), of 48 0 BILLION ?params]
    by (auto simp: total_def dest!: spec [of _ world0])
  moreover have "filter signalling (trace w') = filter signalling (trace world0)"
    by (rule control_short_run_faults [THEN conjunct2, rule_format, OF _ _ r]) (simp_all add: signal_params_def)
  ultimately show "\<exists>r w'. control_run signal_sys 48 0 BILLION ?params world0 = Some (r, w') \<and>
      filter signalling (trace w') = []"
    by (auto simp: world0_def)
qed

end
