(* ===== verification/Spec2Isabelle.thy ===== *)
theory Spec2Isabelle
  imports Rdma_Main Mpi_Main Control_Runs
begin

text \<open>
  A verification library for the micro-benchmarks of rdma-opera (\<open>src/src/microbenchmark/\<close>): three C
  programs over a header library for RDMA.

  \<^bold>\<open>The program.\<close>  \<open>dccs_parameters.h\<close> and \<open>dccs_config.h\<close> hold the data and the settings,
  \<open>dccs_utils.h\<close> logging, the clock, the command line, random buffers and digests, \<open>dccs_rdma.h\<close> the
  connections, memory regions, work requests, completions, request buffers, the exchange of region
  descriptors, batches of requests and the reports.  The programs are \<open>rdma_main.c\<close> (a client and a server
  that time RDMA sends, reads and writes), \<open>control_main.c\<close> (a server that posts one signal per time slot)
  and \<open>mpi_main.c\<close> (ranks that exchange packets with rank 0 through MPI).  Each program parses its command
  line, initialises the clock rate and the CPU affinity and runs; all of them call the headers, and two
  processes meet only through the network, which is part of the environment of each.

  \<^bold>\<open>How a C function is modelled.\<close>  A function with effects is a program \<open>('e world, 'a) prog\<close> of theory
  \<open>Prelude\<close>: a state transformer that does not return (\<open>None\<close>), returns a value (\<open>Ret\<close>), or ends the
  process (\<open>Stop\<close>: an exit status, or a fault where C has undefined behaviour or a failed assertion).
  The world (theory \<open>Platform\<close>) is the environment, a flat memory of bytes and the trace of library calls with
  their arguments and replies.  Out-parameters and arrays are returned; \<open>goto\<close> and \<open>break\<close> are the branch
  that skips to the label; the stretch between two labels is a definition of its own.  Unsigned integers have the
  width of the source, and wrap.  A value of type \<open>int\<close> is an integer; where the source adds to one that grows with
  its input (\<open>failed_count\<close>, \<open>finished_count\<close>, the sum of completions), \<open>add_int\<close> ends the run with the fault
  \<open>Int_overflow\<close> outside the range of the type, and the theorems carry the bounds that exclude it.  Libraries
  (librdmacm, libibverbs, the system calls, the allocator and the random numbers of libc, SHA1, \<open>pow\<close>, \<open>sqrt\<close>, MPI)
  are the fields of the record \<open>sys\<close>: any functions of the environment and the memory.  Those of the C library that only
  compute (\<open>getopt_long\<close>, \<open>sscanf\<close>, \<open>qsort\<close>, \<open>strcmp\<close>, \<open>strncmp\<close>) are definitions.  What a theorem needs of the fields
  it names: \<open>live_nic\<close> (polling and waiting end), \<open>plenty\<close> and \<open>ample\<close> (allocation and registration
  succeed), \<open>sound_heap\<close>, \<open>callocs\<close>, \<open>connects\<close>, \<open>clock_reaches\<close>.  A null region that is deregistered is a fault.  Theory \<open>Testbed\<close> is a
  concrete environment, and a witness shows that each such theorem applies there.

  \<^bold>\<open>Theories.\<close>
    \<^item> \<open>Prelude\<close>: machine types, programs, weakest preconditions (\<open>wp\<close>, \<open>returns\<close>, \<open>total\<close>), loops, byte strings, and
      the interface \<open>completion\<close> of the functions that are called in \<open>while ((rv = f()) == 0);\<close>.
    \<^item> \<open>Dccs_Params\<close>: \<open>dccs_parameters.h\<close> and \<open>dccs_config.h\<close>.
    \<^item> \<open>Floating\<close>: the type \<open>double\<close>.
    \<^item> \<open>Platform\<close>: events, the world, the library calls.
    \<^item> \<open>Ledger\<close>: the trace read as a ledger of endpoints, regions, address infos and blocks; the relation
      \<open>trades\<close> with one rule per program construct.
    \<^item> \<open>Testbed\<close>: the concrete environment.
    \<^item> \<open>Dccs_Log\<close>, \<open>Dccs_Utils\<close>, \<open>Parse_Args\<close>: \<open>dccs_utils.h\<close>; the last one has the table of options of
      \<open>parse_args\<close> and the results of \<open>getopt_long\<close> on it.
    \<^item> \<open>Byte_Order\<close>: \<open>htonll\<close> and \<open>ntohll\<close> of \<open>dccs_rdma.h\<close> and their libc relatives under one interface,
      \<open>network_order\<close>.
    \<^item> \<open>Rdma_Conn\<close>, \<open>Rdma_Ops\<close>, \<open>Rdma_Buffers\<close>, \<open>Mr_Exchange\<close>, \<open>Requests\<close>, \<open>Reports\<close>: \<open>dccs_rdma.h\<close> in its order
      (\<open>Reports\<close> also has \<open>sort_latencies\<close> of \<open>dccs_utils.h\<close>); interfaces \<open>registrar\<close>, \<open>poster\<close> and
      \<open>key_comparator\<close>.
    \<^item> \<open>Outcomes\<close>: freedom from faults (\<open>yields\<close>) and events a program does not cause (\<open>hides\<close>), by rules
      on programs.
    \<^item> \<open>Rdma_Main\<close>: \<open>rdma_main.c\<close>.
    \<^item> \<open>Control_Main\<close>, \<open>Control_Runs\<close>: \<open>control_main.c\<close>, the machine of slots it refines, and its runs.
    \<^item> \<open>Mpi_Main\<close>: \<open>mpi_main.c\<close>; interface \<open>rank_loop\<close> of the loops over the ranks.

  \<^bold>\<open>What is shown.\<close>
    \<^item> Resources: every function that acquires endpoints, regions or blocks says what the ledger holds on
      every path, errors included, up to whole runs of the RDMA and the control program.  What is never given
      back shows up in the statements: the endpoint when the type of service cannot be set, and the arrays of requests,
      identified by the calls in the trace that allocated them.
    \<^item> Termination and faults: the runs of all three programs return without a fault under the named
      hypotheses; the inputs that fault (control runs of less than 100 rounds, throughput runs of warm-up requests
      only, MPI jobs of one rank, long options that the unterminated table of options lacks, buffers whose
      registration failed) have theorems of their own.  The waits of \<open>dccs_rdma_recv_comp\<close> and \<open>wait_until\<close>
      end exactly when the network or the clock lets them.
    \<^item> Functional behaviour: batches of requests and their outstanding work (completions and failed polls
      are counted apart), region descriptors from the memory of one host
      to the requests of another, layout of the request buffers, messages of the MPI rounds, the statistics
      of the latency report as order statistics of the measurements, elapsed time and throughput of the
      throughput report up to the rounding errors of their computation.
    \<^item> The command line: valid parameters from every command line that is accepted, and the round trip
      from parameters to a command line and back.
    \<^item> Pacing: the clock readings and signals of a control server, however its run ends, are a run of the machine
      of slots, so that no signal is sent before the end of its slot.

  \<^bold>\<open>Loops.\<close>  No fuel is used.  A counted loop is \<open>forP\<close> over its list of indices; \<open>while\<close> loops are
  \<open>loopP\<close> and \<open>retry_zero\<close>, whose value is \<open>None\<close> when they do not end, so that returning is a theorem.

  \<^bold>\<open>Not modelled.\<close>
    \<^item> Code that the settings of the sources switch off: \<open>VERBOSE_TIMING\<close>, \<open>USE_RDTSC\<close> (inline assembly),
      \<open>TEST_RDMA_SYNC\<close>, \<open>#if 0\<close>, and in \<open>mpi_main.c\<close> \<open>MPI_USE_WAIT\<close> and synchronous sending; \<open>wait_for_gdb\<close> is
      never called.
    \<^item> The arguments of log messages other than those of the reports and of \<open>print_parameters\<close>; what a terminal
      does with the output, and what \<open>getopt_long\<close> prints about an option it rejects.
    \<^item> Concurrency inside one process: there is none.  The network card may change any byte of memory during any
      library call, but not between two calls.
    \<^item> Accesses within the memory of a block are not checked against its size in \<open>write_mem\<close>; the layout
      theorems on \<open>allocate_buffer\<close> and the bounds theorems state where the buffers lie.
    \<^item> The scripts under \<open>src/script\<close>, which run the programs and plot their logs.
\<close>

end
